theory Spec2Isabelle
  imports Complex_Main "HOL-Library.Log_Nat"
begin

section \<open>Savor Save: order and expense ledger core\<close>

text \<open>
  The development embeds the PL/pgSQL functions of the Supabase migrations
  (\<^verbatim>\<open>split_expense_equally\<close>, \<^verbatim>\<open>cancel_expense\<close>, \<^verbatim>\<open>get_budget_usage\<close>,
  \<^verbatim>\<open>update_order_status\<close>) and the React hooks \<^verbatim>\<open>useFoodExpenses\<close> and
  \<^verbatim>\<open>useOrderTracking\<close>. An SQL \<^verbatim>\<open>DECIMAL\<close> is a PostgreSQL \<^verbatim>\<open>numeric\<close>: a value
  with a display scale, whose sums, differences and products are exact and whose
  quotients are rounded at the scale PostgreSQL selects. A JavaScript number that holds
  an amount is an IEEE 754 double: every arithmetic result is rounded to the nearest
  double. Timestamps are integers (milliseconds), \<^verbatim>\<open>now()\<close> and \<^verbatim>\<open>Date.now()\<close> are
  explicit arguments. A string is the list of the bytes of its UTF-8 encoding. A
  nullable column or an optional field is an \<open>option\<close>; a raised error is the \<open>Inl\<close>
  of a sum.
\<close>

subsection \<open>Time and SQL errors\<close>

type_synonym timestamp = int

datatype sql_error = division_by_zero | foreign_key_violation | check_violation

subsection \<open>PostgreSQL numerics\<close>

text \<open>
  \<open>floor_log b x\<close> is the integer \<open>k\<close> with \<open>b ^ k \<le> x < b ^ (k + 1)\<close>, for a
  positive \<open>x\<close>.
\<close>

definition floor_log :: "nat \<Rightarrow> rat \<Rightarrow> int" where
  "floor_log b x =
     (if 1 \<le> x then int (floorlog b (nat \<lfloor>x\<rfloor>)) - 1
      else - int (floorlog b (nat (\<lceil>1 / x\<rceil> - 1))))"

text \<open>
  A \<^verbatim>\<open>numeric\<close> is its value and its display scale, the number of decimal digits
  after the point. \<open>dec d s\<close> is the numeric written with the digits \<open>d\<close> and \<open>s\<close>
  of them after the point, so that \<open>dec 12000 2\<close> is \<^verbatim>\<open>120.00\<close>; an integer
  converts to scale 0. \<^verbatim>\<open>+\<close> and \<^verbatim>\<open>-\<close> are exact at the larger scale of the
  operands, \<^verbatim>\<open>*\<close> is exact at the sum of their scales, \<^verbatim>\<open>FLOOR\<close> gives scale 0
  and \<^verbatim>\<open>ROUND(v, s)\<close> rounds half away from zero to scale \<open>s\<close>. The limits of the
  type (131072 digits before the point) are not modelled.
\<close>

record numeric =
  val :: rat
  dscale :: nat

definition dec :: "int \<Rightarrow> nat \<Rightarrow> numeric" where
  "dec d s = \<lparr>val = of_int d / 10 ^ s, dscale = s\<rparr>"

definition num_of_int :: "int \<Rightarrow> numeric" where
  "num_of_int i = \<lparr>val = of_int i, dscale = 0\<rparr>"

definition num_add :: "numeric \<Rightarrow> numeric \<Rightarrow> numeric" where
  "num_add a b = \<lparr>val = val a + val b, dscale = max (dscale a) (dscale b)\<rparr>"

definition num_sub :: "numeric \<Rightarrow> numeric \<Rightarrow> numeric" where
  "num_sub a b = \<lparr>val = val a - val b, dscale = max (dscale a) (dscale b)\<rparr>"

definition num_mul :: "numeric \<Rightarrow> numeric \<Rightarrow> numeric" where
  "num_mul a b = \<lparr>val = val a * val b, dscale = dscale a + dscale b\<rparr>"


definition round_scale :: "nat \<Rightarrow> rat \<Rightarrow> rat" where
  "round_scale r x =
     (if 0 \<le> x then of_int \<lfloor>x * 10 ^ r + 1 / 2\<rfloor> / 10 ^ r
      else - (of_int \<lfloor>- x * 10 ^ r + 1 / 2\<rfloor> / 10 ^ r))"

definition num_round :: "numeric \<Rightarrow> nat \<Rightarrow> numeric" where
  "num_round a s = \<lparr>val = round_scale s (val a), dscale = s\<rparr>"

text \<open>
  Division follows \<^verbatim>\<open>numeric_div\<close>: \<^verbatim>\<open>select_div_scale\<close> chooses the scale of the
  result so that it carries at least 16 significant digits, and at least the scale of
  either operand; the quotient is rounded to that scale. PostgreSQL stores a numeric in
  digits of base 10000: \<open>num_weight\<close> is the weight of the first such digit (0 for the
  value zero) and \<open>first_digit\<close> that digit. The divisor is not zero where the
  functions below divide: they test it beforehand, as the division itself would.
\<close>

definition num_weight :: "rat \<Rightarrow> int" where
  "num_weight x = (if x = 0 then 0 else floor_log 10000 \<bar>x\<bar>)"

definition first_digit :: "rat \<Rightarrow> int" where
  "first_digit x = (if x = 0 then 0 else \<lfloor>\<bar>x\<bar> / 10000 powi num_weight x\<rfloor>)"

definition select_div_scale :: "numeric \<Rightarrow> numeric \<Rightarrow> nat" where
  "select_div_scale var1 var2 =
     (let qweight = num_weight (val var1) - num_weight (val var2);
          qweight = (if first_digit (val var1) \<le> first_digit (val var2)
                     then qweight - 1 else qweight);
          rscale = 16 - qweight * 4;
          rscale = max rscale (int (dscale var1));
          rscale = max rscale (int (dscale var2));
          rscale = max rscale 0;
          rscale = min rscale 1000
      in nat rscale)"

definition num_quot :: "numeric \<Rightarrow> numeric \<Rightarrow> numeric" where
  "num_quot var1 var2 =
     (let rscale = select_div_scale var1 var2
      in \<lparr>val = round_scale rscale (val var1 / val var2), dscale = rscale\<rparr>)"

text \<open>
  \<^verbatim>\<open>SUM\<close> over a column of numerics: \<^verbatim>\<open>NULL\<close> for no rows, else the exact sum at
  the largest scale.
\<close>

definition sum_numeric :: "numeric list \<Rightarrow> numeric option" where
  "sum_numeric vs = (case vs of [] \<Rightarrow> None | v # rest \<Rightarrow> Some (foldl num_add v rest))"

subsection \<open>JavaScript numbers\<close>

text \<open>
  A \<^verbatim>\<open>number\<close> is a finite double, an infinity or \<^verbatim>\<open>NaN\<close>; a finite double is the
  rational it denotes. Negative zero is identified with zero: of the operations below
  only a division by it tells the two apart. \<open>double_round\<close> maps a real result to the
  double that IEEE 754 arithmetic returns for it: the nearest one, with 53 significant
  bits above \<open>2 ^ -1022\<close> and a spacing of \<open>2 ^ -1074\<close> below, a tie going to the
  even significand, and an infinity from \<open>2 ^ 1024 - 2 ^ 970\<close> on.
\<close>

datatype number = Num rat | PosInfinity | NegInfinity | NaN

definition round_half_even :: "rat \<Rightarrow> int" where
  "round_half_even q =
     (let f = \<lfloor>q\<rfloor>; d = q - of_int f
      in if d < 1 / 2 then f
         else if 1 / 2 < d then f + 1
         else if even f then f else f + 1)"

definition double_round :: "rat \<Rightarrow> number" where
  "double_round x =
     (if x = 0 then Num 0
      else
        let e = max (floor_log 2 \<bar>x\<bar>) (- 1022);
            ulp = 2 powi (e - 52);
            y = of_int (round_half_even (\<bar>x\<bar> / ulp)) * ulp
        in if 2 powi 1024 \<le> y then (if 0 < x then PosInfinity else NegInfinity)
           else Num (sgn x * y))"


fun js_neg :: "number \<Rightarrow> number" where
  "js_neg (Num x) = Num (- x)"
| "js_neg PosInfinity = NegInfinity"
| "js_neg NegInfinity = PosInfinity"
| "js_neg NaN = NaN"

fun js_add :: "number \<Rightarrow> number \<Rightarrow> number" where
  "js_add (Num x) (Num y) = double_round (x + y)"
| "js_add NaN _ = NaN"
| "js_add _ NaN = NaN"
| "js_add PosInfinity NegInfinity = NaN"
| "js_add NegInfinity PosInfinity = NaN"
| "js_add PosInfinity _ = PosInfinity"
| "js_add _ PosInfinity = PosInfinity"
| "js_add NegInfinity _ = NegInfinity"
| "js_add _ NegInfinity = NegInfinity"

definition js_sub :: "number \<Rightarrow> number \<Rightarrow> number" where
  "js_sub a b = js_add a (js_neg b)"




fun js_le :: "number \<Rightarrow> number \<Rightarrow> bool" where
  "js_le (Num x) (Num y) = (x \<le> y)"
| "js_le NaN _ = False"
| "js_le _ NaN = False"
| "js_le NegInfinity _ = True"
| "js_le _ PosInfinity = True"
| "js_le _ _ = False"

definition isNaN :: "number \<Rightarrow> bool" where
  "isNaN a \<longleftrightarrow> a = NaN"


text \<open>
  The double that a JSON number or a numeric column read through the API becomes:
  the one nearest to its decimal value.
\<close>

definition Number_of :: "numeric \<Rightarrow> number" where
  "Number_of v = double_round (val v)"

subsection \<open>Split calculator\<close>





record SplitShare =
  person :: number
  amount :: number


subsection \<open>The \<^verbatim>\<open>food_orders\<close> and \<^verbatim>\<open>user_budgets\<close> tables\<close>

text \<open>
  A row of \<^verbatim>\<open>public.food_orders\<close>, with the columns the migration adds and those
  the hook reads and writes; fields carry the alias \<^verbatim>\<open>fo\<close> that the SQL uses. Columns
  that may hold \<^verbatim>\<open>NULL\<close> are options. A table is the list of its rows.
\<close>

record food_orders_row =
  fo_id :: string
  fo_user_id :: "string option"
  fo_food_id :: "string option"
  fo_food_name :: string
  fo_restaurant :: "string option"
  fo_category :: string
  fo_amount :: numeric
  fo_order_date :: timestamp
  fo_meal_type :: string
  fo_cuisine :: "string option"
  fo_notes :: "string option"
  fo_image :: "string option"
  fo_status :: "string option"
  fo_transaction_type :: "string option"
  fo_is_split :: "bool option"
  fo_split_total :: "numeric option"
  fo_split_people :: "int option"
  fo_split_method :: "string option"
  fo_split_shares :: "SplitShare list option"
  fo_cancelled_at :: "timestamp option"
  fo_cancelled_reason :: "string option"
  fo_updated_at :: "timestamp option"

record user_budgets_row =
  ub_user_id :: "string option"
  ub_daily_budget :: "numeric option"
  ub_weekly_budget :: "numeric option"
  ub_monthly_budget :: "numeric option"
  ub_alert_threshold :: "numeric option"

subsection \<open>Expense cancellation\<close>

text \<open>
  \<^verbatim>\<open>cancel_expense(p_expense_id UUID, p_reason TEXT DEFAULT NULL) RETURNS BOOLEAN\<close>:
  one \<^verbatim>\<open>UPDATE ... WHERE id = p_expense_id AND status IN ('pending', 'completed')\<close>
  followed by \<^verbatim>\<open>RETURN FOUND\<close>. \<^verbatim>\<open>FOUND\<close> is true when the update touched a row.
  A \<^verbatim>\<open>NULL\<close> status makes the \<^verbatim>\<open>IN\<close> test unknown, so such a row is not updated.
\<close>

definition cancel_expense_where :: "string \<Rightarrow> food_orders_row \<Rightarrow> bool" where
  "cancel_expense_where p_expense_id r \<longleftrightarrow>
     fo_id r = p_expense_id
     \<and> (fo_status r = Some ''pending'' \<or> fo_status r = Some ''completed'')"

definition cancel_expense ::
  "timestamp \<Rightarrow> string \<Rightarrow> string option \<Rightarrow> food_orders_row list
     \<Rightarrow> bool \<times> food_orders_row list" where
  "cancel_expense now p_expense_id p_reason food_orders =
     (let updated =
            map (\<lambda>r. if cancel_expense_where p_expense_id r
                      then r\<lparr>fo_status := Some ''cancelled'',
                             fo_cancelled_at := Some now,
                             fo_cancelled_reason := p_reason,
                             fo_updated_at := Some now\<rparr>
                      else r) food_orders;
          found = list_ex (cancel_expense_where p_expense_id) food_orders
      in (found, updated))"

subsection \<open>Budget usage\<close>

text \<open>
  \<^verbatim>\<open>get_budget_usage(p_user_id UUID, p_period TEXT DEFAULT 'monthly')\<close>. The dates the
  function reads from the session, \<^verbatim>\<open>CURRENT_DATE\<close>,
  \<^verbatim>\<open>DATE_TRUNC('week', CURRENT_DATE)\<close> and \<^verbatim>\<open>DATE_TRUNC('month', CURRENT_DATE)\<close>, are
  the fields of \<open>sql_dates\<close>.
\<close>

record sql_dates =
  current_date :: timestamp
  week_trunc :: timestamp
  month_trunc :: timestamp

record budget_usage_row =
  total_spent :: numeric
  budget_limit :: numeric
  percentage_used :: "numeric option"
  remaining :: numeric
  alert_threshold :: numeric
  should_alert :: "bool option"

text \<open>
  \<^verbatim>\<open>x = p_user_id OR x IS NULL\<close> in SQL's three-valued logic: the comparison with a
  \<^verbatim>\<open>NULL\<close> parameter is unknown, so only the \<^verbatim>\<open>IS NULL\<close> disjunct can select a row.
\<close>

definition user_matches :: "string option \<Rightarrow> string option \<Rightarrow> bool" where
  "user_matches p_user_id x \<longleftrightarrow>
     (case x of None \<Rightarrow> True
      | Some u \<Rightarrow> (case p_user_id of None \<Rightarrow> False | Some p \<Rightarrow> u = p))"

text \<open>\<^verbatim>\<open>NULLIF(v, 0)\<close>: numerics are compared by value.\<close>

definition nullif0 :: "numeric \<Rightarrow> numeric option" where
  "nullif0 v = (if val v = 0 then None else Some v)"

text \<open>
  The first query: budget and threshold of the first row that matches the user
  (\<^verbatim>\<open>LIMIT 1\<close>), each \<^verbatim>\<open>NULL\<close> when no row matches.
\<close>

definition select_budget ::
  "string option \<Rightarrow> string \<Rightarrow> user_budgets_row list \<Rightarrow> numeric option \<times> numeric option" where
  "select_budget p_user_id p_period user_budgets =
     (case filter (\<lambda>ub. user_matches p_user_id (ub_user_id ub)) user_budgets of
        [] \<Rightarrow> (None, None)
      | ub # _ \<Rightarrow>
          (if p_period = ''daily'' then ub_daily_budget ub
           else if p_period = ''weekly'' then ub_weekly_budget ub
           else ub_monthly_budget ub,
           ub_alert_threshold ub))"

text \<open>The \<^verbatim>\<open>WHERE\<close> clause of the spending query.\<close>

definition spent_where ::
  "sql_dates \<Rightarrow> string option \<Rightarrow> string \<Rightarrow> food_orders_row \<Rightarrow> bool" where
  "spent_where d p_user_id p_period fo \<longleftrightarrow>
     user_matches p_user_id (fo_user_id fo)
     \<and> fo_status fo = Some ''completed''
     \<and> fo_transaction_type fo = Some ''expense''
     \<and> (if p_period = ''daily'' then fo_order_date fo \<ge> current_date d
        else if p_period = ''weekly'' then fo_order_date fo \<ge> week_trunc d
        else fo_order_date fo \<ge> month_trunc d)"

text \<open>
  The row that \<^verbatim>\<open>RETURN QUERY SELECT ...\<close> builds from the three variables. A
  \<^verbatim>\<open>NULL\<close> divisor makes the quotient, and what is computed from it, \<^verbatim>\<open>NULL\<close>.
\<close>

definition usage_row :: "numeric \<Rightarrow> numeric \<Rightarrow> numeric \<Rightarrow> budget_usage_row" where
  "usage_row v_spent v_budget v_threshold =
     \<lparr>total_spent = v_spent,
      budget_limit = v_budget,
      percentage_used =
        map_option (\<lambda>n. num_round (num_mul (num_quot v_spent n) (num_of_int 100)) 2)
          (nullif0 v_budget),
      remaining = num_sub v_budget v_spent,
      alert_threshold = v_threshold,
      should_alert =
        map_option (\<lambda>n. val (num_mul (num_quot v_spent n) (num_of_int 100)) \<ge> val v_threshold)
          (nullif0 v_budget)\<rparr>"

definition get_budget_usage ::
  "sql_dates \<Rightarrow> user_budgets_row list \<Rightarrow> food_orders_row list
     \<Rightarrow> string option \<Rightarrow> string \<Rightarrow> budget_usage_row" where
  "get_budget_usage d user_budgets food_orders p_user_id p_period =
     (let (b, t) = select_budget p_user_id p_period user_budgets;
          v_budget = (case b of
                        None \<Rightarrow> (if p_period = ''daily'' then num_of_int 400
                                 else if p_period = ''weekly'' then num_of_int 2500
                                 else num_of_int 10000)
                      | Some v \<Rightarrow> v);
          v_threshold = (case t of None \<Rightarrow> num_of_int 80 | Some v \<Rightarrow> v);
          v_spent = (case sum_numeric (map fo_amount
                            (filter (spent_where d p_user_id p_period) food_orders)) of
                       None \<Rightarrow> num_of_int 0
                     | Some v \<Rightarrow> v)
      in usage_row v_spent v_budget v_threshold)"

text \<open>
  The later script that recreates the function (``Fix: Ambiguous column reference'')
  differs only in reading a \<^verbatim>\<open>NULL\<close> status as \<^verbatim>\<open>'completed'\<close> and a \<^verbatim>\<open>NULL\<close>
  transaction type as \<^verbatim>\<open>'expense'\<close>.
\<close>

definition spent_where_fix ::
  "sql_dates \<Rightarrow> string option \<Rightarrow> string \<Rightarrow> food_orders_row \<Rightarrow> bool" where
  "spent_where_fix d p_user_id p_period fo \<longleftrightarrow>
     user_matches p_user_id (fo_user_id fo)
     \<and> (case fo_status fo of None \<Rightarrow> ''completed'' | Some s \<Rightarrow> s) = ''completed''
     \<and> (case fo_transaction_type fo of None \<Rightarrow> ''expense'' | Some s \<Rightarrow> s) = ''expense''
     \<and> (if p_period = ''daily'' then fo_order_date fo \<ge> current_date d
        else if p_period = ''weekly'' then fo_order_date fo \<ge> week_trunc d
        else fo_order_date fo \<ge> month_trunc d)"

definition get_budget_usage_fix ::
  "sql_dates \<Rightarrow> user_budgets_row list \<Rightarrow> food_orders_row list
     \<Rightarrow> string option \<Rightarrow> string \<Rightarrow> budget_usage_row" where
  "get_budget_usage_fix d user_budgets food_orders p_user_id p_period =
     (let (b, t) = select_budget p_user_id p_period user_budgets;
          v_budget = (case b of
                        None \<Rightarrow> (if p_period = ''daily'' then num_of_int 400
                                 else if p_period = ''weekly'' then num_of_int 2500
                                 else num_of_int 10000)
                      | Some v \<Rightarrow> v);
          v_threshold = (case t of None \<Rightarrow> num_of_int 80 | Some v \<Rightarrow> v);
          v_spent = (case sum_numeric (map fo_amount
                            (filter (spent_where_fix d p_user_id p_period) food_orders)) of
                       None \<Rightarrow> num_of_int 0
                     | Some v \<Rightarrow> v)
      in usage_row v_spent v_budget v_threshold)"

text \<open>
  The amounts the application stores have two decimals. \<open>whole_cents\<close> holds of such a
  value, and \<open>cents_in_range\<close> of a result row whose total spent, budget limit and
  threshold are in whole cents, with the total from 0 to below \<open>10 ^ 10\<close> and the limit
  above 0 and below \<open>10 ^ 10\<close>.
\<close>

definition whole_cents :: "rat \<Rightarrow> bool" where
  "whole_cents v \<longleftrightarrow> of_int \<lfloor>v * 100\<rfloor> = v * 100"

definition cents_in_range :: "budget_usage_row \<Rightarrow> bool" where
  "cents_in_range r \<longleftrightarrow>
     whole_cents (val (total_spent r)) \<and> whole_cents (val (budget_limit r))
     \<and> whole_cents (val (alert_threshold r))
     \<and> 0 \<le> val (total_spent r) \<and> val (total_spent r) < 10 ^ 10
     \<and> 0 < val (budget_limit r) \<and> val (budget_limit r) < 10 ^ 10"

subsection \<open>Sample rows\<close>

text \<open>A completed expense of 120.00 by an anonymous user, used in the examples below.\<close>

definition dosa :: food_orders_row where
  "dosa = \<lparr>fo_id = ''e1'', fo_user_id = None, fo_food_id = None, fo_food_name = ''Dosa'',
     fo_restaurant = None, fo_category = ''delivery'', fo_amount = dec 12000 2,
     fo_order_date = 100,
     fo_meal_type = ''lunch'', fo_cuisine = None, fo_notes = None, fo_image = None,
     fo_status = Some ''completed'', fo_transaction_type = Some ''expense'',
     fo_is_split = Some False, fo_split_total = None, fo_split_people = None,
     fo_split_method = None, fo_split_shares = None, fo_cancelled_at = None,
     fo_cancelled_reason = None, fo_updated_at = None\<rparr>"

text \<open>The dates of the session in the examples: the day starts at 90, the week at 50, the month at 10.\<close>

definition sample_dates :: sql_dates where
  "sample_dates = \<lparr>current_date = 90, week_trunc = 50, month_trunc = 10\<rparr>"

text \<open>Three completed expenses of the current month: 3000.00, 3000.00 and 2500.00.\<close>

definition month_rows :: "food_orders_row list" where
  "month_rows =
     [dosa\<lparr>fo_id := ''e2'', fo_amount := dec 300000 2\<rparr>,
      dosa\<lparr>fo_id := ''e3'', fo_amount := dec 300000 2\<rparr>,
      dosa\<lparr>fo_id := ''e4'', fo_amount := dec 250000 2\<rparr>]"

text \<open>A budget row whose limits are all zero.\<close>

definition zero_budget :: user_budgets_row where
  "zero_budget = \<lparr>ub_user_id = None, ub_daily_budget = Some (dec 0 2),
     ub_weekly_budget = Some (dec 0 2), ub_monthly_budget = Some (dec 0 2),
     ub_alert_threshold = Some (dec 8000 2)\<rparr>"

text \<open>One completed expense of 7999.60 in the current month.\<close>

definition near_rows :: "food_orders_row list" where
  "near_rows = [dosa\<lparr>fo_amount := dec 799960 2\<rparr>]"

text \<open>A budget row whose limits are negative.\<close>

definition negative_budget :: user_budgets_row where
  "negative_budget = \<lparr>ub_user_id = None, ub_daily_budget = Some (dec (- 10000) 2),
     ub_weekly_budget = Some (dec (- 10000) 2), ub_monthly_budget = Some (dec (- 10000) 2),
     ub_alert_threshold = Some (dec 8000 2)\<rparr>"

subsection \<open>The \<^verbatim>\<open>orders\<close> and \<^verbatim>\<open>order_status_history\<close> tables\<close>

text \<open>
  The columns of \<^verbatim>\<open>public.orders\<close> that the status functions read or write, with the
  prefix \<open>o_\<close>, and those of \<^verbatim>\<open>public.order_status_history\<close>, with the prefix
  \<open>h_\<close> (its generated \<^verbatim>\<open>id\<close> is left out). A \<^verbatim>\<open>JSONB\<close> location is a record.
\<close>

record Location =
  lat :: rat
  lng :: rat
  address :: "string option"

record orders_row =
  o_id :: string
  o_user_id :: "string option"
  o_order_number :: string
  o_status :: string
  o_estimated_delivery_time :: "timestamp option"
  o_rating :: "int option"
  o_review :: "string option"
  o_placed_at :: "timestamp option"
  o_confirmed_at :: "timestamp option"
  o_preparing_at :: "timestamp option"
  o_ready_at :: "timestamp option"
  o_picked_up_at :: "timestamp option"
  o_on_the_way_at :: "timestamp option"
  o_delivered_at :: "timestamp option"
  o_cancelled_at :: "timestamp option"
  o_cancellation_reason :: "string option"
  o_cancelled_by :: "string option"
  o_updated_at :: "timestamp option"

record order_status_history_row =
  h_order_id :: string
  h_status :: string
  h_message :: "string option"
  h_location :: "Location option"
  h_created_at :: "timestamp option"

record order_db =
  orders :: "orders_row list"
  order_status_history :: "order_status_history_row list"

text \<open>The values that the \<^verbatim>\<open>CHECK\<close> constraint on \<^verbatim>\<open>orders.status\<close> admits.\<close>

definition orders_status_check :: "string list" where
  "orders_status_check =
     [''placed'', ''confirmed'', ''preparing'', ''ready'', ''picked_up'',
      ''on_the_way'', ''nearby'', ''delivered'', ''cancelled'', ''failed'']"

text \<open>
  Row-level security is enabled on \<^verbatim>\<open>orders\<close>. The policies
  ``Anyone can view orders'' and ``Anyone can update orders'' share the condition
  \<^verbatim>\<open>auth.uid() = user_id OR (auth.uid() IS NULL AND user_id IS NULL) OR user_id IS NULL\<close>;
  a row that fails it is skipped by an \<^verbatim>\<open>UPDATE\<close> of the session. The insert policy on
  \<^verbatim>\<open>order_status_history\<close> is \<^verbatim>\<open>WITH CHECK (true)\<close>.
\<close>

definition orders_policy :: "string option \<Rightarrow> orders_row \<Rightarrow> bool" where
  "orders_policy auth_uid r \<longleftrightarrow>
     (case o_user_id r of None \<Rightarrow> True | Some u \<Rightarrow> auth_uid = Some u)"

subsection \<open>Order status transition\<close>

text \<open>
  \<^verbatim>\<open>update_order_status(p_order_id, p_new_status, p_message, p_location) RETURNS BOOLEAN\<close>,
  a security-invoker function, run by the session \<open>auth_uid\<close> at time \<open>now\<close>.
  The row written by the \<^verbatim>\<open>UPDATE\<close>:
\<close>

definition set_status :: "timestamp \<Rightarrow> string \<Rightarrow> orders_row \<Rightarrow> orders_row" where
  "set_status now p_new_status r =
     r\<lparr>o_status := p_new_status,
       o_confirmed_at := (if p_new_status = ''confirmed'' then Some now else o_confirmed_at r),
       o_preparing_at := (if p_new_status = ''preparing'' then Some now else o_preparing_at r),
       o_ready_at := (if p_new_status = ''ready'' then Some now else o_ready_at r),
       o_picked_up_at := (if p_new_status = ''picked_up'' then Some now else o_picked_up_at r),
       o_on_the_way_at := (if p_new_status = ''on_the_way'' then Some now else o_on_the_way_at r),
       o_delivered_at := (if p_new_status = ''delivered'' then Some now else o_delivered_at r),
       o_cancelled_at := (if p_new_status = ''cancelled'' then Some now else o_cancelled_at r),
       o_updated_at := Some now\<rparr>"

text \<open>
  The body runs three statements, each of which sets \<^verbatim>\<open>FOUND\<close>: the
  \<^verbatim>\<open>SELECT status INTO v_old_status\<close> (the variable is not used afterwards), the
  \<^verbatim>\<open>UPDATE\<close> of the rows with the given id that the policy lets the session update, and
  the \<^verbatim>\<open>INSERT\<close> of one history row. \<^verbatim>\<open>RETURN FOUND\<close> reads the value left by the
  last of them. The \<^verbatim>\<open>UPDATE\<close> raises \<^verbatim>\<open>check_violation\<close> when it writes a status
  outside the constraint; the \<^verbatim>\<open>INSERT\<close> raises \<^verbatim>\<open>foreign_key_violation\<close> when no
  order has the id (the reference check is not subject to row-level security). An
  error aborts the call and leaves both tables as they were. The table's
  \<^verbatim>\<open>BEFORE UPDATE\<close> trigger runs \<^verbatim>\<open>update_updated_at_column\<close>, which the migrations
  at hand do not define; \<^verbatim>\<open>updated_at\<close> changes here only where a statement sets it.
\<close>

definition update_order_status ::
  "string option \<Rightarrow> timestamp \<Rightarrow> string \<Rightarrow> string \<Rightarrow> string option \<Rightarrow> Location option
     \<Rightarrow> order_db \<Rightarrow> sql_error + (bool \<times> order_db)" where
  "update_order_status auth_uid now p_order_id p_new_status p_message p_location db =
     (let target = (\<lambda>r. o_id r = p_order_id \<and> orders_policy auth_uid r);
          found_select = list_ex target (orders db);
          found_update = list_ex target (orders db)
      in if found_update \<and> p_new_status \<notin> set orders_status_check
         then Inl check_violation
         else
           let orders' = map (\<lambda>r. if target r then set_status now p_new_status r else r)
                           (orders db)
           in if \<not> list_ex (\<lambda>r. o_id r = p_order_id) orders'
              then Inl foreign_key_violation
              else
                let history' = order_status_history db @
                      [\<lparr>h_order_id = p_order_id, h_status = p_new_status,
                        h_message = p_message, h_location = p_location,
                        h_created_at = Some now\<rparr>];
                    found_insert = True
                in Inr (found_insert,
                        \<lparr>orders = orders', order_status_history = history'\<rparr>))"

text \<open>
  The hook's \<^verbatim>\<open>updateOrderStatus\<close> calls the function and catches every error (it
  shows a toast); \<^verbatim>\<open>cancelOrder\<close> then writes the reason and the initiator with a plain
  update of the row. Neither checks the current status. On the tables:
\<close>

definition updateOrderStatus ::
  "string option \<Rightarrow> timestamp \<Rightarrow> string \<Rightarrow> string \<Rightarrow> string option \<Rightarrow> Location option
     \<Rightarrow> order_db \<Rightarrow> order_db" where
  "updateOrderStatus auth_uid now orderId newStatus message location db =
     (case update_order_status auth_uid now orderId newStatus message location db of
        Inl error \<Rightarrow> db
      | Inr (data, db') \<Rightarrow> db')"

definition cancelOrder ::
  "string option \<Rightarrow> timestamp \<Rightarrow> string \<Rightarrow> string \<Rightarrow> order_db \<Rightarrow> order_db" where
  "cancelOrder auth_uid now orderId reason db =
     (let db' = updateOrderStatus auth_uid now orderId ''cancelled'' (Some reason) None db
      in db'\<lparr>orders :=
               map (\<lambda>r. if o_id r = orderId \<and> orders_policy auth_uid r
                         then r\<lparr>o_cancellation_reason := Some reason,
                                o_cancelled_by := Some ''customer''\<rparr>
                         else r) (orders db')\<rparr>)"

text \<open>
  The timestamp column that belongs to a status, as the specification speaks of it.
  \<^verbatim>\<open>nearby\<close> and \<^verbatim>\<open>failed\<close> have no column.
\<close>

definition status_timestamp :: "string \<Rightarrow> orders_row \<Rightarrow> timestamp option" where
  "status_timestamp s r =
     (if s = ''placed'' then o_placed_at r
      else if s = ''confirmed'' then o_confirmed_at r
      else if s = ''preparing'' then o_preparing_at r
      else if s = ''ready'' then o_ready_at r
      else if s = ''picked_up'' then o_picked_up_at r
      else if s = ''on_the_way'' then o_on_the_way_at r
      else if s = ''delivered'' then o_delivered_at r
      else if s = ''cancelled'' then o_cancelled_at r
      else None)"

text \<open>An order placed at time 10 by an anonymous customer, and a database holding it.\<close>

definition placed_order :: orders_row where
  "placed_order = \<lparr>o_id = ''o1'', o_user_id = None, o_order_number = ''202602060001'',
     o_status = ''placed'', o_estimated_delivery_time = None, o_rating = None,
     o_review = None, o_placed_at = Some 10, o_confirmed_at = None, o_preparing_at = None,
     o_ready_at = None, o_picked_up_at = None, o_on_the_way_at = None,
     o_delivered_at = None, o_cancelled_at = None, o_cancellation_reason = None,
     o_cancelled_by = None, o_updated_at = Some 10\<rparr>"

definition placed_db :: order_db where
  "placed_db = \<lparr>orders = [placed_order], order_status_history = []\<rparr>"

text \<open>
  The database after the order has entered \<^verbatim>\<open>preparing\<close> at time 100, and after it has
  entered it again at time 200.
\<close>

definition preparing_100 :: order_db where
  "preparing_100 =
     \<lparr>orders = [placed_order\<lparr>o_status := ''preparing'', o_preparing_at := Some 100,
                               o_updated_at := Some 100\<rparr>],
      order_status_history =
        [\<lparr>h_order_id = ''o1'', h_status = ''preparing'', h_message = None,
          h_location = None, h_created_at = Some 100\<rparr>]\<rparr>"

definition preparing_200 :: order_db where
  "preparing_200 =
     \<lparr>orders = [placed_order\<lparr>o_status := ''preparing'', o_preparing_at := Some 200,
                               o_updated_at := Some 200\<rparr>],
      order_status_history =
        [\<lparr>h_order_id = ''o1'', h_status = ''preparing'', h_message = None,
          h_location = None, h_created_at = Some 100\<rparr>,
         \<lparr>h_order_id = ''o1'', h_status = ''preparing'', h_message = None,
          h_location = None, h_created_at = Some 200\<rparr>]\<rparr>"

text \<open>
  The same order, delivered at time 50.
\<close>

definition delivered_order :: orders_row where
  "delivered_order = placed_order\<lparr>o_status := ''delivered'', o_delivered_at := Some 50,
     o_updated_at := Some 50\<rparr>"

definition delivered_db :: order_db where
  "delivered_db = \<lparr>orders = [delivered_order], order_status_history = []\<rparr>"

text \<open>
  An order that belongs to the user \<^verbatim>\<open>alice\<close>.
\<close>

definition other_order :: orders_row where
  "other_order = placed_order\<lparr>o_id := ''o9'', o_user_id := Some ''alice''\<rparr>"

subsection \<open>The expense hook \<^verbatim>\<open>useFoodExpenses\<close>\<close>

text \<open>
  \<^verbatim>\<open>FoodExpense\<close> of \<^verbatim>\<open>types/expense.ts\<close>. A \<^verbatim>\<open>Date\<close> is its time value. The fields \<^verbatim>\<open>id\<close>, \<^verbatim>\<open>amount\<close>,
  \<^verbatim>\<open>notes\<close> and \<^verbatim>\<open>image\<close> carry the prefix \<open>expense_\<close>, since the plain names are taken.
\<close>

record FoodExpense =
  expense_id :: string
  foodId :: "string option"
  foodName :: string
  restaurant :: "string option"
  category :: string
  expense_amount :: number
  date :: timestamp
  mealType :: string
  cuisine :: "string option"
  expense_notes :: "string option"
  expense_image :: "string option"
  status :: string
  transactionType :: string
  isSplit :: bool
  splitTotal :: "number option"
  splitPeople :: "number option"
  splitMethod :: "string option"
  splitShares :: "SplitShare list option"
  cancelledAt :: "timestamp option"
  cancelledReason :: "string option"

text \<open>
  \<^verbatim>\<open>x || undefined\<close> and \<^verbatim>\<open>x || null\<close> drop a missing value and a falsy one: the empty
  string, the numbers zero and \<^verbatim>\<open>NaN\<close>.
\<close>

definition truthy_string :: "string option \<Rightarrow> string option" where
  "truthy_string x = (case x of None \<Rightarrow> None | Some s \<Rightarrow> if s = [] then None else Some s)"

definition truthy_number :: "number option \<Rightarrow> number option" where
  "truthy_number x =
     (case x of None \<Rightarrow> None | Some n \<Rightarrow> if n = Num 0 \<or> n = NaN then None else Some n)"

definition mapOrderToExpense :: "food_orders_row \<Rightarrow> FoodExpense" where
  "mapOrderToExpense order =
     \<lparr>expense_id = fo_id order,
      foodId = truthy_string (fo_food_id order),
      foodName = fo_food_name order,
      restaurant = truthy_string (fo_restaurant order),
      category = fo_category order,
      expense_amount = Number_of (fo_amount order),
      date = fo_order_date order,
      mealType = fo_meal_type order,
      cuisine = truthy_string (fo_cuisine order),
      expense_notes = truthy_string (fo_notes order),
      expense_image = truthy_string (fo_image order),
      status = (case truthy_string (fo_status order) of
                  None \<Rightarrow> ''completed'' | Some s \<Rightarrow> s),
      transactionType = (case truthy_string (fo_transaction_type order) of
                  None \<Rightarrow> ''expense'' | Some s \<Rightarrow> s),
      isSplit = (fo_is_split order = Some True),
      splitTotal = truthy_number (map_option Number_of (fo_split_total order)),
      splitPeople =
        truthy_number (map_option (\<lambda>n. Number_of (num_of_int n)) (fo_split_people order)),
      splitMethod = truthy_string (fo_split_method order),
      splitShares = fo_split_shares order,
      cancelledAt = fo_cancelled_at order,
      cancelledReason = truthy_string (fo_cancelled_reason order)\<rparr>"

text \<open>
  The object that \<^verbatim>\<open>addExpense\<close> passes to
  \<^verbatim>\<open>supabase.from('food_orders').insert(...)\<close>; the server assigns the id.
\<close>

record food_orders_insert =
  ins_user_id :: string
  ins_food_id :: "string option"
  ins_food_name :: string
  ins_restaurant :: "string option"
  ins_category :: string
  ins_amount :: number
  ins_order_date :: timestamp
  ins_meal_type :: string
  ins_cuisine :: "string option"
  ins_notes :: "string option"
  ins_image :: "string option"
  ins_status :: string
  ins_transaction_type :: string
  ins_is_split :: bool
  ins_split_total :: "number option"
  ins_split_people :: "number option"
  ins_split_method :: "string option"
  ins_split_shares :: "SplitShare list option"

text \<open>
  The state that the hook's operations read and change: the in-memory collection, the
  inserts issued to the remote store, and the toasts shown (level and message).
\<close>

record ledger =
  expenses :: "FoodExpense list"
  remote_inserts :: "food_orders_insert list"
  toasts :: "(string \<times> string) list"

definition toast :: "string \<Rightarrow> string \<Rightarrow> ledger \<Rightarrow> ledger" where
  "toast level message st = st\<lparr>toasts := toasts st @ [(level, message)]\<rparr>"

text \<open>
  \<^verbatim>\<open>addExpense(expense)\<close>. The argument has type \<^verbatim>\<open>Omit<FoodExpense, 'id'>\<close>: its id is
  not read. \<open>tempId\<close> is \<^verbatim>\<open>Date.now().toString()\<close>, \<open>userId\<close> the result of
  \<^verbatim>\<open>getCurrentUserId()\<close>, and \<open>response\<close> the answer of the remote insert:
  \<open>None\<close> for an error, \<open>Some id\<close> for the row's \<^verbatim>\<open>data.id\<close>. The function returns
  the expense together with the new state; \<open>insert_row\<close> is the object it sends.
\<close>

definition insert_row :: "string \<Rightarrow> FoodExpense \<Rightarrow> food_orders_insert" where
  "insert_row userId expense =
     \<lparr>ins_user_id = userId,
      ins_food_id = truthy_string (foodId expense),
      ins_food_name = foodName expense,
      ins_restaurant = truthy_string (restaurant expense),
      ins_category = category expense,
      ins_amount = expense_amount expense,
      ins_order_date = date expense,
      ins_meal_type = mealType expense,
      ins_cuisine = truthy_string (cuisine expense),
      ins_notes = truthy_string (expense_notes expense),
      ins_image = truthy_string (expense_image expense),
      ins_status = (if status expense = [] then ''completed'' else status expense),
      ins_transaction_type =
        (if transactionType expense = [] then ''expense'' else transactionType expense),
      ins_is_split = isSplit expense,
      ins_split_total = truthy_number (splitTotal expense),
      ins_split_people = truthy_number (splitPeople expense),
      ins_split_method = truthy_string (splitMethod expense),
      ins_split_shares = splitShares expense\<rparr>"

definition addExpense ::
  "string \<Rightarrow> string option \<Rightarrow> string option \<Rightarrow> FoodExpense \<Rightarrow> ledger
     \<Rightarrow> FoodExpense \<times> ledger" where
  "addExpense tempId userId response expense st =
     (let newExpense = expense\<lparr>expense_id := tempId\<rparr>;
          st1 = st\<lparr>expenses := newExpense # expenses st\<rparr>
      in case userId of
           None \<Rightarrow> (newExpense, toast ''error'' ''Please log in to save orders'' st1)
         | Some uid \<Rightarrow>
             (let st2 = st1\<lparr>remote_inserts := remote_inserts st1 @ [insert_row uid expense]\<rparr>
              in case response of
                   None \<Rightarrow> (newExpense, toast ''error'' ''Failed to sync order to cloud'' st2)
                 | Some data_id \<Rightarrow>
                     (let st3 = st2\<lparr>expenses :=
                                  map (\<lambda>e. if expense_id e = tempId
                                            then e\<lparr>expense_id := data_id\<rparr> else e)
                                      (expenses st2)\<rparr>;
                          message =
                            (if transactionType expense = ''income'' then ''Income added!''
                             else if isSplit expense then ''Split expense saved!''
                             else ''Expense saved!'')
                      in (newExpense\<lparr>expense_id := data_id\<rparr>,
                          toast ''success'' message st3))))"

text \<open>
  The form of \<^verbatim>\<open>ExpenseTrackerSimple\<close> and its submit handler. \<^verbatim>\<open>parseFloat\<close> is a
  parameter and \<open>now\<close> is \<^verbatim>\<open>new Date()\<close>.
\<close>

record expense_form =
  form_foodName :: string
  form_amount :: string
  form_category :: string
  form_mealType :: string
  form_notes :: string

record tracker =
  newExpense :: expense_form
  showAddModal :: bool

text \<open>
  \<^verbatim>\<open>String.prototype.trim\<close> removes the white space and line terminators of
  ECMAScript at both ends: the ASCII characters tab, line feed, vertical tab, form
  feed, carriage return and space, and, in UTF-8, U+00A0 (\<open>C2 A0\<close>), U+1680
  (\<open>E1 9A 80\<close>), U+2000 to U+200A, U+2028, U+2029 and U+202F (\<open>E2 80\<close> and one byte),
  U+205F (\<open>E2 81 9F\<close>), U+3000 (\<open>E3 80 80\<close>) and U+FEFF (\<open>EF BB BF\<close>).
\<close>

definition ws1 :: "char \<Rightarrow> bool" where
  "ws1 a \<longleftrightarrow> a \<in> set [CHR 0x09, CHR 0x0A, CHR 0x0B, CHR 0x0C, CHR 0x0D, CHR 0x20]"

definition ws2 :: "char \<Rightarrow> char \<Rightarrow> bool" where
  "ws2 a b \<longleftrightarrow> a = CHR 0xC2 \<and> b = CHR 0xA0"

definition ws3 :: "char \<Rightarrow> char \<Rightarrow> char \<Rightarrow> bool" where
  "ws3 a b c \<longleftrightarrow>
     (a = CHR 0xE1 \<and> b = CHR 0x9A \<and> c = CHR 0x80)
     \<or> (a = CHR 0xE2 \<and> b = CHR 0x80
          \<and> (c \<in> set [CHR 0x80, CHR 0x81, CHR 0x82, CHR 0x83, CHR 0x84, CHR 0x85, CHR 0x86,
                         CHR 0x87, CHR 0x88, CHR 0x89, CHR 0x8A, CHR 0xA8, CHR 0xA9, CHR 0xAF]))
     \<or> (a = CHR 0xE2 \<and> b = CHR 0x81 \<and> c = CHR 0x9F)
     \<or> (a = CHR 0xE3 \<and> b = CHR 0x80 \<and> c = CHR 0x80)
     \<or> (a = CHR 0xEF \<and> b = CHR 0xBB \<and> c = CHR 0xBF)"

fun trimStart :: "string \<Rightarrow> string" where
  "trimStart (a # b # c # s) =
     (if ws1 a then trimStart (b # c # s)
      else if ws2 a b then trimStart (c # s)
      else if ws3 a b c then trimStart s
      else a # b # c # s)"
| "trimStart [a, b] = (if ws1 a then trimStart [b] else if ws2 a b then [] else [a, b])"
| "trimStart [a] = (if ws1 a then [] else [a])"
| "trimStart [] = []"

text \<open>
  The same from the end, on the reversed string: its first bytes are the last bytes of
  the string, in reverse order.
\<close>

fun trimEnd_rev :: "string \<Rightarrow> string" where
  "trimEnd_rev (c # b # a # s) =
     (if ws1 c then trimEnd_rev (b # a # s)
      else if ws2 b c then trimEnd_rev (a # s)
      else if ws3 a b c then trimEnd_rev s
      else c # b # a # s)"
| "trimEnd_rev [c, b] = (if ws1 c then trimEnd_rev [b] else if ws2 b c then [] else [c, b])"
| "trimEnd_rev [c] = (if ws1 c then [] else [c])"
| "trimEnd_rev [] = []"

definition trim :: "string \<Rightarrow> string" where
  "trim s = rev (trimEnd_rev (rev (trimStart s)))"

definition handleAddExpense ::
  "(string \<Rightarrow> number) \<Rightarrow> timestamp \<Rightarrow> string \<Rightarrow> string option \<Rightarrow> string option
     \<Rightarrow> tracker \<times> ledger \<Rightarrow> tracker \<times> ledger" where
  "handleAddExpense parseFloat now tempId userId response ui_st =
     (let (ui, st) = ui_st;
          parsed = parseFloat (form_amount (newExpense ui))
      in if isNaN parsed \<or> js_le parsed (Num 0)
         then (ui, toast ''error'' ''Please enter a valid amount'' st)
         else if trim (form_foodName (newExpense ui)) = []
         then (ui, toast ''error'' ''Please enter a description'' st)
         else
           let (added, st') = addExpense tempId userId response
                 \<lparr>expense_id = [],
                  foodId = None,
                  foodName = trim (form_foodName (newExpense ui)),
                  restaurant = None,
                  category = form_category (newExpense ui),
                  expense_amount = parsed,
                  date = now,
                  mealType = form_mealType (newExpense ui),
                  cuisine = None,
                  expense_notes = truthy_string (Some (trim (form_notes (newExpense ui)))),
                  expense_image = None,
                  status = ''completed'',
                  transactionType = ''expense'',
                  isSplit = False,
                  splitTotal = None, splitPeople = None, splitMethod = None,
                  splitShares = None, cancelledAt = None, cancelledReason = None\<rparr> st
           in (\<lparr>newExpense = \<lparr>form_foodName = [], form_amount = [],
                              form_category = ''delivery'', form_mealType = ''lunch'',
                              form_notes = []\<rparr>,
                showAddModal = False\<rparr>, st'))"

text \<open>
  The period queries. What the \<^verbatim>\<open>Date\<close> methods compute from the current instant in
  the local time zone is given: the day string of an instant, the start of the week
  (Sunday, midnight) and the start of the month. \<^verbatim>\<open>reduce((sum, e) => sum + e.amount, 0)\<close>
  adds the amounts from the left, in doubles.
\<close>

record js_dates =
  js_now :: timestamp
  toDateString :: "timestamp \<Rightarrow> string"
  weekStart :: timestamp
  monthStart :: timestamp

definition getTodayExpenses :: "js_dates \<Rightarrow> FoodExpense list \<Rightarrow> FoodExpense list" where
  "getTodayExpenses d es =
     (let today = toDateString d (js_now d)
      in filter (\<lambda>e. toDateString d (date e) = today) es)"

definition getTodayTotal :: "js_dates \<Rightarrow> FoodExpense list \<Rightarrow> number" where
  "getTodayTotal d es =
     foldl (\<lambda>sum e. js_add sum (expense_amount e)) (Num 0) (getTodayExpenses d es)"

definition getWeekExpenses :: "js_dates \<Rightarrow> FoodExpense list \<Rightarrow> FoodExpense list" where
  "getWeekExpenses d es = filter (\<lambda>e. date e \<ge> weekStart d) es"

definition getWeekTotal :: "js_dates \<Rightarrow> FoodExpense list \<Rightarrow> number" where
  "getWeekTotal d es =
     foldl (\<lambda>sum e. js_add sum (expense_amount e)) (Num 0) (getWeekExpenses d es)"

definition getMonthExpenses :: "js_dates \<Rightarrow> FoodExpense list \<Rightarrow> FoodExpense list" where
  "getMonthExpenses d es = filter (\<lambda>e. date e \<ge> monthStart d) es"

definition getMonthTotal :: "js_dates \<Rightarrow> FoodExpense list \<Rightarrow> number" where
  "getMonthTotal d es =
     foldl (\<lambda>sum e. js_add sum (expense_amount e)) (Num 0) (getMonthExpenses d es)"

text \<open>
  \<^verbatim>\<open>getRecentExpenses(limit = 5)\<close> sorts a copy by date, latest first, and keeps the
  first \<open>limit\<close> entries. \<^verbatim>\<open>Array.prototype.sort\<close> is stable, as \<open>sort_key\<close> is.
\<close>

definition getRecentExpenses :: "nat \<Rightarrow> FoodExpense list \<Rightarrow> FoodExpense list" where
  "getRecentExpenses limit es = take limit (sort_key (\<lambda>e. - date e) es)"

text \<open>
  A reading of three amount strings, for the examples; every other string is not a number.
\<close>

definition parse_sample :: "string \<Rightarrow> number" where
  "parse_sample s =
     (if s = ''120'' then Num 120 else if s = ''0'' then Num 0
      else if s = ''-5'' then Num (- 5) else NaN)"

text \<open>
  The hook before anything was loaded.
\<close>

definition empty_ledger :: ledger where
  "empty_ledger = \<lparr>expenses = [], remote_inserts = [], toasts = []\<rparr>"

text \<open>
  A form with the amount 0, one with a blank description, and one whose description
  is a no-break space (U+00A0).
\<close>

definition zero_form :: tracker where
  "zero_form = \<lparr>newExpense = \<lparr>form_foodName = ''Dosa'', form_amount = ''0'',
       form_category = ''delivery'', form_mealType = ''lunch'', form_notes = []\<rparr>,
     showAddModal = True\<rparr>"

definition blank_form :: tracker where
  "blank_form = \<lparr>newExpense = \<lparr>form_foodName = ''  '', form_amount = ''120'',
       form_category = ''delivery'', form_mealType = ''lunch'', form_notes = []\<rparr>,
     showAddModal = True\<rparr>"

definition nbsp_form :: tracker where
  "nbsp_form = \<lparr>newExpense = \<lparr>form_foodName = [CHR 0xC2, CHR 0xA0], form_amount = ''120'',
       form_category = ''delivery'', form_mealType = ''lunch'', form_notes = []\<rparr>,
     showAddModal = True\<rparr>"

text \<open>
  An expense already stored, and one about to be added.
\<close>

definition idli :: FoodExpense where
  "idli = \<lparr>expense_id = ''e1'', foodId = None, foodName = ''Idli'', restaurant = None,
     category = ''dine-in'', expense_amount = Num 60, date = 500, mealType = ''breakfast'',
     cuisine = None, expense_notes = None, expense_image = None, status = ''completed'',
     transactionType = ''expense'', isSplit = False, splitTotal = None, splitPeople = None,
     splitMethod = None, splitShares = None, cancelledAt = None, cancelledReason = None\<rparr>"

definition masala :: FoodExpense where
  "masala = idli\<lparr>expense_id := [], foodName := ''Masala dosa'', expense_amount := Num 120,
     date := 1000, mealType := ''lunch''\<rparr>"

text \<open>
  The calendar of the browser in the examples.
\<close>

definition sample_js_dates :: js_dates where
  "sample_js_dates =
     \<lparr>js_now = 95,
      toDateString = (\<lambda>t. if 90 \<le> t then ''Fri Feb 06 2026'' else ''Thu Feb 05 2026''),
      weekStart = 40, monthStart = 10\<rparr>"

text \<open>
  A completed expense of 120.00, a pending one of 80.00 and a completed income of
  500.00, all in the current month.
\<close>

definition mixed_rows :: "food_orders_row list" where
  "mixed_rows =
     [dosa,
      dosa\<lparr>fo_id := ''e5'', fo_amount := dec 8000 2, fo_status := Some ''pending''\<rparr>,
      dosa\<lparr>fo_id := ''e6'', fo_amount := dec 50000 2, fo_transaction_type := Some ''income''\<rparr>]"

subsection \<open>The order hook \<^verbatim>\<open>useOrderTracking\<close>\<close>

text \<open>
  \<^verbatim>\<open>Order\<close>, \<^verbatim>\<open>OrderStatusHistory\<close> and \<^verbatim>\<open>OrderTrackingState\<close> of the order-tracking
  types, with the fields the tracking state is derived from. A status is the string it
  is at run time. Field names already in use carry a prefix.
\<close>

record Order =
  order_id :: string
  orderNumber :: string
  order_userId :: "string option"
  order_status :: string
  estimatedDeliveryTime :: "timestamp option"
  deliveryPersonLocation :: "Location option"
  rating :: "int option"
  review :: "string option"
  placedAt :: timestamp
  confirmedAt :: "timestamp option"
  preparingAt :: "timestamp option"
  readyAt :: "timestamp option"
  pickedUpAt :: "timestamp option"
  onTheWayAt :: "timestamp option"
  deliveredAt :: "timestamp option"
  order_cancelledAt :: "timestamp option"
  cancellationReason :: "string option"
  cancelledBy :: "string option"
  updatedAt :: timestamp

record OrderStatusHistory =
  history_id :: string
  orderId :: string
  history_status :: string
  history_message :: "string option"
  history_location :: "Location option"
  history_createdAt :: timestamp

record OrderTrackingState =
  currentStatus :: string
  statusHistory :: "OrderStatusHistory list"
  estimatedTime :: "int option"
  isDelivered :: bool
  isCancelled :: bool
  canCancel :: bool
  canRate :: bool
  state_deliveryPersonLocation :: "Location option"
  progressPercentage :: rat

text \<open>\<^verbatim>\<open>Array.prototype.indexOf\<close>: the first position of the element, or \<open>-1\<close>.\<close>

primrec indexOf_from :: "int \<Rightarrow> 'a list \<Rightarrow> 'a \<Rightarrow> int" where
  "indexOf_from i [] x = - 1"
| "indexOf_from i (y # ys) x = (if y = x then i else indexOf_from (i + 1) ys x)"

definition indexOf :: "'a list \<Rightarrow> 'a \<Rightarrow> int" where
  "indexOf xs x = indexOf_from 0 xs x"

definition statusOrder :: "string list" where
  "statusOrder =
     [''placed'', ''confirmed'', ''preparing'', ''ready'', ''picked_up'', ''on_the_way'',
      ''nearby'', ''delivered'']"

text \<open>
  \<^verbatim>\<open>getOrderTrackingState(order)\<close>, with the \<^verbatim>\<open>orderHistory\<close> of the hook and
  \<^verbatim>\<open>Date.now()\<close> as arguments. \<^verbatim>\<open>!order.rating\<close> holds for a missing rating and for
  the number zero; a \<^verbatim>\<open>Date\<close> object is always truthy.
\<close>

definition getOrderTrackingState ::
  "OrderStatusHistory list \<Rightarrow> timestamp \<Rightarrow> Order \<Rightarrow> OrderTrackingState" where
  "getOrderTrackingState orderHistory now order =
     (let currentIndex = indexOf statusOrder (order_status order)
      in \<lparr>currentStatus = order_status order,
          statusHistory = orderHistory,
          estimatedTime =
            (case estimatedDeliveryTime order of
               None \<Rightarrow> None
             | Some t \<Rightarrow>
                 if order_status order \<noteq> ''delivered''
                 then (let remaining = t - now
                       in Some (max 0 \<lceil>(of_int remaining :: rat) / 60000\<rceil>))
                 else None),
          isDelivered = (order_status order = ''delivered''),
          isCancelled = (order_status order = ''cancelled''),
          canCancel = (order_status order \<in> set [''placed'', ''confirmed'']),
          canRate = (order_status order = ''delivered''
                     \<and> (case rating order of None \<Rightarrow> True | Some n \<Rightarrow> n = 0)),
          state_deliveryPersonLocation = deliveryPersonLocation order,
          progressPercentage =
            (of_int (currentIndex + 1) / of_nat (length statusOrder)) * 100\<rparr>)"

text \<open>An order on its way, expected at time 600000, and the same order delivered.\<close>

definition order_on_the_way :: Order where
  "order_on_the_way =
     \<lparr>order_id = ''o1'', orderNumber = ''202602060001'', order_userId = None,
      order_status = ''on_the_way'', estimatedDeliveryTime = Some 600000,
      deliveryPersonLocation = None, rating = None, review = None, placedAt = 10,
      confirmedAt = Some 20, preparingAt = Some 30, readyAt = Some 40,
      pickedUpAt = Some 50, onTheWayAt = Some 60, deliveredAt = None,
      order_cancelledAt = None, cancellationReason = None, cancelledBy = None,
      updatedAt = 60\<rparr>"

definition order_delivered :: Order where
  "order_delivered =
     order_on_the_way\<lparr>order_status := ''delivered'', deliveredAt := Some 500000\<rparr>"

section \<open>Properties\<close>

subsection \<open>Logarithms\<close>

lemma of_nat_power_le_rat: "b ^ j \<le> n \<Longrightarrow> (of_nat b :: rat) ^ j \<le> of_nat n"
proof -
  assume "b ^ j \<le> n"
  then have "(of_nat (b ^ j) :: rat) \<le> of_nat n" by (simp only: of_nat_le_iff)
  then show ?thesis by (simp only: of_nat_power)
qed

lemma of_nat_less_power_rat: "n < b ^ j \<Longrightarrow> (of_nat n :: rat) + 1 \<le> of_nat b ^ j"
proof -
  assume "n < b ^ j"
  then have "Suc n \<le> b ^ j" by simp
  then have "(of_nat (Suc n) :: rat) \<le> of_nat (b ^ j)" by (simp only: of_nat_le_iff)
  then show ?thesis by (simp only: of_nat_power of_nat_Suc)
qed

lemma floor_log_bounds:
  assumes b: "1 < b" and x: "0 < x"
  shows "of_nat b powi floor_log b x \<le> x" and "x < of_nat b powi (floor_log b x + 1)"
proof -
  have bpos: "(0::rat) < of_nat b" using b by simp
  show "of_nat b powi floor_log b x \<le> x" "x < of_nat b powi (floor_log b x + 1)"
  proof (atomize (full), cases "1 \<le> x")
    case True
    define n where "n = nat \<lfloor>x\<rfloor>"
    have n: "0 < n" using True by (simp add: n_def)
    define k where "k = floorlog b n"
    have k1: "b ^ (k - 1) \<le> n" and k2: "n < b ^ k"
      using floorlog_bounds [OF n b] by (simp_all add: k_def)
    have kpos: "0 < k" using k2 n by (cases k) auto
    have fl: "floor_log b x = int (k - 1)"
      using True kpos by (simp add: floor_log_def n_def k_def)
    have nx: "of_nat n \<le> x" using True by (simp add: n_def)
    have xn: "x < of_nat n + 1" using True by (simp add: n_def) linarith
    have "(of_nat b :: rat) ^ (k - 1) \<le> of_nat n"
      using k1 by (rule of_nat_power_le_rat)
    then have lo: "(of_nat b :: rat) ^ (k - 1) \<le> x" using nx by (rule order_trans)
    have "(of_nat n :: rat) + 1 \<le> of_nat b ^ k"
      using k2 by (rule of_nat_less_power_rat)
    then have hi: "x < (of_nat b :: rat) ^ k" using xn by (rule less_le_trans [rotated])
    have i: "int (k - 1) + 1 = int k" using kpos by simp
    show "of_nat b powi floor_log b x \<le> x \<and> x < of_nat b powi (floor_log b x + 1)"
      unfolding fl i power_int_of_nat using lo hi by blast
  next
    case False
    define y where "y = 1 / x"
    have y: "1 < y" using False x by (simp add: y_def)
    define m where "m = nat (\<lceil>y\<rceil> - 1)"
    have cy: "2 \<le> \<lceil>y\<rceil>" using y by linarith
    have m: "0 < m" using cy by (simp add: m_def)
    define k where "k = floorlog b m"
    have k1: "b ^ (k - 1) \<le> m" and k2: "m < b ^ k"
      using floorlog_bounds [OF m b] by (simp_all add: k_def)
    have kpos: "0 < k" using k2 m by (cases k) auto
    have fl: "floor_log b x = - int k"
      using False by (simp add: floor_log_def m_def k_def y_def)
    have my: "of_nat m < y"
    proof -
      have "of_int (\<lceil>y\<rceil> - 1) < y" by linarith
      moreover have "(of_nat m :: rat) = of_int (\<lceil>y\<rceil> - 1)" using cy by (simp add: m_def)
      ultimately show ?thesis by simp
    qed
    have ym: "y \<le> of_nat m + 1"
    proof -
      have "y \<le> of_int \<lceil>y\<rceil>" by simp
      moreover have "(of_nat m :: rat) + 1 = of_int \<lceil>y\<rceil>" using cy by (simp add: m_def)
      ultimately show ?thesis by simp
    qed
    have "(of_nat b :: rat) ^ (k - 1) \<le> of_nat m"
      using k1 by (rule of_nat_power_le_rat)
    then have a: "(of_nat b :: rat) ^ (k - 1) < y" using my by (rule le_less_trans)
    have "(of_nat m :: rat) + 1 \<le> of_nat b ^ k"
      using k2 by (rule of_nat_less_power_rat)
    then have c: "y \<le> (of_nat b :: rat) ^ k" using ym by (rule order_trans [rotated])
    have bk: "(0::rat) < of_nat b ^ k" and bk1: "(0::rat) < of_nat b ^ (k - 1)"
      using bpos by simp_all
    have lo: "1 / (of_nat b :: rat) ^ k \<le> x"
    proof -
      have "1 / (of_nat b :: rat) ^ k \<le> 1 / y"
        using c y by (intro frac_le) simp_all
      then show ?thesis using x by (simp add: y_def)
    qed
    have hi: "x < 1 / (of_nat b :: rat) ^ (k - 1)"
    proof -
      have "1 / y < 1 / (of_nat b :: rat) ^ (k - 1)"
        using a bk1 by (intro frac_less2) simp_all
      then show ?thesis using x by (simp add: y_def)
    qed
    have e1: "(of_nat b :: rat) powi (- int k) = 1 / of_nat b ^ k"
      unfolding power_int_minus_divide by simp
    have i: "- int k + 1 = - int (k - 1)" using kpos by simp
    have e2: "(of_nat b :: rat) powi (- int k + 1) = 1 / of_nat b ^ (k - 1)"
      unfolding i power_int_minus_divide by (simp del: of_nat_diff)
    show "of_nat b powi floor_log b x \<le> x \<and> x < of_nat b powi (floor_log b x + 1)"
      unfolding fl e1 e2 using lo hi by blast
  qed
qed

lemma floor_log_eqI:
  assumes b: "1 < b" and lo: "of_nat b powi k \<le> x" and hi: "x < of_nat b powi (k + 1)"
  shows "floor_log b x = k"
proof -
  have b1: "(1::rat) < of_nat b" using b by simp
  have "(0::rat) < of_nat b powi k" using b by (intro zero_less_power_int) simp
  then have x: "0 < x" using lo by linarith
  note fl = floor_log_bounds [OF b x]
  have 1: "\<not> floor_log b x < k"
  proof
    assume "floor_log b x < k"
    then have "floor_log b x + 1 \<le> k" by simp
    then have "(of_nat b :: rat) powi (floor_log b x + 1) \<le> of_nat b powi k"
      using b1 by (intro power_int_increasing) simp_all
    then show False using fl(2) lo by linarith
  qed
  have 2: "\<not> k < floor_log b x"
  proof
    assume "k < floor_log b x"
    then have "k + 1 \<le> floor_log b x" by simp
    then have "(of_nat b :: rat) powi (k + 1) \<le> of_nat b powi floor_log b x"
      using b1 by (intro power_int_increasing) simp_all
    then show False using fl(1) hi by linarith
  qed
  show ?thesis using 1 2 by linarith
qed

subsection \<open>Rounding to a scale\<close>

lemma round_scale_nonneg: "0 \<le> x \<Longrightarrow> round_scale r x = of_int \<lfloor>x * 10 ^ r + 1 / 2\<rfloor> / 10 ^ r"
  by (simp add: round_scale_def)

lemma round_scale_grid:
  assumes "g * 10 ^ r = of_int G"
  shows "round_scale r g = g"
proof -
  have p: "(0::rat) < 10 ^ r" by simp
  have g: "g = of_int G / 10 ^ r" using assms p by (simp add: field_simps)
  have f: "\<lfloor>(of_int G :: rat) + 1 / 2\<rfloor> = G" by (simp add: floor_eq_iff)
  have f': "\<lfloor>(of_int (- G) :: rat) + 1 / 2\<rfloor> = - G" by (simp only: floor_eq_iff) simp
  show ?thesis
  proof (cases "0 \<le> g")
    case True
    then show ?thesis unfolding round_scale_def assms using f g by simp
  next
    case False
    have "- g * 10 ^ r = of_int (- G)" using assms by simp
    then show ?thesis unfolding round_scale_def using False f' g by simp
  qed
qed

lemma round_scale_ge_grid:
  assumes x: "0 \<le> x" and g: "g * 10 ^ r = of_int G" and le: "g \<le> x"
  shows "g \<le> round_scale r x"
proof -
  have p: "(0::rat) < 10 ^ r" by simp
  have "of_int G \<le> x * 10 ^ r" using le p g [symmetric] by simp
  then have "(of_int G :: rat) \<le> x * 10 ^ r + 1 / 2" by simp
  then have "G \<le> \<lfloor>x * 10 ^ r + 1 / 2\<rfloor>" by (simp add: le_floor_iff)
  then have "(of_int G :: rat) / 10 ^ r \<le> of_int \<lfloor>x * 10 ^ r + 1 / 2\<rfloor> / 10 ^ r"
    using p by (simp add: divide_right_mono)
  moreover have "g = of_int G / 10 ^ r" using g p by (simp add: field_simps)
  ultimately show ?thesis using x by (simp add: round_scale_nonneg)
qed

lemma round_scale_less_grid:
  assumes x: "0 \<le> x" and g: "g * 10 ^ r = of_int G" and less: "x < g"
      and gap: "1 / (2 * 10 ^ r) < g - x"
  shows "round_scale r x < g"
proof -
  have p: "(0::rat) < 10 ^ r" by simp
  have "1 / 2 < (g - x) * 10 ^ r"
    using gap p by (simp add: field_simps)
  then have "x * 10 ^ r + 1 / 2 < of_int G"
    using g [symmetric] by (simp add: algebra_simps)
  then have "\<lfloor>x * 10 ^ r + 1 / 2\<rfloor> < G" by (simp add: floor_less_iff)
  then have "(of_int \<lfloor>x * 10 ^ r + 1 / 2\<rfloor> :: rat) < of_int G" by simp
  then have "(of_int \<lfloor>x * 10 ^ r + 1 / 2\<rfloor> :: rat) / 10 ^ r < of_int G / 10 ^ r"
    using p by (simp add: divide_strict_right_mono)
  moreover have "g = of_int G / 10 ^ r" using g p by (simp add: field_simps)
  ultimately show ?thesis using x by (simp add: round_scale_nonneg)
qed

lemma round_scale_mono:
  assumes "x \<le> y"
  shows "round_scale r x \<le> round_scale r y"
proof -
  have p: "(0::rat) < 10 ^ r" by simp
  have nn: "0 \<le> round_scale r v" if "0 \<le> v" for v
    using that by (simp add: round_scale_def)
  have ng: "round_scale r v \<le> 0" if "v < 0" for v
  proof -
    have "v * 10 ^ r \<le> 0" using that by (simp add: mult_le_0_iff less_imp_le)
    then have "0 \<le> - v * 10 ^ r + 1 / 2" by simp
    then have "0 \<le> \<lfloor>- v * 10 ^ r + 1 / 2\<rfloor>" by (simp only: zero_le_floor)
    then have "(0::rat) \<le> of_int \<lfloor>- v * 10 ^ r + 1 / 2\<rfloor> / 10 ^ r" by simp
    then show ?thesis using that by (simp add: round_scale_def)
  qed
  consider "0 \<le> x" | "x < 0" "0 \<le> y" | "y < 0" using assms by linarith
  then show ?thesis
  proof cases
    case 1
    then have "0 \<le> y" using assms by simp
    moreover have "\<lfloor>x * 10 ^ r + 1 / 2\<rfloor> \<le> \<lfloor>y * 10 ^ r + 1 / 2\<rfloor>"
      using assms by (intro floor_mono) simp
    ultimately show ?thesis using 1
      by (simp add: round_scale_def divide_right_mono)
  next
    case 2
    then show ?thesis using nn [of y] ng [of x] by linarith
  next
    case 3
    then have x: "x < 0" using assms by simp
    have "\<lfloor>- y * 10 ^ r + 1 / 2\<rfloor> \<le> \<lfloor>- x * 10 ^ r + 1 / 2\<rfloor>"
      using assms by (intro floor_mono) simp
    then show ?thesis using 3 x
      by (simp add: round_scale_def divide_right_mono)
  qed
qed

subsection \<open>The scale of a quotient\<close>

lemma floor_log_10000_bounds:
  assumes "0 < x"
  shows "10000 powi floor_log 10000 x \<le> x" and "x < 10000 powi (floor_log 10000 x + 1)"
  using floor_log_bounds [of 10000 x] assms by simp_all

lemma num_weight_bounds:
  assumes "0 < x"
  shows "10000 powi num_weight x \<le> x" and "x < 10000 powi (num_weight x + 1)"
  using floor_log_10000_bounds [OF assms] assms by (simp_all add: num_weight_def)

lemma first_digit_bounds:
  assumes "0 < x"
  shows "of_int (first_digit x) * 10000 powi num_weight x \<le> x"
    and "x < (of_int (first_digit x) + 1) * 10000 powi num_weight x"
proof -
  have p: "(0::rat) < 10000 powi num_weight x" by (simp add: zero_less_power_int)
  have f: "first_digit x = \<lfloor>x / 10000 powi num_weight x\<rfloor>"
    using assms by (simp add: first_digit_def)
  have "of_int (first_digit x) \<le> x / 10000 powi num_weight x" unfolding f by simp
  then show "of_int (first_digit x) * 10000 powi num_weight x \<le> x"
    using p by (simp add: pos_le_divide_eq)
  have "x / 10000 powi num_weight x < of_int (first_digit x) + 1" unfolding f by linarith
  then show "x < (of_int (first_digit x) + 1) * 10000 powi num_weight x"
    using p by (simp add: pos_divide_less_eq)
qed

lemma qweight_le_quotient:
  assumes a: "0 < a" and b: "0 < b"
  shows "10000 powi (if first_digit a \<le> first_digit b
                      then num_weight a - num_weight b - 1
                      else num_weight a - num_weight b) \<le> a / b"
proof (cases "first_digit a \<le> first_digit b")
  case True
  have pa: "(0::rat) < 10000 powi num_weight a" by (simp add: zero_less_power_int)
  have "(10000::rat) powi (num_weight a - (num_weight b + 1))
      = 10000 powi num_weight a / 10000 powi (num_weight b + 1)"
    by (rule power_int_diff) simp
  also have "\<dots> \<le> a / b"
  proof (rule frac_le)
    show "0 \<le> a" using a by (rule less_imp_le)
    show "10000 powi num_weight a \<le> a" by (rule num_weight_bounds(1) [OF a])
    show "0 < b" by (rule b)
    show "b \<le> 10000 powi (num_weight b + 1)"
      using num_weight_bounds(2) [OF b] by (rule less_imp_le)
  qed
  finally show ?thesis using True by (simp add: algebra_simps)
next
  case False
  then have fd: "first_digit b + 1 \<le> first_digit a" by simp
  let ?c = "(of_int (first_digit b) + 1 :: rat)"
  have pa: "(0::rat) < 10000 powi num_weight a" and pb: "(0::rat) < 10000 powi num_weight b"
    by (simp_all add: zero_less_power_int)
  have fb0: "0 \<le> first_digit b" using b by (simp add: first_digit_def)
  have c: "0 < ?c" using fb0 by linarith
  have "?c \<le> of_int (first_digit a)" using fd by (metis of_int_1 of_int_add of_int_le_iff)
  then have "?c * 10000 powi num_weight a \<le> of_int (first_digit a) * 10000 powi num_weight a"
    using pa by (intro mult_right_mono) (simp_all add: less_imp_le)
  then have lo: "?c * 10000 powi num_weight a \<le> a"
    using first_digit_bounds(1) [OF a] by (rule order_trans)
  have hi: "b \<le> ?c * 10000 powi num_weight b"
    using first_digit_bounds(2) [OF b] by simp
  have "(10000::rat) powi (num_weight a - num_weight b)
      = 10000 powi num_weight a / 10000 powi num_weight b"
    by (rule power_int_diff) simp
  also have "\<dots> = (?c * 10000 powi num_weight a) / (?c * 10000 powi num_weight b)"
    using c by simp
  also have "\<dots> \<le> a / b"
  proof (rule frac_le)
    show "0 \<le> a" using a by (rule less_imp_le)
    show "?c * 10000 powi num_weight a \<le> a" by (rule lo)
    show "0 < b" by (rule b)
    show "b \<le> ?c * 10000 powi num_weight b" by (rule hi)
  qed
  finally show ?thesis using False by simp
qed

lemma num_weight_eqI:
  assumes "10000 powi k \<le> \<bar>x\<bar>" and "\<bar>x\<bar> < 10000 powi (k + 1)"
  shows "num_weight x = k"
proof -
  have "(0::rat) < 10000 powi k" by (intro zero_less_power_int) simp
  then have "0 < \<bar>x\<bar>" using assms(1) by linarith
  then have "x \<noteq> 0" by simp
  moreover have "floor_log 10000 \<bar>x\<bar> = k"
    by (rule floor_log_eqI) (use assms in simp_all)
  ultimately show ?thesis by (simp add: num_weight_def)
qed

lemma first_digit_eqI:
  assumes "num_weight x = k" and "x \<noteq> 0"
      and "of_int d \<le> \<bar>x\<bar> / 10000 powi k" and "\<bar>x\<bar> / 10000 powi k < of_int d + 1"
  shows "first_digit x = d"
  using assms by (simp add: first_digit_def floor_eq_iff)

lemma select_div_scale_precision:
  assumes a: "0 < val a" and b: "0 < val b"
  shows "select_div_scale a b = 1000
       \<or> 10 ^ 16 \<le> val a / val b * 10 ^ select_div_scale a b"
proof -
  define qw where "qw = (if first_digit (val a) \<le> first_digit (val b)
                         then num_weight (val a) - num_weight (val b) - 1
                         else num_weight (val a) - num_weight (val b))"
  define R where "R = max (max (max (16 - qw * 4) (int (dscale a))) (int (dscale b))) 0"
  have sds: "select_div_scale a b = nat (min R 1000)"
    unfolding select_div_scale_def Let_def qw_def R_def by simp
  have q: "10000 powi qw \<le> val a / val b"
    unfolding qw_def by (rule qweight_le_quotient [OF a b])
  show ?thesis
  proof (cases "1000 \<le> R")
    case True
    then have "nat (min R 1000) = 1000" by simp
    then have "select_div_scale a b = 1000" unfolding sds .
    then show ?thesis by (rule disjI1)
  next
    case False
    then have "nat (min R 1000) = nat R" by simp
    then have s: "select_div_scale a b = nat R" unfolding sds .
    have R0: "0 \<le> R" unfolding R_def by simp
    have Rq: "16 - qw * 4 \<le> R" unfolding R_def by simp
    have p: "(0::rat) < 10000 powi qw" by (intro zero_less_power_int) simp
    have "(10::rat) powi (qw * 4) = (10 powi 4) powi qw"
      by (simp only: mult.commute [of qw 4] power_int_mult)
    then have e: "(10::rat) powi (qw * 4) = 10000 powi qw" by simp
    have "(10::rat) powi (16 - qw * 4) = 10 powi 16 / 10 powi (qw * 4)"
      by (rule power_int_diff) simp
    then have d: "(10::rat) powi (16 - qw * 4) = 10 ^ 16 / 10000 powi qw"
      unfolding e by simp
    have "(10::rat) powi (16 - qw * 4) \<le> 10 powi R"
      using Rq by (intro power_int_increasing) simp_all
    also have "\<dots> = 10 ^ nat R" using R0 by (simp add: power_int_def)
    finally have le: "(10::rat) ^ 16 / 10000 powi qw \<le> 10 ^ nat R" unfolding d .
    have "(10::rat) ^ 16 = 10000 powi qw * (10 ^ 16 / 10000 powi qw)" using p by simp
    also have "\<dots> \<le> (val a / val b) * 10 ^ nat R"
    proof (rule mult_mono)
      show "10000 powi qw \<le> val a / val b" by (rule q)
      show "(10::rat) ^ 16 / 10000 powi qw \<le> 10 ^ nat R" by (rule le)
      show "0 \<le> val a / val b" using a b by simp
      show "(0::rat) \<le> 10 ^ 16 / 10000 powi qw" using p by simp
    qed
    finally have "(10::rat) ^ 16 \<le> val a / val b * 10 ^ select_div_scale a b"
      unfolding s .
    then show ?thesis by (rule disjI2)
  qed
qed

lemma num_quot_val:
  "val (num_quot a b) = round_scale (select_div_scale a b) (val a / val b)"
  by (simp add: num_quot_def Let_def)

lemma grid_multiple:
  assumes "j \<le> r"
  shows "of_int G / 10 ^ j * (10::rat) ^ r = of_int (G * 10 ^ (r - j))"
proof -
  have "(10::rat) ^ r = 10 ^ (r - j) * 10 ^ j"
    using assms by (simp flip: power_add)
  then show ?thesis by simp
qed

lemma power10_exp_less:
  assumes "(10::rat) ^ j < 10 ^ r"
  shows "j < r"
  using assms by (simp add: power_strict_increasing_iff)

subsection \<open>Quotients of amounts in whole cents\<close>

lemma whole_cents_int:
  assumes "whole_cents v"
  shows "\<exists>k::int. v * 100 = of_int k"
proof -
  have "v * 100 = of_int \<lfloor>v * 100\<rfloor>"
    using assms unfolding whole_cents_def by (rule sym)
  then show ?thesis by (rule exI)
qed

lemma scale_beats:
  assumes x: "0 < x" and prec: "r = 1000 \<or> (10::rat) ^ 16 \<le> x * 10 ^ r"
      and c: "x * c < 10 ^ 16" and c0: "0 < c" and cb: "c \<le> 10 ^ 16"
  shows "c < 10 ^ r"
  using prec
proof
  assume "r = 1000"
  then have "16 < r" by simp
  then have "(10::rat) ^ 16 < 10 ^ r" by (intro power_strict_increasing) simp_all
  then show ?thesis using cb by linarith
next
  assume p: "(10::rat) ^ 16 \<le> x * 10 ^ r"
  have "x * c < x * 10 ^ r" using c p by linarith
  then show ?thesis using x by (simp add: mult_less_cancel_left_pos)
qed



lemma quot_percent:
  assumes S: "val s * 100 = of_int S" and B: "val b * 100 = of_int Bc"
      and s0: "0 \<le> val s" and s1: "val s < 10 ^ 10"
      and b0: "0 < val b" and b1: "val b < 10 ^ 10"
  shows "round_scale 2 (val (num_quot s b) * 100) = round_scale 2 (val s / val b * 100)"
    and "val t * 100 = of_int Tc \<Longrightarrow>
         (val t \<le> val (num_quot s b) * 100) = (val t \<le> val s / val b * 100)"
proof -
  define r where "r = select_div_scale s b"
  define x where "x = val s / val b"
  have q: "val (num_quot s b) = round_scale r x" unfolding num_quot_val r_def x_def ..
  have x0: "0 \<le> x" unfolding x_def using s0 b0 by simp
  have q0: "0 \<le> round_scale r x" using x0 by (simp add: round_scale_nonneg)
  have Sv: "val s = of_int S / 100" using S by simp
  have Bv: "val b = of_int Bc / 100" using B by simp
  have Bp: "(0::rat) < of_int Bc" using b0 unfolding Bv by simp
  then have "0 < Bc" by simp
  then have "1 \<le> Bc" by simp
  then have B1: "(1::rat) \<le> of_int Bc" by (simp only: of_int_1_le_iff)
  have Bb: "(of_int Bc :: rat) < 10 ^ 12" using b1 unfolding Bv by simp
  have Sb: "(of_int S :: rat) < 10 ^ 12" using s1 unfolding Sv by simp
  have xs: "x = of_int S / of_int Bc" unfolding x_def Sv Bv by simp
  have main: "round_scale 2 (round_scale r x * 100) = round_scale 2 (x * 100)
      \<and> (\<forall>Tc. val t * 100 = of_int Tc \<longrightarrow>
            (val t \<le> round_scale r x * 100) = (val t \<le> x * 100))"
  proof (cases "x = 0")
    case True
    have "round_scale r (0::rat) = 0" by (rule round_scale_grid [of 0 r 0]) simp
    then show ?thesis using True by simp
  next
    case False
    then have xp: "0 < x" using x0 by simp
    then have sp: "0 < val s" unfolding x_def using b0 by (simp add: zero_less_divide_iff)
    have prec: "r = 1000 \<or> (10::rat) ^ 16 \<le> x * 10 ^ r"
      using select_div_scale_precision [OF sp b0] unfolding r_def x_def .
    have "x * (10 ^ 4 * of_int Bc) = 10 ^ 4 * of_int S"
      unfolding xs using Bp by simp
    then have c: "x * (10 ^ 4 * of_int Bc) < 10 ^ 16" using Sb by simp
    have big: "10 ^ 4 * of_int Bc < (10::rat) ^ r"
      using xp prec c by (rule scale_beats) (use Bp Bb in simp_all)
    have "(10::rat) ^ 4 \<le> 10 ^ 4 * of_int Bc" using B1 by simp
    then have "(10::rat) ^ 4 < 10 ^ r" using big by linarith
    then have "4 < r" by (rule power10_exp_less)
    then have r5: "5 \<le> r" and r4: "4 \<le> r" by simp_all
    have small: "1 / (2 * (10::rat) ^ r) < 1 / (2 * (10 ^ 4 * of_int Bc))"
      using big Bp by (intro divide_strict_left_mono) simp_all
    have thr: "(val t \<le> round_scale r x * 100) = (val t \<le> x * 100)"
      if T: "val t * 100 = of_int Tc" for Tc
    proof -
      define g where "g = (of_int Tc :: rat) / 10 ^ 4"
      have tg: "val t = g * 100" unfolding g_def using T [symmetric] by simp
      have gg: "g * 10 ^ r = of_int (Tc * 10 ^ (r - 4))"
        unfolding g_def by (rule grid_multiple [OF r4])
      have "(g \<le> round_scale r x) = (g \<le> x)"
      proof (cases "g \<le> x")
        case True
        then show ?thesis using round_scale_ge_grid [OF x0 gg] by simp
      next
        case False
        then have lt: "x < g" by simp
        then have "of_int S * 10 ^ 4 < (of_int Tc :: rat) * of_int Bc"
          unfolding xs g_def using Bp by (simp add: field_simps)
        then have "(of_int (S * 10 ^ 4) :: rat) < of_int (Tc * Bc)" by simp
        then have "S * 10 ^ 4 < Tc * Bc" by (simp only: of_int_less_iff)
        then have "1 \<le> Tc * Bc - S * 10 ^ 4" by simp
        then have one: "(1::rat) \<le> of_int (Tc * Bc - S * 10 ^ 4)"
          by (simp only: of_int_1_le_iff)
        have "g - x = of_int (Tc * Bc - S * 10 ^ 4) / (10 ^ 4 * of_int Bc)"
          unfolding xs g_def using Bp by (simp add: field_simps)
        also have "\<dots> \<ge> 1 / (10 ^ 4 * of_int Bc)"
          using one Bp by (intro divide_right_mono) simp_all
        finally have "1 / (10 ^ 4 * of_int Bc) \<le> g - x" .
        moreover have "1 / (2 * (10 ^ 4 * of_int Bc)) \<le> 1 / (10 ^ 4 * of_int Bc :: rat)"
          using Bp by (intro divide_left_mono) simp_all
        ultimately have "1 / (2 * (10::rat) ^ r) < g - x" using small by linarith
        then have "round_scale r x < g"
          using round_scale_less_grid [OF x0 gg lt] by simp
        then show ?thesis using False by simp
      qed
      then show ?thesis unfolding tg by simp
    qed
    define m where "m = \<lfloor>x * 100 * 10 ^ 2 + 1 / 2\<rfloor>"
    define g1 where "g1 = (of_int ((2 * m - 1) * 5) :: rat) / 10 ^ 5"
    define g2 where "g2 = (of_int ((2 * m + 1) * 5) :: rat) / 10 ^ 5"
    have m1: "of_int m \<le> x * 100 * 10 ^ 2 + 1 / 2" unfolding m_def by (rule of_int_floor_le)
    have m2: "x * 100 * 10 ^ 2 + 1 / 2 < of_int m + 1" unfolding m_def by linarith
    have lo: "g1 \<le> x" unfolding g1_def using m1 by (simp add: field_simps)
    have hi: "x < g2" unfolding g2_def using m2 by (simp add: field_simps)
    have gg1: "g1 * 10 ^ r = of_int ((2 * m - 1) * 5 * 10 ^ (r - 5))"
      unfolding g1_def by (rule grid_multiple [OF r5])
    have gg2: "g2 * 10 ^ r = of_int ((2 * m + 1) * 5 * 10 ^ (r - 5))"
      unfolding g2_def by (rule grid_multiple [OF r5])
    have "of_int S * (2 * 10 ^ 4) < (of_int (2 * m + 1) :: rat) * of_int Bc"
      using hi unfolding xs g2_def using Bp by (simp add: field_simps)
    then have "(of_int (S * (2 * 10 ^ 4)) :: rat) < of_int ((2 * m + 1) * Bc)" by simp
    then have "S * (2 * 10 ^ 4) < (2 * m + 1) * Bc" by (simp only: of_int_less_iff)
    then have "1 \<le> (2 * m + 1) * Bc - S * (2 * 10 ^ 4)" by simp
    then have one: "(1::rat) \<le> of_int ((2 * m + 1) * Bc - S * (2 * 10 ^ 4))"
      by (simp only: of_int_1_le_iff)
    have "g2 - x = of_int ((2 * m + 1) * Bc - S * (2 * 10 ^ 4)) / (2 * (10 ^ 4 * of_int Bc))"
      unfolding xs g2_def using Bp by (simp add: field_simps)
    also have "\<dots> \<ge> 1 / (2 * (10 ^ 4 * of_int Bc))"
      using one Bp by (intro divide_right_mono) simp_all
    finally have "1 / (2 * (10::rat) ^ r) < g2 - x" using small by linarith
    then have b2: "round_scale r x < g2" using round_scale_less_grid [OF x0 gg2 hi] by simp
    have b1: "g1 \<le> round_scale r x" using round_scale_ge_grid [OF x0 gg1 lo] .
    have "\<lfloor>round_scale r x * 100 * 10 ^ 2 + 1 / 2\<rfloor> = m"
      using b1 b2 unfolding g1_def g2_def by (simp add: floor_eq_iff field_simps)
    then have "round_scale 2 (round_scale r x * 100) = round_scale 2 (x * 100)"
      using q0 x0 unfolding m_def by (simp add: round_scale_nonneg)
    then show ?thesis using thr by blast
  qed
  show "round_scale 2 (val (num_quot s b) * 100) = round_scale 2 (val s / val b * 100)"
    using main unfolding q x_def by blast
  show "(val t \<le> val (num_quot s b) * 100) = (val t \<le> val s / val b * 100)"
    if "val t * 100 = of_int Tc"
    using main that unfolding q x_def by blast
qed

subsection \<open>Rounding to a double\<close>

lemma round_half_even_eqI:
  assumes "of_int m - 1 / 2 < q" and "q < of_int m + 1 / 2"
  shows "round_half_even q = m"
proof -
  define f where "f = \<lfloor>q\<rfloor>"
  have f1: "of_int f \<le> q" and f2: "q < of_int f + 1" unfolding f_def by linarith+
  have "of_int m - 1 < (of_int f :: rat) + 1 / 2" using assms(1) f2 by linarith
  moreover have "(of_int f :: rat) < of_int m + 1 / 2" using assms(2) f1 by linarith
  ultimately have "(of_int (2 * m - 3) :: rat) < of_int (2 * f)"
    and "(of_int (2 * f) :: rat) < of_int (2 * m + 1)" by simp_all
  then have "2 * m - 3 < 2 * f" and "2 * f < 2 * m + 1" by (simp_all only: of_int_less_iff)
  then consider "f = m" | "f = m - 1" by linarith
  then show ?thesis
  proof cases
    case 1
    then have "q - of_int f < 1 / 2" using assms(2) by simp
    then show ?thesis unfolding round_half_even_def Let_def f_def [symmetric] using 1 by simp
  next
    case 2
    then have "1 / 2 < q - of_int f" using assms(1) by simp
    then show ?thesis unfolding round_half_even_def Let_def f_def [symmetric] using 2 by simp
  qed
qed

lemma round_half_even_int: "round_half_even (of_int m) = m"
  by (rule round_half_even_eqI) simp_all

lemma round_half_even_tie:
  assumes "q = of_int f + 1 / 2"
  shows "round_half_even q = (if even f then f else f + 1)"
proof -
  have "\<lfloor>q\<rfloor> = f" unfolding assms by (simp add: floor_eq_iff)
  then show ?thesis unfolding round_half_even_def Let_def by (simp add: assms)
qed

lemma round_half_even_le: "round_half_even q \<le> \<lfloor>q\<rfloor> + 1"
  unfolding round_half_even_def Let_def by simp

lemma double_round_roundI:
  assumes lo: "2 powi e \<le> \<bar>x\<bar>" and hi: "\<bar>x\<bar> < 2 powi (e + 1)"
      and e1: "- 1022 \<le> e" and e2: "e \<le> 1022"
      and r: "round_half_even (\<bar>x\<bar> / 2 powi (e - 52)) = m"
      and y: "y = sgn x * (of_int m * 2 powi (e - 52))"
  shows "double_round x = Num y"
proof -
  have "(0::rat) < 2 powi e" by (intro zero_less_power_int) simp
  then have "0 < \<bar>x\<bar>" using lo by linarith
  then have x0: "x \<noteq> 0" by simp
  have fl: "floor_log 2 \<bar>x\<bar> = e"
    by (rule floor_log_eqI) (use lo hi in simp_all)
  have mx: "max (floor_log 2 \<bar>x\<bar>) (- 1022) = e" unfolding fl using e1 by simp
  have u: "(0::rat) < 2 powi (e - 52)" by (intro zero_less_power_int) simp
  have "(2::rat) powi (e - 52 + 53) = 2 powi (e - 52) * 2 powi 53"
    by (rule power_int_add) simp
  moreover have "e - 52 + 53 = e + 1" by simp
  ultimately have split: "(2::rat) powi (e + 1) = 2 powi 53 * 2 powi (e - 52)"
    by (simp only: mult.commute)
  have "\<bar>x\<bar> < 2 powi 53 * 2 powi (e - 52)" using hi unfolding split .
  then have "\<bar>x\<bar> / 2 powi (e - 52) < 2 powi 53"
    using u by (simp only: pos_divide_less_eq)
  then have "\<bar>x\<bar> / 2 powi (e - 52) < of_int (2 ^ 53)" by simp
  then have "\<lfloor>\<bar>x\<bar> / 2 powi (e - 52)\<rfloor> < 2 ^ 53" by (simp only: floor_less_iff)
  then have "m \<le> 2 ^ 53"
    using round_half_even_le [of "\<bar>x\<bar> / 2 powi (e - 52)"] unfolding r by linarith
  then have "(of_int m :: rat) \<le> of_int (2 ^ 53)" by (simp only: of_int_le_iff)
  then have "(of_int m :: rat) \<le> 2 powi 53" by simp
  then have "of_int m * 2 powi (e - 52) \<le> (2::rat) powi 53 * 2 powi (e - 52)"
    using u by (intro mult_right_mono) simp_all
  also have "\<dots> = 2 powi (e + 1)" by (rule split [symmetric])
  also have "\<dots> < 2 powi 1024"
    using e2 by (intro power_int_strict_increasing) simp_all
  finally have nov: "\<not> 2 powi 1024 \<le> of_int m * (2::rat) powi (e - 52)" by simp
  show ?thesis
    unfolding double_round_def Let_def mx r y using x0 nov by simp
qed

lemma double_round_eqI:
  assumes lo: "2 powi e \<le> \<bar>x\<bar>" and hi: "\<bar>x\<bar> < 2 powi (e + 1)"
      and e1: "- 1022 \<le> e" and e2: "e \<le> 1022"
      and m1: "of_int m - 1 / 2 < \<bar>x\<bar> / 2 powi (e - 52)"
      and m2: "\<bar>x\<bar> / 2 powi (e - 52) < of_int m + 1 / 2"
      and y: "y = sgn x * (of_int m * 2 powi (e - 52))"
  shows "double_round x = Num y"
  using lo hi e1 e2 round_half_even_eqI [OF m1 m2] y by (rule double_round_roundI)

lemma double_round_tieI:
  assumes lo: "2 powi e \<le> \<bar>x\<bar>" and hi: "\<bar>x\<bar> < 2 powi (e + 1)"
      and e1: "- 1022 \<le> e" and e2: "e \<le> 1022"
      and t: "\<bar>x\<bar> / 2 powi (e - 52) = of_int f + 1 / 2"
      and y: "y = sgn x * (of_int (if even f then f else f + 1) * 2 powi (e - 52))"
  shows "double_round x = Num y"
  using lo hi e1 e2 round_half_even_tie [OF t] y by (rule double_round_roundI)

lemma double_round_int:
  assumes "\<bar>k\<bar> < 2 ^ 53"
  shows "double_round (of_int k) = Num (of_int k)"
proof (cases "k = 0")
  case True
  then show ?thesis by (simp add: double_round_def)
next
  case False
  define x where "x = (of_int k :: rat)"
  define e where "e = floor_log 2 \<bar>x\<bar>"
  have xp: "0 < \<bar>x\<bar>" unfolding x_def using False by simp
  have b: "2 powi e \<le> \<bar>x\<bar>" "\<bar>x\<bar> < 2 powi (e + 1)"
    using floor_log_bounds [of 2 "\<bar>x\<bar>"] xp unfolding e_def by simp_all
  have "1 \<le> \<bar>k\<bar>" using False by simp
  then have "(1::rat) \<le> of_int \<bar>k\<bar>" by (simp only: of_int_1_le_iff)
  then have "(1::rat) \<le> \<bar>x\<bar>" unfolding x_def by simp
  then have one: "(1::rat) < 2 powi (e + 1)" using b(2) by linarith
  have e0: "0 \<le> e"
  proof (rule ccontr)
    assume "\<not> 0 \<le> e"
    then have "e + 1 \<le> 0" by simp
    then have "(2::rat) powi (e + 1) \<le> 2 powi 0" by (intro power_int_increasing) simp_all
    then show False using one by simp
  qed
  have "\<bar>x\<bar> < of_int (2 ^ 53)" unfolding x_def using assms
    by (simp only: of_int_less_iff flip: of_int_abs)
  then have "\<bar>x\<bar> < 2 powi 53" by simp
  then have "(2::rat) powi e < 2 powi 53" using b(1) by linarith
  then have "e < 53" by (rule power_int_le_imp_less_exp [rotated]) simp_all
  then have e52: "e \<le> 52" by simp
  define j where "j = nat (52 - e)"
  have "(2::rat) powi (e - 52) = 2 powi (- int j)" unfolding j_def using e52 by simp
  then have ulp: "(2::rat) powi (e - 52) = 1 / 2 ^ j" by (simp add: power_int_minus_divide)
  have d: "\<bar>x\<bar> / 2 powi (e - 52) = of_int (\<bar>k\<bar> * 2 ^ j)" unfolding ulp x_def by simp
  show ?thesis unfolding x_def [symmetric]
  proof (rule double_round_eqI [where e = e and m = "\<bar>k\<bar> * 2 ^ j"])
    show "2 powi e \<le> \<bar>x\<bar>" "\<bar>x\<bar> < 2 powi (e + 1)" by (rule b)+
    show "- 1022 \<le> e" "e \<le> 1022" using e0 e52 by simp_all
    show "of_int (\<bar>k\<bar> * 2 ^ j) - 1 / 2 < \<bar>x\<bar> / 2 powi (e - 52)" unfolding d by simp
    show "\<bar>x\<bar> / 2 powi (e - 52) < of_int (\<bar>k\<bar> * 2 ^ j) + 1 / 2" unfolding d by simp
    have "x = sgn x * \<bar>x\<bar>" by (simp add: sgn_mult_abs)
    also have "\<bar>x\<bar> = of_int (\<bar>k\<bar> * 2 ^ j) * 2 powi (e - 52)"
      unfolding ulp x_def by simp
    finally show "x = sgn x * (of_int (\<bar>k\<bar> * 2 ^ j) * 2 powi (e - 52))" .
  qed
qed

subsection \<open>Split calculator\<close>














lemma double_round_numeral:
  "(numeral k :: int) < 2 ^ 53 \<Longrightarrow> double_round (numeral k) = Num (numeral k)"
  using double_round_int [of "numeral k"] by simp

lemma split_step0:
  "double_round (3 / 10) = Num (5404319552844595 / 18014398509481984)"
  by (rule double_round_eqI [where e = "- 2" and m = 5404319552844595]) simp_all








subsection \<open>Expense cancellation\<close>

lemma cancel_expense_unfound:
  "\<not> fst (cancel_expense now p r t) \<Longrightarrow> snd (cancel_expense now p r t) = t"
  unfolding cancel_expense_def Let_def fst_conv snd_conv list_ex_iff
  by (intro map_idI) auto

text \<open>
  Claim C7. For every expense (a row of the table, identified by its primary key),
  \<^verbatim>\<open>cancel_expense\<close> returns true if and only if the expense's status is
  \<^verbatim>\<open>pending\<close> or \<^verbatim>\<open>completed\<close>. In that case the row gets status
  \<^verbatim>\<open>cancelled\<close>, \<^verbatim>\<open>cancelled_at\<close> and \<^verbatim>\<open>updated_at\<close> set to the current time and
  \<^verbatim>\<open>cancelled_reason\<close> set to the given reason, every other row and column staying as
  it was. Otherwise (status failed, cancelled or \<^verbatim>\<open>NULL\<close>) it returns false and the
  table is unchanged.
\<close>

theorem cancel_expense_iff:
  assumes pk: "distinct (map fo_id food_orders)"
      and e: "e \<in> set food_orders"
      and id: "fo_id e = p_expense_id"
  shows "(fst (cancel_expense now p_expense_id p_reason food_orders)
            \<longleftrightarrow> fo_status e = Some ''pending'' \<or> fo_status e = Some ''completed'')
       \<and> (fo_status e = Some ''pending'' \<or> fo_status e = Some ''completed'' \<longrightarrow>
            cancel_expense now p_expense_id p_reason food_orders =
              (True,
               map (\<lambda>r. if fo_id r = p_expense_id
                         then e\<lparr>fo_status := Some ''cancelled'',
                                fo_cancelled_at := Some now,
                                fo_cancelled_reason := p_reason,
                                fo_updated_at := Some now\<rparr>
                         else r) food_orders))
       \<and> (\<not> (fo_status e = Some ''pending'' \<or> fo_status e = Some ''completed'') \<longrightarrow>
            cancel_expense now p_expense_id p_reason food_orders = (False, food_orders))"
proof -
  let ?ok = "fo_status e = Some ''pending'' \<or> fo_status e = Some ''completed''"
  let ?res = "cancel_expense now p_expense_id p_reason food_orders"
  have uniq: "r = e" if "r \<in> set food_orders" "fo_id r = p_expense_id" for r
    using that pk e id by (auto simp: distinct_map inj_on_def)
  have w: "cancel_expense_where p_expense_id r \<longleftrightarrow> r = e \<and> ?ok"
    if "r \<in> set food_orders" for r
    using that uniq id unfolding cancel_expense_where_def by blast
  have found: "fst ?res \<longleftrightarrow> ?ok"
    unfolding cancel_expense_def Let_def fst_conv list_ex_iff
    using w e by blast
  have upd: "snd ?res =
       map (\<lambda>r. if fo_id r = p_expense_id
                 then e\<lparr>fo_status := Some ''cancelled'', fo_cancelled_at := Some now,
                        fo_cancelled_reason := p_reason, fo_updated_at := Some now\<rparr>
                 else r) food_orders" if ok: ?ok
    unfolding cancel_expense_def Let_def snd_conv
  proof (rule map_cong [OF refl])
    fix r assume r: "r \<in> set food_orders"
    show "(if cancel_expense_where p_expense_id r
           then r\<lparr>fo_status := Some ''cancelled'', fo_cancelled_at := Some now,
                  fo_cancelled_reason := p_reason, fo_updated_at := Some now\<rparr>
           else r) =
          (if fo_id r = p_expense_id
           then e\<lparr>fo_status := Some ''cancelled'', fo_cancelled_at := Some now,
                  fo_cancelled_reason := p_reason, fo_updated_at := Some now\<rparr>
           else r)"
    proof (cases "fo_id r = p_expense_id")
      case True
      then have "r = e" using uniq r by blast
      then show ?thesis using w [OF r] ok True by simp
    next
      case False
      then show ?thesis by (simp add: cancel_expense_where_def)
    qed
  qed
  have same: "snd ?res = food_orders" if "\<not> ?ok"
    using found that by (intro cancel_expense_unfound) blast
  have c1: "?ok \<longrightarrow> ?res = (True, map (\<lambda>r. if fo_id r = p_expense_id
                 then e\<lparr>fo_status := Some ''cancelled'', fo_cancelled_at := Some now,
                        fo_cancelled_reason := p_reason, fo_updated_at := Some now\<rparr>
                 else r) food_orders)"
    using found upd by (simp add: prod_eq_iff)
  have c2: "\<not> ?ok \<longrightarrow> ?res = (False, food_orders)"
    using found same by (simp add: prod_eq_iff)
  show ?thesis using found c1 c2 by blast
qed


theorem cancel_expense_iff_witness:
  "distinct (map fo_id [dosa]) \<and> dosa \<in> set [dosa] \<and> fo_id dosa = ''e1''
   \<and> cancel_expense 500 ''e1'' (Some ''ordered twice'') [dosa] =
       (True, [dosa\<lparr>fo_status := Some ''cancelled'', fo_cancelled_at := Some 500,
                    fo_cancelled_reason := Some ''ordered twice'',
                    fo_updated_at := Some 500\<rparr>])
   \<and> cancel_expense 900 ''e1'' None [dosa\<lparr>fo_status := Some ''failed''\<rparr>] =
       (False, [dosa\<lparr>fo_status := Some ''failed''\<rparr>])"
proof -
  let ?c = "dosa\<lparr>fo_status := Some ''failed''\<rparr>"
  have a: "distinct (map fo_id [dosa])" "dosa \<in> set [dosa]" "fo_id dosa = ''e1''"
    by (simp_all add: dosa_def)
  have b: "distinct (map fo_id [?c])" "?c \<in> set [?c]" "fo_id ?c = ''e1''"
    by (simp_all add: dosa_def)
  have s1: "fo_status dosa = Some ''completed''"
    by (simp add: dosa_def)
  have s2: "\<not> (fo_status ?c = Some ''pending'' \<or> fo_status ?c = Some ''completed'')"
    by simp
  have 1: "cancel_expense 500 ''e1'' (Some ''ordered twice'') [dosa] =
       (True, [dosa\<lparr>fo_status := Some ''cancelled'', fo_cancelled_at := Some 500,
                    fo_cancelled_reason := Some ''ordered twice'',
                    fo_updated_at := Some 500\<rparr>])"
    using cancel_expense_iff [OF a, of 500 "Some ''ordered twice''"] s1 a(3) by simp
  have 2: "cancel_expense 900 ''e1'' None [?c] = (False, [?c])"
    using cancel_expense_iff [OF b, of 900 None] s2 by blast
  show ?thesis using a 1 2 by blast
qed

subsection \<open>Budget usage\<close>

lemma usage_row_fields:
  "total_spent (usage_row s b t) = s"
  "budget_limit (usage_row s b t) = b"
  "alert_threshold (usage_row s b t) = t"
  "remaining (usage_row s b t) = num_sub b s"
  "percentage_used (usage_row s b t) =
     (if val b = 0 then None
      else Some (num_round (num_mul (num_quot s b) (num_of_int 100)) 2))"
  "should_alert (usage_row s b t) =
     (if val b = 0 then None else Some (val t \<le> val (num_quot s b) * 100))"
  by (simp_all add: usage_row_def nullif0_def num_mul_def num_of_int_def)

lemma get_budget_usage_row:
  "\<exists>s b t. get_budget_usage d ubs fos u p = usage_row s b t
     \<and> b = budget_limit (get_budget_usage d ubs fos' u p)
     \<and> t = alert_threshold (get_budget_usage d ubs fos' u p)"
proof -
  obtain b0 t0 where sb: "select_budget u p ubs = (b0, t0)" by (cases "select_budget u p ubs")
  show ?thesis
    unfolding get_budget_usage_def Let_def sb prod.case usage_row_fields by blast
qed

lemma percentage_val:
  "val (num_round (num_mul (num_quot s b) (num_of_int 100)) 2)
     = round_scale 2 (val (num_quot s b) * 100)"
  by (simp add: num_round_def num_mul_def num_of_int_def)

text \<open>
  Claim C5, as the code has it. With a budget limit other than zero,
  \<^verbatim>\<open>get_budget_usage\<close> returns as \<open>percentage_used\<close> the quotient of the total spent
  by the limit, as PostgreSQL rounds it, times 100 and rounded to two decimals, and
  \<open>should_alert\<close> is true exactly when that quotient times 100, \<^emph>\<open>before\<close> the
  rounding to two decimals, reaches the alert threshold. An alert therefore implies
  that the reported percentage reaches a threshold of at most two decimals, but not
  the other way round. With a budget limit of zero both results are \<^verbatim>\<open>NULL\<close>: no
  alert and no division error. For amounts in whole cents, a total spent from 0 to
  below \<open>10 ^ 10\<close> and a limit above 0 and below \<open>10 ^ 10\<close>, the rounding of the
  quotient changes neither result: \<open>percentage_used\<close> is
  \<open>round(total_spent / budget_limit * 100, 2)\<close>, \<open>should_alert\<close> compares the exact
  percentage with the threshold, and the percentage is non-decreasing in the total
  spent for a fixed limit.
\<close>

theorem budget_usage_alert:
  "let r = get_budget_usage d user_budgets food_orders p_user_id p_period;
       r' = get_budget_usage d user_budgets food_orders' p_user_id p_period
   in (val (budget_limit r) \<noteq> 0 \<longrightarrow>
         percentage_used r =
           Some (num_round (num_mul (num_quot (total_spent r) (budget_limit r))
                   (num_of_int 100)) 2)
       \<and> should_alert r =
           Some (val (alert_threshold r)
                   \<le> val (num_quot (total_spent r) (budget_limit r)) * 100))
    \<and> (val (budget_limit r) = 0 \<longrightarrow> percentage_used r = None \<and> should_alert r = None)
    \<and> (should_alert r = Some True \<and> whole_cents (val (alert_threshold r)) \<longrightarrow>
         (\<exists>q. percentage_used r = Some q \<and> val (alert_threshold r) \<le> val q))
    \<and> (cents_in_range r \<longrightarrow>
         map_option val (percentage_used r)
           = Some (round_scale 2 (val (total_spent r) / val (budget_limit r) * 100))
       \<and> should_alert r
           = Some (val (alert_threshold r)
                     \<le> val (total_spent r) / val (budget_limit r) * 100))
    \<and> (cents_in_range r \<and> cents_in_range r'
        \<and> val (total_spent r) \<le> val (total_spent r') \<longrightarrow>
         (\<exists>q q'. percentage_used r = Some q \<and> percentage_used r' = Some q'
                \<and> val q \<le> val q'))"
proof -
  define r where "r = get_budget_usage d user_budgets food_orders p_user_id p_period"
  define r' where "r' = get_budget_usage d user_budgets food_orders' p_user_id p_period"
  obtain s b t where r: "r = usage_row s b t"
    using get_budget_usage_row [of d user_budgets food_orders p_user_id p_period]
    unfolding r_def by blast
  obtain s' b' t' where r': "r' = usage_row s' b' t'" and bb: "b' = budget_limit r"
    using get_budget_usage_row [of d user_budgets food_orders' p_user_id p_period food_orders]
    unfolding r_def r'_def by blast
  have b: "b' = b" using bb r by (simp add: usage_row_fields)
  have exact: "round_scale 2 (val (num_quot x b) * 100) = round_scale 2 (val x / val b * 100)
       \<and> (val y \<le> val (num_quot x b) * 100) = (val y \<le> val x / val b * 100)"
    if c: "cents_in_range (usage_row x b y)" for x y
  proof -
    have c': "whole_cents (val x)" "whole_cents (val b)" "whole_cents (val y)"
        "0 \<le> val x" "val x < 10 ^ 10" "0 < val b" "val b < 10 ^ 10"
      using c unfolding cents_in_range_def usage_row_fields by simp_all
    obtain X B Y :: int where X: "val x * 100 = of_int X" and B: "val b * 100 = of_int B"
        and Y: "val y * 100 = of_int Y"
      using c'(1-3) [THEN whole_cents_int] by blast
    show ?thesis
      using quot_percent(1) [OF X B c'(4-7)] quot_percent(2) [OF X B c'(4-7) Y] by simp
  qed
  have 1: "val (budget_limit r) \<noteq> 0 \<longrightarrow>
         percentage_used r =
           Some (num_round (num_mul (num_quot (total_spent r) (budget_limit r))
                   (num_of_int 100)) 2)
       \<and> should_alert r =
           Some (val (alert_threshold r)
                   \<le> val (num_quot (total_spent r) (budget_limit r)) * 100)"
    unfolding r by (simp add: usage_row_fields)
  have 2: "val (budget_limit r) = 0 \<longrightarrow> percentage_used r = None \<and> should_alert r = None"
    unfolding r by (simp add: usage_row_fields)
  have 3: "\<exists>q. percentage_used r = Some q \<and> val (alert_threshold r) \<le> val q"
    if a: "should_alert r = Some True" and k: "whole_cents (val (alert_threshold r))"
  proof -
    have b0: "val b \<noteq> 0" using a unfolding r by (auto simp: usage_row_fields split: if_splits)
    have le: "val t \<le> val (num_quot s b) * 100"
      using a b0 unfolding r by (simp add: usage_row_fields)
    obtain K :: int where "val t * 100 = of_int K"
      using whole_cents_int [OF k] unfolding r by (auto simp: usage_row_fields)
    then have "val t * 10 ^ 2 = of_int K" by simp
    then have "round_scale 2 (val t) = val t" by (rule round_scale_grid)
    then have "val t \<le> round_scale 2 (val (num_quot s b) * 100)"
      using round_scale_mono [OF le, of 2] by simp
    then show ?thesis unfolding r using b0 by (simp add: usage_row_fields percentage_val)
  qed
  have 4: "map_option val (percentage_used r)
           = Some (round_scale 2 (val (total_spent r) / val (budget_limit r) * 100))
       \<and> should_alert r
           = Some (val (alert_threshold r)
                     \<le> val (total_spent r) / val (budget_limit r) * 100)"
    if c: "cents_in_range r"
  proof -
    have b0: "val b \<noteq> 0" using c unfolding r cents_in_range_def usage_row_fields by simp
    show ?thesis
      using exact [OF c [unfolded r]] b0 unfolding r
      by (simp add: usage_row_fields percentage_val)
  qed
  have 5: "\<exists>q q'. percentage_used r = Some q \<and> percentage_used r' = Some q' \<and> val q \<le> val q'"
    if c: "cents_in_range r" and c': "cents_in_range r'"
      and le: "val (total_spent r) \<le> val (total_spent r')"
  proof -
    have b0: "0 < val b" using c unfolding r cents_in_range_def usage_row_fields by simp
    have "val s \<le> val s'" using le unfolding r r' by (simp add: usage_row_fields)
    then have "val s / val b * 100 \<le> val s' / val b * 100"
      using b0 by (simp add: divide_right_mono)
    then have "round_scale 2 (val s / val b * 100) \<le> round_scale 2 (val s' / val b * 100)"
      by (rule round_scale_mono)
    then have "round_scale 2 (val (num_quot s b) * 100)
        \<le> round_scale 2 (val (num_quot s' b) * 100)"
      using exact [OF c [unfolded r]] exact [OF c' [unfolded r' b]] by simp
    then show ?thesis unfolding r r' b using b0
      by (simp add: usage_row_fields percentage_val)
  qed
  from 1 2 3 4 5 have "(val (budget_limit r) \<noteq> 0 \<longrightarrow>
         percentage_used r =
           Some (num_round (num_mul (num_quot (total_spent r) (budget_limit r))
                   (num_of_int 100)) 2)
       \<and> should_alert r =
           Some (val (alert_threshold r)
                   \<le> val (num_quot (total_spent r) (budget_limit r)) * 100))
    \<and> (val (budget_limit r) = 0 \<longrightarrow> percentage_used r = None \<and> should_alert r = None)
    \<and> (should_alert r = Some True \<and> whole_cents (val (alert_threshold r)) \<longrightarrow>
         (\<exists>q. percentage_used r = Some q \<and> val (alert_threshold r) \<le> val q))
    \<and> (cents_in_range r \<longrightarrow>
         map_option val (percentage_used r)
           = Some (round_scale 2 (val (total_spent r) / val (budget_limit r) * 100))
       \<and> should_alert r
           = Some (val (alert_threshold r)
                     \<le> val (total_spent r) / val (budget_limit r) * 100))
    \<and> (cents_in_range r \<and> cents_in_range r'
        \<and> val (total_spent r) \<le> val (total_spent r') \<longrightarrow>
         (\<exists>q q'. percentage_used r = Some q \<and> percentage_used r' = Some q'
                \<and> val q \<le> val q'))"
    by blast
  then show ?thesis unfolding Let_def r_def r'_def .
qed

lemma sum_numeric_val:
  "val (case sum_numeric vs of None \<Rightarrow> num_of_int 0 | Some v \<Rightarrow> v) = sum_list (map val vs)"
proof -
  have "val (foldl num_add a xs) = val a + sum_list (map val xs)" for a xs
    by (induction xs arbitrary: a) (simp_all add: num_add_def)
  then show ?thesis
    by (cases vs) (simp_all add: sum_numeric_def num_of_int_def)
qed

lemma total_spent_get_budget_usage:
  "val (total_spent (get_budget_usage d ubs fos u p)) =
     sum_list (map (\<lambda>fo. val (fo_amount fo)) (filter (spent_where d u p) fos))"
proof -
  obtain b t where sb: "select_budget u p ubs = (b, t)" by (cases "select_budget u p ubs")
  show ?thesis
    unfolding get_budget_usage_def Let_def sb prod.case usage_row_fields sum_numeric_val
    by (simp add: comp_def)
qed

lemma default_budget:
  "budget_limit (get_budget_usage d [] fos u ''monthly'') = num_of_int 10000"
  "alert_threshold (get_budget_usage d [] fos u ''monthly'') = num_of_int 80"
  by (simp_all add: get_budget_usage_def select_budget_def usage_row_fields)

lemma month_rows_usage:
  "val (total_spent (get_budget_usage sample_dates [] month_rows None ''monthly'')) = 8500"
  "val (budget_limit (get_budget_usage sample_dates [] month_rows None ''monthly'')) = 10000"
  "val (alert_threshold (get_budget_usage sample_dates [] month_rows None ''monthly'')) = 80"
  unfolding total_spent_get_budget_usage default_budget
  by (simp_all add: month_rows_def dosa_def sample_dates_def spent_where_def user_matches_def
      dec_def num_of_int_def)

lemma more_rows_usage:
  "val (total_spent (get_budget_usage sample_dates [] (dosa # month_rows) None ''monthly''))
     = 8620"
  unfolding total_spent_get_budget_usage
  by (simp add: month_rows_def dosa_def sample_dates_def spent_where_def user_matches_def
      dec_def)

lemma zero_budget_usage:
  "val (budget_limit (get_budget_usage sample_dates [zero_budget] month_rows None ''monthly'')) = 0"
  by (simp add: get_budget_usage_def select_budget_def usage_row_fields zero_budget_def
      user_matches_def dec_def)

theorem budget_usage_alert_witness:
  "cents_in_range (get_budget_usage sample_dates [] month_rows None ''monthly'')
   \<and> map_option val (percentage_used (get_budget_usage sample_dates [] month_rows None ''monthly''))
       = Some 85
   \<and> should_alert (get_budget_usage sample_dates [] month_rows None ''monthly'') = Some True
   \<and> (\<exists>q. percentage_used (get_budget_usage sample_dates [] month_rows None ''monthly'') = Some q
          \<and> 80 \<le> val q)
   \<and> cents_in_range (get_budget_usage sample_dates [] (dosa # month_rows) None ''monthly'')
   \<and> val (total_spent (get_budget_usage sample_dates [] month_rows None ''monthly''))
       \<le> val (total_spent (get_budget_usage sample_dates [] (dosa # month_rows) None ''monthly''))
   \<and> (\<exists>q q'.
          percentage_used (get_budget_usage sample_dates [] month_rows None ''monthly'') = Some q
        \<and> percentage_used (get_budget_usage sample_dates [] (dosa # month_rows) None ''monthly'')
            = Some q'
        \<and> val q \<le> val q')
   \<and> percentage_used (get_budget_usage sample_dates [zero_budget] month_rows None ''monthly'') = None
   \<and> should_alert (get_budget_usage sample_dates [zero_budget] month_rows None ''monthly'') = None"
proof -
  let ?r = "get_budget_usage sample_dates [] month_rows None ''monthly''"
  let ?z = "get_budget_usage sample_dates [zero_budget] month_rows None ''monthly''"
  have r85: "round_scale 2 85 = 85" by (rule round_scale_grid [of _ _ 8500]) simp
  have c: "cents_in_range ?r"
    unfolding cents_in_range_def whole_cents_def month_rows_usage by simp
  note t = budget_usage_alert [of sample_dates "[]" month_rows None "''monthly''" month_rows,
      unfolded Let_def]
  have "map_option val (percentage_used ?r)
           = Some (round_scale 2 (val (total_spent ?r) / val (budget_limit ?r) * 100))
       \<and> should_alert ?r
           = Some (val (alert_threshold ?r) \<le> val (total_spent ?r) / val (budget_limit ?r) * 100)"
    using t c by blast
  then have p: "map_option val (percentage_used ?r) = Some 85"
    and a: "should_alert ?r = Some True"
    unfolding month_rows_usage using r85 by simp_all
  have k: "whole_cents (val (alert_threshold ?r))"
    unfolding month_rows_usage whole_cents_def by simp
  have "\<exists>q. percentage_used ?r = Some q \<and> val (alert_threshold ?r) \<le> val q"
    using t a k by blast
  then have q: "\<exists>q. percentage_used ?r = Some q \<and> 80 \<le> val q"
    unfolding month_rows_usage .
  let ?m = "get_budget_usage sample_dates [] (dosa # month_rows) None ''monthly''"
  have c': "cents_in_range ?m"
    unfolding cents_in_range_def whole_cents_def more_rows_usage default_budget
    by (simp add: num_of_int_def)
  have le: "val (total_spent ?r) \<le> val (total_spent ?m)"
    unfolding month_rows_usage more_rows_usage by simp
  have mono: "\<exists>q q'. percentage_used ?r = Some q \<and> percentage_used ?m = Some q' \<and> val q \<le> val q'"
    using budget_usage_alert [of sample_dates "[]" month_rows None "''monthly''"
        "dosa # month_rows", unfolded Let_def] c c' le by blast
  have z: "percentage_used ?z = None \<and> should_alert ?z = None"
    using budget_usage_alert [of sample_dates "[zero_budget]" month_rows None "''monthly''" month_rows,
      unfolded Let_def] zero_budget_usage by blast
  show ?thesis using c p a q c' le mono z by blast
qed

text \<open>
  The claim as first stated compares the rounded percentage with the threshold. With
  the default budget of 10000 and threshold of 80, a spend of 7999.60 is 79.996 percent:
  the reported percentage is 80.00, which reaches the threshold, and yet no alert is
  raised. And under a negative budget limit the percentage falls as the spend grows.
\<close>

lemma near_usage:
  "get_budget_usage sample_dates [] near_rows None ''monthly'' =
     usage_row (dec 799960 2) (num_of_int 10000) (num_of_int 80)"
  by (simp add: get_budget_usage_def select_budget_def near_rows_def dosa_def sample_dates_def
      spent_where_def user_matches_def sum_numeric_def)

lemma near_quotient:
  "round_scale 2 (val (num_quot (dec 799960 2) (num_of_int 10000)) * 100) = 80"
  "(val (num_of_int 80) \<le> val (num_quot (dec 799960 2) (num_of_int 10000)) * 100) = False"
proof -
  have S: "val (dec 799960 2) * 100 = of_int 799960" by (simp add: dec_def)
  have B: "val (num_of_int 10000) * 100 = of_int 1000000" by (simp add: num_of_int_def)
  have T: "val (num_of_int 80) * 100 = of_int 8000" by (simp add: num_of_int_def)
  have h: "0 \<le> val (dec 799960 2)" "val (dec 799960 2) < 10 ^ 10"
      "0 < val (num_of_int 10000)" "val (num_of_int 10000) < 10 ^ 10"
    by (simp_all add: dec_def num_of_int_def)
  have f: "\<lfloor>(80001::rat) / 10\<rfloor> = 8000" by (simp add: floor_eq_iff)
  have r: "round_scale 2 (79996 / 1000) = 80" by (simp add: round_scale_def f)
  show "round_scale 2 (val (num_quot (dec 799960 2) (num_of_int 10000)) * 100) = 80"
    unfolding quot_percent(1) [OF S B h] using r by (simp add: dec_def num_of_int_def)
  show "(val (num_of_int 80) \<le> val (num_quot (dec 799960 2) (num_of_int 10000)) * 100) = False"
    unfolding quot_percent(2) [OF S B h T] by (simp add: dec_def num_of_int_def)
qed

lemma negative_quotient:
  "val (num_quot (dec 12000 2) (dec (- 10000) 2)) = - (6 / 5)"
proof -
  have w1: "num_weight 120 = 0" by (rule num_weight_eqI) simp_all
  have w2: "num_weight (- 100) = 0" by (rule num_weight_eqI) simp_all
  have f1: "first_digit 120 = 120" by (rule first_digit_eqI [OF w1]) simp_all
  have f2: "first_digit (- 100) = 100" by (rule first_digit_eqI [OF w2]) simp_all
  have s: "select_div_scale (dec 12000 2) (dec (- 10000) 2) = 16"
    by (simp add: select_div_scale_def dec_def w1 w2 f1 f2)
  have "round_scale 16 (- (6 / 5)) = - (6 / 5)"
    by (rule round_scale_grid [of _ _ "- 12000000000000000"]) simp
  then show ?thesis unfolding num_quot_val s by (simp add: dec_def)
qed

theorem budget_usage_alert_counterexample:
  "map_option val (percentage_used (get_budget_usage sample_dates [] near_rows None ''monthly''))
     = Some 80
   \<and> val (alert_threshold (get_budget_usage sample_dates [] near_rows None ''monthly'')) = 80
   \<and> should_alert (get_budget_usage sample_dates [] near_rows None ''monthly'') = Some False
   \<and> val (total_spent (get_budget_usage sample_dates [negative_budget] [] None ''monthly'')) = 0
   \<and> val (total_spent (get_budget_usage sample_dates [negative_budget] [dosa] None ''monthly''))
       = 120
   \<and> map_option val
        (percentage_used (get_budget_usage sample_dates [negative_budget] [] None ''monthly''))
       = Some 0
   \<and> map_option val
        (percentage_used (get_budget_usage sample_dates [negative_budget] [dosa] None ''monthly''))
       = Some (- 120)"
proof -
  have r2: "round_scale s (0::rat) = 0" for s by (rule round_scale_grid [of _ _ 0]) simp
  have r3: "round_scale 2 (- 120) = - 120" by (rule round_scale_grid [of _ _ "- 12000"]) simp
  have m0: "get_budget_usage sample_dates [negative_budget] [] None ''monthly'' =
      usage_row (num_of_int 0) (dec (- 10000) 2) (dec 8000 2)"
    by (simp add: get_budget_usage_def select_budget_def negative_budget_def user_matches_def
        sum_numeric_def)
  have m1: "get_budget_usage sample_dates [negative_budget] [dosa] None ''monthly'' =
      usage_row (dec 12000 2) (dec (- 10000) 2) (dec 8000 2)"
    by (simp add: get_budget_usage_def select_budget_def negative_budget_def dosa_def
        sample_dates_def spent_where_def user_matches_def sum_numeric_def)
  have z: "val (num_quot (num_of_int 0) (dec (- 10000) 2)) = 0"
    unfolding num_quot_val by (simp add: num_of_int_def r2)
  have nb: "val (dec (- 10000) 2) \<noteq> 0" "val (num_of_int 10000) \<noteq> 0"
    by (simp_all add: dec_def num_of_int_def)
  have c1: "map_option val (percentage_used
        (get_budget_usage sample_dates [] near_rows None ''monthly'')) = Some 80"
    unfolding near_usage usage_row_fields using nb near_quotient(1)
    by (simp add: percentage_val)
  have c2: "val (alert_threshold (get_budget_usage sample_dates [] near_rows None ''monthly''))
      = 80"
    unfolding near_usage usage_row_fields by (simp add: num_of_int_def)
  have c3: "should_alert (get_budget_usage sample_dates [] near_rows None ''monthly'')
      = Some False"
    unfolding near_usage usage_row_fields using nb near_quotient(2) by simp
  have c4: "val (total_spent
        (get_budget_usage sample_dates [negative_budget] [] None ''monthly'')) = 0"
    unfolding m0 usage_row_fields by (simp add: num_of_int_def)
  have c5: "val (total_spent
        (get_budget_usage sample_dates [negative_budget] [dosa] None ''monthly'')) = 120"
    unfolding m1 usage_row_fields by (simp add: dec_def)
  have c6: "map_option val (percentage_used
        (get_budget_usage sample_dates [negative_budget] [] None ''monthly'')) = Some 0"
    unfolding m0 usage_row_fields using nb by (simp add: percentage_val z r2)
  have c7: "map_option val (percentage_used
        (get_budget_usage sample_dates [negative_budget] [dosa] None ''monthly''))
      = Some (- 120)"
    unfolding m1 usage_row_fields using nb by (simp add: percentage_val negative_quotient r3)
  show ?thesis using c1 c2 c3 c4 c5 c6 c7 by blast
qed

text \<open>
  Outside the range the rounding of the quotient is visible. A total of
  \<open>7999999999999999999999999\<close> against a limit of \<open>10 ^ 25\<close> is below 80 percent,
  but the quotient is rounded at 20 decimals to \<open>0.8\<close>, and the alert is raised.
\<close>

lemma alert_beyond_range:
  "should_alert (usage_row (num_of_int 7999999999999999999999999)
       (num_of_int 10000000000000000000000000) (num_of_int 80)) = Some True"
  "\<not> (80::rat) \<le> 7999999999999999999999999 / 10000000000000000000000000 * 100"
proof -
  have w1: "num_weight 7999999999999999999999999 = 6" by (rule num_weight_eqI) simp_all
  have w2: "num_weight 10000000000000000000000000 = 6" by (rule num_weight_eqI) simp_all
  have f1: "first_digit 7999999999999999999999999 = 7"
    by (rule first_digit_eqI [OF w1]) simp_all
  have f2: "first_digit 10000000000000000000000000 = 10"
    by (rule first_digit_eqI [OF w2]) simp_all
  have s: "select_div_scale (num_of_int 7999999999999999999999999)
      (num_of_int 10000000000000000000000000) = 20"
    by (simp add: select_div_scale_def num_of_int_def w1 w2 f1 f2)
  have "\<lfloor>(7999999999999999999999999::rat) / 10000000000000000000000000 * 10 ^ 20 + 1 / 2\<rfloor>
      = 80000000000000000000"
    by (simp add: floor_eq_iff)
  then have r: "round_scale 20 (7999999999999999999999999 / 10000000000000000000000000) = 4 / 5"
    by (simp add: round_scale_def)
  have q: "val (num_quot (num_of_int 7999999999999999999999999)
      (num_of_int 10000000000000000000000000)) = 4 / 5"
    unfolding num_quot_val s using r by (simp add: num_of_int_def)
  show "should_alert (usage_row (num_of_int 7999999999999999999999999)
       (num_of_int 10000000000000000000000000) (num_of_int 80)) = Some True"
    unfolding usage_row_fields q by (simp add: num_of_int_def)
  show "\<not> (80::rat) \<le> 7999999999999999999999999 / 10000000000000000000000000 * 100"
    by simp
qed

subsection \<open>Order status transition\<close>

lemma set_status_frame [simp]:
  "o_id (set_status now s r) = o_id r"
  "o_user_id (set_status now s r) = o_user_id r"
  "o_status (set_status now s r) = s"
  "o_placed_at (set_status now s r) = o_placed_at r"
  by (simp_all add: set_status_def)

lemma orders_policy_set_status [simp]:
  "orders_policy a (set_status now s r) = orders_policy a r"
  by (simp add: orders_policy_def)

lemma unique_row:
  assumes "distinct (map o_id rs)" and "r \<in> set rs" and "r' \<in> set rs" and "o_id r' = o_id r"
  shows "r' = r"
  using assms by (auto simp: distinct_map inj_on_def)

lemma update_order_status_found_mem:
  assumes "r \<in> set rs" and "o_id r = p"
  shows "set_status now s r \<in> set (map (\<lambda>x. if o_id x = p then set_status now s r else x) rs)"
proof -
  have "(\<lambda>x. if o_id x = p then set_status now s r else x) r = set_status now s r"
    using assms(2) by simp
  then show ?thesis
    unfolding set_map using assms(1) by (intro image_eqI [where x = r]) simp_all
qed

lemma update_order_status_found:
  assumes pk: "distinct (map o_id (orders db))"
      and r: "r \<in> set (orders db)"
      and id: "o_id r = p"
      and pol: "orders_policy a r"
      and s: "s \<in> set orders_status_check"
  shows "update_order_status a now p s m l db =
     Inr (True,
          \<lparr>orders = map (\<lambda>x. if o_id x = p then set_status now s r else x) (orders db),
           order_status_history = order_status_history db @
             [\<lparr>h_order_id = p, h_status = s, h_message = m, h_location = l,
               h_created_at = Some now\<rparr>]\<rparr>)"
proof -
  let ?target = "\<lambda>x. o_id x = p \<and> orders_policy a x"
  have eq: "x = r" if "x \<in> set (orders db)" "o_id x = p" for x
    using unique_row [OF pk r that(1)] that(2) id by simp
  have m: "map (\<lambda>x. if ?target x then set_status now s x else x) (orders db) =
           map (\<lambda>x. if o_id x = p then set_status now s r else x) (orders db)"
    by (rule map_cong [OF refl]) (use eq pol in auto)
  have "set_status now s r \<in>
          set (map (\<lambda>x. if o_id x = p then set_status now s r else x) (orders db))"
    using r id by (rule update_order_status_found_mem)
  then have ex: "list_ex (\<lambda>x. o_id x = p)
              (map (\<lambda>x. if o_id x = p then set_status now s r else x) (orders db))"
    unfolding list_ex_iff using id by (intro bexI [of _ "set_status now s r"]) simp_all
  show ?thesis
    unfolding update_order_status_def Let_def m using s ex by simp
qed

lemma replace_keeps_ids:
  "o_id y = p \<Longrightarrow> map o_id (map (\<lambda>x. if o_id x = p then y else x) rs) = map o_id rs"
  by (induction rs) simp_all

lemma map_twice:
  assumes "o_id r = p"
  shows "map (\<lambda>x. if o_id x = p then set_status t2 s (set_status t1 s r) else x)
       (map (\<lambda>x. if o_id x = p then set_status t1 s r else x) rs) =
     map (\<lambda>x. if o_id x = p then set_status t2 s (set_status t1 s r) else x) rs"
  using assms by (induction rs) simp_all

lemma status_timestamp_set_status:
  "status_timestamp s (set_status now s r) =
     (if s \<in> {''confirmed'', ''preparing'', ''ready'', ''picked_up'', ''on_the_way'',
               ''delivered'', ''cancelled''}
      then Some now else status_timestamp s r)"
  by (simp add: status_timestamp_def set_status_def)

lemma list_ex_id_update:
  "list_ex (\<lambda>x. o_id x = p) (map (\<lambda>x. if P x then set_status now s x else x) rs)
     = list_ex (\<lambda>x. o_id x = p) rs"
  by (induction rs) simp_all

text \<open>
  Claim C2, as the code has it. For every order that the session may update and every
  admitted status \<open>s\<close>, two calls of \<^verbatim>\<open>update_order_status\<close> in a row with the same
  \<open>s\<close>, at times \<open>t1\<close> and \<open>t2\<close>, both succeed and append one history entry each
  (two in all, not deduplicated). The timestamp column of \<open>s\<close> is written by each
  call: after the second it holds \<open>t2\<close>, whatever it held before, for the seven
  statuses that have a column the function writes (\<^verbatim>\<open>confirmed\<close>, \<^verbatim>\<open>preparing\<close>,
  \<^verbatim>\<open>ready\<close>, \<^verbatim>\<open>picked_up\<close>, \<^verbatim>\<open>on_the_way\<close>, \<^verbatim>\<open>delivered\<close>, \<^verbatim>\<open>cancelled\<close>);
  for \<^verbatim>\<open>placed\<close>, \<^verbatim>\<open>nearby\<close> and \<^verbatim>\<open>failed\<close> no timestamp is written.
\<close>

theorem transition_twice:
  assumes pk: "distinct (map o_id (orders db))"
      and r: "r \<in> set (orders db)"
      and id: "o_id r = p"
      and pol: "orders_policy a r"
      and s: "s \<in> set orders_status_check"
  shows "\<exists>d1 d2 r2.
      update_order_status a t1 p s m1 l1 db = Inr (True, d1)
    \<and> update_order_status a t2 p s m2 l2 d1 = Inr (True, d2)
    \<and> r2 \<in> set (orders d2) \<and> o_id r2 = p
    \<and> (\<forall>x\<in>set (orders d2). o_id x = p \<longrightarrow> x = r2)
    \<and> o_status r2 = s
    \<and> status_timestamp s r2 =
        (if s \<in> {''confirmed'', ''preparing'', ''ready'', ''picked_up'', ''on_the_way'',
                   ''delivered'', ''cancelled''}
         then Some t2 else status_timestamp s r)
    \<and> order_status_history d2 = order_status_history db @
        [\<lparr>h_order_id = p, h_status = s, h_message = m1, h_location = l1,
          h_created_at = Some t1\<rparr>,
         \<lparr>h_order_id = p, h_status = s, h_message = m2, h_location = l2,
          h_created_at = Some t2\<rparr>]"
proof -
  let ?r1 = "set_status t1 s r"
  let ?r2 = "set_status t2 s ?r1"
  let ?h1 = "\<lparr>h_order_id = p, h_status = s, h_message = m1, h_location = l1,
               h_created_at = Some t1\<rparr>"
  let ?h2 = "\<lparr>h_order_id = p, h_status = s, h_message = m2, h_location = l2,
               h_created_at = Some t2\<rparr>"
  let ?d1 = "\<lparr>orders = map (\<lambda>x. if o_id x = p then ?r1 else x) (orders db),
              order_status_history = order_status_history db @ [?h1]\<rparr>"
  let ?d2 = "\<lparr>orders = map (\<lambda>x. if o_id x = p then ?r2 else x) (orders db),
              order_status_history = order_status_history db @ [?h1, ?h2]\<rparr>"
  have first: "update_order_status a t1 p s m1 l1 db = Inr (True, ?d1)"
    using pk r id pol s by (rule update_order_status_found)
  have id1: "o_id ?r1 = p" and pol1: "orders_policy a ?r1"
    using id pol by simp_all
  have id2: "o_id ?r2 = p" using id by simp
  have pk1: "distinct (map o_id (orders ?d1))"
    unfolding order_db.select_convs replace_keeps_ids [OF id1] by (rule pk)
  have r1: "?r1 \<in> set (orders ?d1)"
    using update_order_status_found_mem [OF r id] by simp
  have "update_order_status a t2 p s m2 l2 ?d1 =
      Inr (True,
        \<lparr>orders = map (\<lambda>x. if o_id x = p then ?r2 else x) (orders ?d1),
         order_status_history = order_status_history ?d1 @ [?h2]\<rparr>)"
    using pk1 r1 id1 pol1 s by (rule update_order_status_found)
  then have second: "update_order_status a t2 p s m2 l2 ?d1 = Inr (True, ?d2)"
    using map_twice [OF id] by simp
  have pk2: "distinct (map o_id (orders ?d2))"
    unfolding order_db.select_convs replace_keeps_ids [OF id2] by (rule pk)
  have r2: "?r2 \<in> set (orders ?d2)"
  proof -
    have "(\<lambda>x. if o_id x = p then ?r2 else x) r = ?r2" using id by simp
    then show ?thesis
      unfolding order_db.select_convs set_map using r by (intro image_eqI [where x = r]) simp_all
  qed
  have uniq: "\<forall>x\<in>set (orders ?d2). o_id x = p \<longrightarrow> x = ?r2"
  proof (intro ballI impI)
    fix x assume "x \<in> set (orders ?d2)" and "o_id x = p"
    then show "x = ?r2" using unique_row [OF pk2 r2, of x] id2 by simp
  qed
  have ts: "status_timestamp s ?r2 =
        (if s \<in> {''confirmed'', ''preparing'', ''ready'', ''picked_up'', ''on_the_way'',
                   ''delivered'', ''cancelled''}
         then Some t2 else status_timestamp s r)"
    by (simp add: status_timestamp_set_status)
  have st: "o_status ?r2 = s" by simp
  have h: "order_status_history ?d2 = order_status_history db @ [?h1, ?h2]" by simp
  show ?thesis
  proof (intro exI conjI)
    show "update_order_status a t1 p s m1 l1 db = Inr (True, ?d1)" by (rule first)
    show "update_order_status a t2 p s m2 l2 ?d1 = Inr (True, ?d2)" by (rule second)
    show "?r2 \<in> set (orders ?d2)" by (rule r2)
    show "o_id ?r2 = p" by (rule id2)
    show "\<forall>x\<in>set (orders ?d2). o_id x = p \<longrightarrow> x = ?r2" by (rule uniq)
    show "o_status ?r2 = s" by (rule st)
    show "status_timestamp s ?r2 =
        (if s \<in> {''confirmed'', ''preparing'', ''ready'', ''picked_up'', ''on_the_way'',
                   ''delivered'', ''cancelled''}
         then Some t2 else status_timestamp s r)" by (rule ts)
    show "order_status_history ?d2 = order_status_history db @ [?h1, ?h2]" by (rule h)
  qed
qed

lemma placed_db_hyps:
  "distinct (map o_id (orders placed_db))"
  "placed_order \<in> set (orders placed_db)"
  "o_id placed_order = ''o1''"
  "orders_policy None placed_order"
  by (simp_all add: placed_db_def placed_order_def orders_policy_def)

lemma preparing_valid: "''preparing'' \<in> set orders_status_check"
  by (simp add: orders_status_check_def)

theorem transition_twice_witness:
  "distinct (map o_id (orders placed_db)) \<and> placed_order \<in> set (orders placed_db)
   \<and> o_id placed_order = ''o1'' \<and> orders_policy None placed_order
   \<and> ''preparing'' \<in> set orders_status_check
   \<and> (\<exists>d1 d2 r2.
        update_order_status None 100 ''o1'' ''preparing'' None None placed_db = Inr (True, d1)
      \<and> update_order_status None 200 ''o1'' ''preparing'' None None d1 = Inr (True, d2)
      \<and> r2 \<in> set (orders d2) \<and> o_id r2 = ''o1''
      \<and> o_preparing_at r2 = Some 200
      \<and> length (order_status_history d2) = 2)"
proof -
  obtain d1 d2 r2 where
      1: "update_order_status None 100 ''o1'' ''preparing'' None None placed_db = Inr (True, d1)"
  and 2: "update_order_status None 200 ''o1'' ''preparing'' None None d1 = Inr (True, d2)"
  and 3: "r2 \<in> set (orders d2)" "o_id r2 = ''o1''"
  and 4: "status_timestamp ''preparing'' r2 =
        (if ''preparing'' \<in> {''confirmed'', ''preparing'', ''ready'', ''picked_up'',
              ''on_the_way'', ''delivered'', ''cancelled''}
         then Some 200 else status_timestamp ''preparing'' placed_order)"
  and 5: "order_status_history d2 = order_status_history placed_db @
        [\<lparr>h_order_id = ''o1'', h_status = ''preparing'', h_message = None, h_location = None,
          h_created_at = Some 100\<rparr>,
         \<lparr>h_order_id = ''o1'', h_status = ''preparing'', h_message = None, h_location = None,
          h_created_at = Some 200\<rparr>]"
    using transition_twice [OF placed_db_hyps preparing_valid,
        of 100 None None 200 None None] by blast
  have 6: "o_preparing_at r2 = Some 200"
    using 4 by (simp add: status_timestamp_def)
  have 7: "length (order_status_history d2) = 2"
    unfolding 5 by (simp add: placed_db_def)
  have "\<exists>d1 d2 r2.
        update_order_status None 100 ''o1'' ''preparing'' None None placed_db = Inr (True, d1)
      \<and> update_order_status None 200 ''o1'' ''preparing'' None None d1 = Inr (True, d2)
      \<and> r2 \<in> set (orders d2) \<and> o_id r2 = ''o1''
      \<and> o_preparing_at r2 = Some 200
      \<and> length (order_status_history d2) = 2"
    using 1 2 3 6 7 by (intro exI [of _ d1] exI [of _ d2] exI [of _ r2]) simp
  then show ?thesis using placed_db_hyps preparing_valid by simp
qed

text \<open>
  The claim as first stated keeps the timestamp of the first call. An order enters
  \<^verbatim>\<open>preparing\<close> at time 100 and again at time 200: \<^verbatim>\<open>preparing_at\<close> is 100 after the
  first call and 200 after the second.
\<close>

theorem transition_twice_counterexample:
  "update_order_status None 100 ''o1'' ''preparing'' None None placed_db
     = Inr (True, preparing_100)
   \<and> update_order_status None 200 ''o1'' ''preparing'' None None preparing_100
     = Inr (True, preparing_200)
   \<and> map o_preparing_at (orders preparing_100) = [Some 100]
   \<and> map o_preparing_at (orders preparing_200) = [Some 200]"
  by (simp add: update_order_status_def placed_db_def preparing_100_def preparing_200_def
      placed_order_def set_status_def orders_policy_def orders_status_check_def)

lemma update_order_status_unknown:
  assumes "\<forall>x\<in>set (orders db). o_id x \<noteq> p"
  shows "update_order_status a now p s m l db = Inl foreign_key_violation"
proof -
  have "\<not> list_ex (\<lambda>x. o_id x = p) (orders db)"
    using assms by (simp add: list_ex_iff)
  moreover have "\<not> list_ex (\<lambda>x. o_id x = p \<and> orders_policy a x) (orders db)"
    using assms by (simp add: list_ex_iff)
  ultimately show ?thesis
    by (simp add: update_order_status_def Let_def list_ex_id_update)
qed

lemma update_order_status_known:
  assumes "\<exists>x\<in>set (orders db). o_id x = p \<and> orders_policy a x"
      and "s \<in> set orders_status_check"
  shows "\<exists>rs. update_order_status a now p s m l db =
       Inr (True, \<lparr>orders = rs,
                  order_status_history = order_status_history db @
                    [\<lparr>h_order_id = p, h_status = s, h_message = m, h_location = l,
                      h_created_at = Some now\<rparr>]\<rparr>)"
proof -
  have "list_ex (\<lambda>x. o_id x = p) (orders db)"
    using assms(1) unfolding list_ex_iff by blast
  then show ?thesis
    using assms(2) by (simp add: update_order_status_def Let_def list_ex_id_update)
qed

text \<open>
  Claim C3, as the code has it. When an order row with the given id exists, may be
  updated by the session, and the new status is admitted, \<^verbatim>\<open>update_order_status\<close>
  returns true and appends the history entry. When no order row has the given id, the
  history insert violates the foreign key on \<^verbatim>\<open>order_id\<close>: the call fails with that
  error, returns no flag, and appends nothing.
\<close>

theorem update_order_status_result:
  "((\<exists>x\<in>set (orders db). o_id x = p \<and> orders_policy a x) \<and> s \<in> set orders_status_check
      \<longrightarrow> (\<exists>rs. update_order_status a now p s m l db =
             Inr (True, \<lparr>orders = rs,
                        order_status_history = order_status_history db @
                          [\<lparr>h_order_id = p, h_status = s, h_message = m, h_location = l,
                            h_created_at = Some now\<rparr>]\<rparr>)))
   \<and> ((\<forall>x\<in>set (orders db). o_id x \<noteq> p)
      \<longrightarrow> update_order_status a now p s m l db = Inl foreign_key_violation)"
  using update_order_status_known [of db p a s now m l]
        update_order_status_unknown [of db p a now s m l]
  by (intro conjI impI) (erule conjE, assumption+)

theorem update_order_status_result_witness:
  "(\<exists>x\<in>set (orders placed_db). o_id x = ''o1'' \<and> orders_policy None x)
   \<and> ''preparing'' \<in> set orders_status_check
   \<and> (\<exists>rs. update_order_status None 100 ''o1'' ''preparing'' None None placed_db =
         Inr (True, \<lparr>orders = rs,
                    order_status_history =
                      [\<lparr>h_order_id = ''o1'', h_status = ''preparing'', h_message = None,
                        h_location = None, h_created_at = Some 100\<rparr>]\<rparr>))
   \<and> ''o2'' \<notin> o_id ` set (orders placed_db)
   \<and> update_order_status None 100 ''o2'' ''preparing'' (Some ''hello'') None placed_db
       = Inl foreign_key_violation"
proof -
  have a: "\<exists>x\<in>set (orders placed_db). o_id x = ''o1'' \<and> orders_policy None x"
    using placed_db_hyps by blast
  have b: "\<forall>x\<in>set (orders placed_db). o_id x \<noteq> ''o2''"
    by (simp add: placed_db_def placed_order_def)
  have h: "order_status_history placed_db = []" by (simp add: placed_db_def)
  have 1: "\<exists>rs. update_order_status None 100 ''o1'' ''preparing'' None None placed_db =
         Inr (True, \<lparr>orders = rs,
                    order_status_history =
                      [\<lparr>h_order_id = ''o1'', h_status = ''preparing'', h_message = None,
                        h_location = None, h_created_at = Some 100\<rparr>]\<rparr>)"
    using update_order_status_result [of placed_db "''o1''" None "''preparing''" 100 None None]
      a preparing_valid unfolding h by simp
  have 2: "update_order_status None 100 ''o2'' ''preparing'' (Some ''hello'') None placed_db
       = Inl foreign_key_violation"
    using update_order_status_result
      [of placed_db "''o2''" None "''preparing''" 100 "Some ''hello''" None] b by blast
  have c: "''o2'' \<notin> o_id ` set (orders placed_db)"
    by (simp add: placed_db_def placed_order_def)
  show ?thesis using a preparing_valid 1 c 2 by blast
qed

text \<open>
  The claim as first stated has the call return false, with the history entry appended,
  when no order matches. For an id that no order has, the call raises
  \<^verbatim>\<open>foreign_key_violation\<close> instead.
\<close>

theorem update_order_status_result_counterexample:
  "update_order_status None 100 ''o2'' ''preparing'' None None placed_db
     = Inl foreign_key_violation
   \<and> update_order_status None 100 ''o2'' ''preparing'' None None placed_db
     \<noteq> Inr (False,
          placed_db\<lparr>order_status_history :=
            [\<lparr>h_order_id = ''o2'', h_status = ''preparing'', h_message = None,
              h_location = None, h_created_at = Some 100\<rparr>]\<rparr>)"
  by (simp add: update_order_status_def placed_db_def placed_order_def)

text \<open>
  The value returned is the \<^verbatim>\<open>FOUND\<close> of the \<^verbatim>\<open>INSERT\<close>. An order of another
  user exists but is not updated by the session; the call appends the history row and
  returns true all the same.
\<close>

lemma update_order_status_not_updatable:
  "update_order_status (Some ''bob'') 100 ''o9'' ''cancelled'' None None
       \<lparr>orders = [other_order], order_status_history = []\<rparr> =
     Inr (True,
          \<lparr>orders = [other_order],
           order_status_history =
             [\<lparr>h_order_id = ''o9'', h_status = ''cancelled'', h_message = None,
               h_location = None, h_created_at = Some 100\<rparr>]\<rparr>)"
  by (simp add: update_order_status_def other_order_def placed_order_def orders_policy_def)

text \<open>
  Claim C4, as the code has it. For every order of a table with primary key \<^verbatim>\<open>id\<close>
  that the row-level policy lets the session update, \<^verbatim>\<open>update_order_status\<close> accepts
  every one of the ten admitted statuses whatever the current one, also after
  \<^verbatim>\<open>delivered\<close> or \<^verbatim>\<open>cancelled\<close>: it returns true and the order has the new status. A
  transition to a status other than \<^verbatim>\<open>delivered\<close> leaves \<^verbatim>\<open>delivered_at\<close> as it was,
  and one to a status other than \<^verbatim>\<open>cancelled\<close> leaves \<^verbatim>\<open>cancelled_at\<close> as it was, so
  a terminal timestamp, once set, is never cleared; a transition to \<^verbatim>\<open>delivered\<close> or
  \<^verbatim>\<open>cancelled\<close>, also a repeated one, sets the timestamp of that status to the time of
  the call.
\<close>

theorem terminal_timestamps:
  assumes pk: "distinct (map o_id (orders db))"
      and r: "r \<in> set (orders db)"
      and id: "o_id r = p"
      and pol: "orders_policy a r"
      and s: "s \<in> set orders_status_check"
  shows "\<exists>d' r'.
      update_order_status a now p s m l db = Inr (True, d')
    \<and> r' \<in> set (orders d') \<and> o_id r' = p \<and> o_status r' = s
    \<and> (s \<noteq> ''delivered'' \<longrightarrow> o_delivered_at r' = o_delivered_at r)
    \<and> (s \<noteq> ''cancelled'' \<longrightarrow> o_cancelled_at r' = o_cancelled_at r)
    \<and> (s = ''delivered'' \<longrightarrow> o_delivered_at r' = Some now)
    \<and> (s = ''cancelled'' \<longrightarrow> o_cancelled_at r' = Some now)
    \<and> (o_delivered_at r \<noteq> None \<longrightarrow> o_delivered_at r' \<noteq> None)
    \<and> (o_cancelled_at r \<noteq> None \<longrightarrow> o_cancelled_at r' \<noteq> None)"
proof -
  let ?r' = "set_status now s r"
  let ?d' = "\<lparr>orders = map (\<lambda>x. if o_id x = p then ?r' else x) (orders db),
              order_status_history = order_status_history db @
                [\<lparr>h_order_id = p, h_status = s, h_message = m, h_location = l,
                  h_created_at = Some now\<rparr>]\<rparr>"
  have res: "update_order_status a now p s m l db = Inr (True, ?d')"
    using pk r id pol s by (rule update_order_status_found)
  have mem: "?r' \<in> set (orders ?d')"
    using update_order_status_found_mem [OF r id] by simp
  show ?thesis
  proof (intro exI conjI)
    show "update_order_status a now p s m l db = Inr (True, ?d')" by (rule res)
    show "?r' \<in> set (orders ?d')" by (rule mem)
    show "o_id ?r' = p" using id by simp
    show "o_status ?r' = s" by simp
    show "s \<noteq> ''delivered'' \<longrightarrow> o_delivered_at ?r' = o_delivered_at r"
      by (simp add: set_status_def)
    show "s \<noteq> ''cancelled'' \<longrightarrow> o_cancelled_at ?r' = o_cancelled_at r"
      by (simp add: set_status_def)
    show "s = ''delivered'' \<longrightarrow> o_delivered_at ?r' = Some now"
      by (simp add: set_status_def)
    show "s = ''cancelled'' \<longrightarrow> o_cancelled_at ?r' = Some now"
      by (simp add: set_status_def)
    show "o_delivered_at r \<noteq> None \<longrightarrow> o_delivered_at ?r' \<noteq> None"
      by (simp add: set_status_def)
    show "o_cancelled_at r \<noteq> None \<longrightarrow> o_cancelled_at ?r' \<noteq> None"
      by (simp add: set_status_def)
  qed
qed

lemma delivered_db_hyps:
  "distinct (map o_id (orders delivered_db))"
  "delivered_order \<in> set (orders delivered_db)"
  "o_id delivered_order = ''o1''"
  "orders_policy None delivered_order"
  by (simp_all add: delivered_db_def delivered_order_def placed_order_def orders_policy_def)

theorem terminal_timestamps_witness:
  "distinct (map o_id (orders delivered_db)) \<and> delivered_order \<in> set (orders delivered_db)
   \<and> o_id delivered_order = ''o1'' \<and> orders_policy None delivered_order
   \<and> ''preparing'' \<in> set orders_status_check
   \<and> o_delivered_at delivered_order = Some 50
   \<and> (\<exists>d' r'.
        update_order_status None 200 ''o1'' ''preparing'' None None delivered_db = Inr (True, d')
      \<and> r' \<in> set (orders d') \<and> o_id r' = ''o1'' \<and> o_status r' = ''preparing''
      \<and> o_delivered_at r' = Some 50)"
proof -
  have d: "o_delivered_at delivered_order = Some 50"
    by (simp add: delivered_order_def)
  obtain d' r' where
      1: "update_order_status None 200 ''o1'' ''preparing'' None None delivered_db = Inr (True, d')"
  and 2: "r' \<in> set (orders d')" "o_id r' = ''o1''" "o_status r' = ''preparing''"
  and 3: "''preparing'' \<noteq> ''delivered'' \<longrightarrow> o_delivered_at r' = o_delivered_at delivered_order"
    using terminal_timestamps [OF delivered_db_hyps preparing_valid, of 200 None None] by blast
  have 4: "o_delivered_at r' = Some 50" using 3 d by simp
  have "\<exists>d' r'.
        update_order_status None 200 ''o1'' ''preparing'' None None delivered_db = Inr (True, d')
      \<and> r' \<in> set (orders d') \<and> o_id r' = ''o1'' \<and> o_status r' = ''preparing''
      \<and> o_delivered_at r' = Some 50"
    using 1 2 4 by (intro exI [of _ d'] exI [of _ r']) simp
  then show ?thesis using delivered_db_hyps preparing_valid d by simp
qed

text \<open>
  The claim as first stated rejects a transition out of a terminal status and never
  overwrites a terminal timestamp. An order delivered at time 50 is moved back to
  \<^verbatim>\<open>preparing\<close>, the call returning true; and a second transition to \<^verbatim>\<open>delivered\<close>
  at time 300 replaces \<^verbatim>\<open>delivered_at\<close>.
\<close>

theorem terminal_timestamps_counterexample:
  "o_status delivered_order = ''delivered'' \<and> o_delivered_at delivered_order = Some 50
   \<and> update_order_status None 200 ''o1'' ''preparing'' None None delivered_db =
       Inr (True,
            \<lparr>orders = [delivered_order\<lparr>o_status := ''preparing'', o_preparing_at := Some 200,
                                        o_updated_at := Some 200\<rparr>],
             order_status_history =
               [\<lparr>h_order_id = ''o1'', h_status = ''preparing'', h_message = None,
                 h_location = None, h_created_at = Some 200\<rparr>]\<rparr>)
   \<and> update_order_status None 300 ''o1'' ''delivered'' None None delivered_db =
       Inr (True,
            \<lparr>orders = [delivered_order\<lparr>o_delivered_at := Some 300,
                                        o_updated_at := Some 300\<rparr>],
             order_status_history =
               [\<lparr>h_order_id = ''o1'', h_status = ''delivered'', h_message = None,
                 h_location = None, h_created_at = Some 300\<rparr>]\<rparr>)"
  by (simp add: update_order_status_def delivered_db_def delivered_order_def
      placed_order_def set_status_def orders_policy_def orders_status_check_def)

text \<open>
  \<^verbatim>\<open>cancelOrder\<close> does not look at the current status either: a delivered order
  becomes a cancelled one, with its delivery time kept.
\<close>

lemma cancelOrder_delivered:
  "cancelOrder None 400 ''o1'' ''changed my mind'' delivered_db =
     \<lparr>orders = [delivered_order\<lparr>o_status := ''cancelled'', o_cancelled_at := Some 400,
                                 o_cancellation_reason := Some ''changed my mind'',
                                 o_cancelled_by := Some ''customer'',
                                 o_updated_at := Some 400\<rparr>],
      order_status_history =
        [\<lparr>h_order_id = ''o1'', h_status = ''cancelled'',
          h_message = Some ''changed my mind'', h_location = None,
          h_created_at = Some 400\<rparr>]\<rparr>"
  by (simp add: cancelOrder_def updateOrderStatus_def update_order_status_def delivered_db_def
      delivered_order_def placed_order_def set_status_def orders_policy_def
      orders_status_check_def)

subsection \<open>Adding an expense\<close>

lemma trim_blank: "trim ''  '' = []"
  by (simp add: trim_def ws1_def)

lemma trim_nbsp: "trim [CHR 0xC2, CHR 0xA0] = []"
  by (simp add: trim_def ws1_def ws2_def)

lemma addExpense_expenses:
  "expenses (snd (addExpense tempId userId response expense st)) =
     (case (userId, response) of
        (Some uid, Some data_id) \<Rightarrow>
          map (\<lambda>e. if expense_id e = tempId then e\<lparr>expense_id := data_id\<rparr> else e)
            (expense\<lparr>expense_id := tempId\<rparr> # expenses st)
      | _ \<Rightarrow> expense\<lparr>expense_id := tempId\<rparr> # expenses st)"
  by (simp add: addExpense_def toast_def Let_def split: option.splits)

lemma addExpense_remote_inserts:
  "remote_inserts (snd (addExpense tempId userId response expense st)) =
     (case userId of
        None \<Rightarrow> remote_inserts st
      | Some uid \<Rightarrow> remote_inserts st @ [insert_row uid expense])"
  by (simp add: addExpense_def toast_def Let_def split: option.splits)

text \<open>
  Claim C8, as the code has it. The validation is that of the form handler
  \<^verbatim>\<open>handleAddExpense\<close>: a submission whose amount is not a number or is at most zero,
  or whose description is empty or blank, is rejected with an error toast before
  anything changes (the form stays as it is, no entry is put into the in-memory
  collection and no insert is issued to the remote store). The hook's \<^verbatim>\<open>addExpense\<close>
  checks nothing: whatever the amount and the description of the expense it is given,
  it puts the entry at the head of the collection and, when a user is logged in,
  issues the remote insert of that expense.
\<close>

theorem add_rejects_invalid:
  "(isNaN (parseFloat (form_amount (newExpense ui)))
      \<or> js_le (parseFloat (form_amount (newExpense ui))) (Num 0)
      \<or> trim (form_foodName (newExpense ui)) = [] \<longrightarrow>
      (\<exists>message.
          handleAddExpense parseFloat now tempId userId response (ui, st) =
            (ui, st\<lparr>toasts := toasts st @ [(''error'', message)]\<rparr>)
        \<and> expenses (snd (handleAddExpense parseFloat now tempId userId response (ui, st)))
            = expenses st
        \<and> remote_inserts (snd (handleAddExpense parseFloat now tempId userId response (ui, st)))
            = remote_inserts st))
   \<and> length (expenses (snd (addExpense tempId userId response expense st)))
       = Suc (length (expenses st))
   \<and> map (\<lambda>e. e\<lparr>expense_id := []\<rparr>) (expenses (snd (addExpense tempId userId response expense st)))
       = map (\<lambda>e. e\<lparr>expense_id := []\<rparr>) (expense # expenses st)
   \<and> (\<forall>uid. userId = Some uid \<longrightarrow>
         remote_inserts (snd (addExpense tempId userId response expense st))
           = remote_inserts st @ [insert_row uid expense])
   \<and> (userId = None \<longrightarrow>
         remote_inserts (snd (addExpense tempId userId response expense st)) = remote_inserts st)"
proof -
  let ?p = "parseFloat (form_amount (newExpense ui))"
  let ?h = "handleAddExpense parseFloat now tempId userId response (ui, st)"
  have reject: "\<exists>message.
          ?h = (ui, st\<lparr>toasts := toasts st @ [(''error'', message)]\<rparr>)
        \<and> expenses (snd ?h) = expenses st
        \<and> remote_inserts (snd ?h) = remote_inserts st"
    if bad: "isNaN ?p \<or> js_le ?p (Num 0) \<or> trim (form_foodName (newExpense ui)) = []"
  proof (cases "isNaN ?p \<or> js_le ?p (Num 0)")
    case True
    then show ?thesis
      by (intro exI [of _ "''Please enter a valid amount''"])
         (simp add: handleAddExpense_def toast_def Let_def)
  next
    case False
    then have "trim (form_foodName (newExpense ui)) = []" using bad by blast
    then show ?thesis using False
      by (intro exI [of _ "''Please enter a description''"])
         (simp add: handleAddExpense_def toast_def Let_def)
  qed
  have len: "length (expenses (snd (addExpense tempId userId response expense st)))
       = Suc (length (expenses st))"
    unfolding addExpense_expenses by (simp split: option.splits)
  have erase: "map (\<lambda>e. e\<lparr>expense_id := []\<rparr>)
         (map (\<lambda>e. if expense_id e = tempId then e\<lparr>expense_id := i\<rparr> else e) es)
       = map (\<lambda>e. e\<lparr>expense_id := []\<rparr>) es" for i es
    by (induction es) simp_all
  have same: "map (\<lambda>e. e\<lparr>expense_id := []\<rparr>)
         (expenses (snd (addExpense tempId userId response expense st)))
       = map (\<lambda>e. e\<lparr>expense_id := []\<rparr>) (expense # expenses st)"
    unfolding addExpense_expenses by (simp add: erase split: option.splits)
  have ins: "\<forall>uid. userId = Some uid \<longrightarrow>
         remote_inserts (snd (addExpense tempId userId response expense st))
           = remote_inserts st @ [insert_row uid expense]"
    unfolding addExpense_remote_inserts by simp
  have none: "userId = None \<longrightarrow>
         remote_inserts (snd (addExpense tempId userId response expense st)) = remote_inserts st"
    unfolding addExpense_remote_inserts by simp
  show ?thesis using reject len same ins none by blast
qed

theorem add_rejects_invalid_witness:
  "js_le (parse_sample (form_amount (newExpense zero_form))) (Num 0)
   \<and> trim (form_foodName (newExpense blank_form)) = []
   \<and> trim (form_foodName (newExpense nbsp_form)) = []
   \<and> handleAddExpense parse_sample 1000 ''1000'' (Some ''u1'') (Some ''e7'')
        (zero_form, empty_ledger) =
       (zero_form, empty_ledger\<lparr>toasts := [(''error'', ''Please enter a valid amount'')]\<rparr>)
   \<and> handleAddExpense parse_sample 1000 ''1000'' (Some ''u1'') (Some ''e7'')
        (blank_form, empty_ledger) =
       (blank_form, empty_ledger\<lparr>toasts := [(''error'', ''Please enter a description'')]\<rparr>)
   \<and> handleAddExpense parse_sample 1000 ''1000'' (Some ''u1'') (Some ''e7'')
        (nbsp_form, empty_ledger) =
       (nbsp_form, empty_ledger\<lparr>toasts := [(''error'', ''Please enter a description'')]\<rparr>)
   \<and> remote_inserts (snd (addExpense ''1000'' (Some ''u1'') None masala empty_ledger))
       = [insert_row ''u1'' masala]
   \<and> remote_inserts (snd (addExpense ''1000'' None None masala empty_ledger)) = []
   \<and> length (expenses (snd (addExpense ''1000'' None None masala empty_ledger))) = 1"
proof -
  have a: "js_le (parse_sample (form_amount (newExpense zero_form))) (Num 0)"
    by (simp add: parse_sample_def zero_form_def)
  have b: "trim (form_foodName (newExpense blank_form)) = []"
    by (simp add: blank_form_def trim_blank)
  have c: "trim (form_foodName (newExpense nbsp_form)) = []"
    by (simp add: nbsp_form_def trim_nbsp)
  have t: "toasts empty_ledger = []" "remote_inserts empty_ledger = []"
    by (simp_all add: empty_ledger_def)
  note th = add_rejects_invalid [where parseFloat = parse_sample and now = 1000
      and tempId = "''1000''" and userId = "Some ''u1''" and st = empty_ledger
      and expense = masala]
  obtain m1 where 1: "handleAddExpense parse_sample 1000 ''1000'' (Some ''u1'') (Some ''e7'')
        (zero_form, empty_ledger) =
       (zero_form, empty_ledger\<lparr>toasts := toasts empty_ledger @ [(''error'', m1)]\<rparr>)"
    using th [of zero_form "Some ''e7''"] a by blast
  obtain m2 where 2: "handleAddExpense parse_sample 1000 ''1000'' (Some ''u1'') (Some ''e7'')
        (blank_form, empty_ledger) =
       (blank_form, empty_ledger\<lparr>toasts := toasts empty_ledger @ [(''error'', m2)]\<rparr>)"
    using th [of blank_form "Some ''e7''"] b by blast
  obtain m3 where 3: "handleAddExpense parse_sample 1000 ''1000'' (Some ''u1'') (Some ''e7'')
        (nbsp_form, empty_ledger) =
       (nbsp_form, empty_ledger\<lparr>toasts := toasts empty_ledger @ [(''error'', m3)]\<rparr>)"
    using th [of nbsp_form "Some ''e7''"] c by blast
  have m1: "m1 = ''Please enter a valid amount''"
    using 1 by (simp add: handleAddExpense_def toast_def parse_sample_def zero_form_def
        empty_ledger_def isNaN_def)
  have m2: "m2 = ''Please enter a description''"
    using 2 by (simp add: handleAddExpense_def toast_def parse_sample_def blank_form_def
        empty_ledger_def trim_blank isNaN_def)
  have m3: "m3 = ''Please enter a description''"
    using 3 by (simp add: handleAddExpense_def toast_def parse_sample_def nbsp_form_def
        empty_ledger_def trim_nbsp isNaN_def)
  have 4: "remote_inserts (snd (addExpense ''1000'' (Some ''u1'') None masala empty_ledger))
       = [insert_row ''u1'' masala]"
    using th [of zero_form None] t by simp
  note tn = add_rejects_invalid [where parseFloat = parse_sample and now = 1000
      and tempId = "''1000''" and userId = None and st = empty_ledger
      and expense = masala and ui = zero_form and response = None]
  have 5: "remote_inserts (snd (addExpense ''1000'' None None masala empty_ledger)) = []"
    using tn t by simp
  have 6: "length (expenses (snd (addExpense ''1000'' None None masala empty_ledger))) = 1"
    using tn by (simp add: empty_ledger_def)
  show ?thesis using a b c 1 2 3 4 5 6 unfolding m1 m2 m3 t by simp
qed

text \<open>
  The claim as first stated has the add operation reject such a request. \<^verbatim>\<open>addExpense\<close>,
  called by a logged-in user with an amount of zero and an empty description, puts the
  entry into the collection, sends it to the remote store and reports success.
\<close>

theorem add_rejects_invalid_counterexample:
  "addExpense ''1000'' (Some ''u1'') (Some ''e7'')
       (masala\<lparr>expense_amount := Num 0, foodName := []\<rparr>) empty_ledger =
     (masala\<lparr>expense_amount := Num 0, foodName := [], expense_id := ''e7''\<rparr>,
      \<lparr>expenses = [masala\<lparr>expense_amount := Num 0, foodName := [], expense_id := ''e7''\<rparr>],
       remote_inserts = [insert_row ''u1'' (masala\<lparr>expense_amount := Num 0, foodName := []\<rparr>)],
       toasts = [(''success'', ''Expense saved!'')]\<rparr>)
   \<and> ins_amount (insert_row ''u1'' (masala\<lparr>expense_amount := Num 0, foodName := []\<rparr>)) = Num 0
   \<and> ins_food_name (insert_row ''u1'' (masala\<lparr>expense_amount := Num 0, foodName := []\<rparr>)) = []"
  by (simp add: addExpense_def toast_def Let_def empty_ledger_def masala_def idli_def
      insert_row_def)

subsection \<open>Reconciling the temporary identity\<close>

lemma insort_key_map_commute:
  assumes "\<And>x. f (g x) = f x"
  shows "insort_key f (g x) (map g xs) = map g (insort_key f x xs)"
  by (induction xs) (simp_all add: assms)

lemma sort_key_map_commute:
  assumes "\<And>x. f (g x) = f x"
  shows "sort_key f (map g xs) = map g (sort_key f xs)"
proof (induction xs)
  case Nil
  then show ?case by simp
next
  case (Cons x xs)
  have "sort_key f (map g (x # xs)) = insort_key f (g x) (sort_key f (map g xs))"
    by simp
  also have "\<dots> = insort_key f (g x) (map g (sort_key f xs))"
    using Cons.IH by simp
  also have "\<dots> = map g (insort_key f x (sort_key f xs))"
    using assms by (rule insort_key_map_commute)
  finally show ?case by simp
qed

lemma getRecentExpenses_reconcile:
  "getRecentExpenses limit
       (map (\<lambda>e. if expense_id e = t then e\<lparr>expense_id := i\<rparr> else e) es) =
     map (\<lambda>e. if expense_id e = t then e\<lparr>expense_id := i\<rparr> else e)
       (getRecentExpenses limit es)"
proof -
  let ?g = "\<lambda>e. if expense_id e = t then e\<lparr>expense_id := i\<rparr> else e"
  have "sort_key (\<lambda>e. - date e) (map ?g es) = map ?g (sort_key (\<lambda>e. - date e) es)"
    by (rule sort_key_map_commute) simp
  then show ?thesis by (simp add: getRecentExpenses_def take_map)
qed

lemma erase_id_reconcile:
  "map (\<lambda>e. e\<lparr>expense_id := []\<rparr>)
       (map (\<lambda>e. if expense_id e = t then e\<lparr>expense_id := i\<rparr> else e) es) =
     map (\<lambda>e. e\<lparr>expense_id := []\<rparr>) es"
  by (induction es) simp_all

lemma addExpense_success:
  "addExpense tempId (Some uid) (Some data_id) expense st =
     (expense\<lparr>expense_id := data_id\<rparr>,
      \<lparr>expenses = map (\<lambda>e. if expense_id e = tempId then e\<lparr>expense_id := data_id\<rparr> else e)
                    (expense\<lparr>expense_id := tempId\<rparr> # expenses st),
       remote_inserts = remote_inserts st @ [insert_row uid expense],
       toasts = toasts st @
         [(''success'',
           if transactionType expense = ''income'' then ''Income added!''
           else if isSplit expense then ''Split expense saved!'' else ''Expense saved!'')]\<rparr>)"
  by (simp add: addExpense_def toast_def Let_def)

text \<open>
  Claim C9. When the remote insert of an optimistically added expense succeeds, the
  reconciliation changes the id of the entry and nothing else: the collection keeps its
  length, every entry keeps every field other than the id and keeps its position, the
  added entry (at the head) now carries the server's id, entries with another id are
  untouched, and the recency-sorted view lists the same entries at the same positions.
\<close>

theorem reconcile_changes_id_only:
  "let optimistic = expense\<lparr>expense_id := tempId\<rparr> # expenses st;
       (saved, st') = addExpense tempId (Some uid) (Some data_id) expense st
   in saved = expense\<lparr>expense_id := data_id\<rparr>
    \<and> length (expenses st') = length optimistic
    \<and> expenses st' ! 0 = expense\<lparr>expense_id := data_id\<rparr>
    \<and> map (\<lambda>e. e\<lparr>expense_id := []\<rparr>) (expenses st')
        = map (\<lambda>e. e\<lparr>expense_id := []\<rparr>) optimistic
    \<and> (\<forall>k < length optimistic.
          expense_id (optimistic ! k) \<noteq> tempId \<longrightarrow> expenses st' ! k = optimistic ! k)
    \<and> (\<forall>k < length optimistic.
          expense_id (optimistic ! k) = tempId \<longrightarrow>
          expenses st' ! k = (optimistic ! k)\<lparr>expense_id := data_id\<rparr>)
    \<and> (\<forall>limit. getRecentExpenses limit (expenses st') =
          map (\<lambda>e. if expense_id e = tempId then e\<lparr>expense_id := data_id\<rparr> else e)
            (getRecentExpenses limit optimistic))"
proof -
  let ?g = "\<lambda>e. if expense_id e = tempId then e\<lparr>expense_id := data_id\<rparr> else e"
  let ?opt = "expense\<lparr>expense_id := tempId\<rparr> # expenses st"
  define st' where "st' = snd (addExpense tempId (Some uid) (Some data_id) expense st)"
  have res: "addExpense tempId (Some uid) (Some data_id) expense st
      = (expense\<lparr>expense_id := data_id\<rparr>, st')"
    unfolding st'_def addExpense_success by simp
  have es: "expenses st' = map ?g ?opt"
    unfolding st'_def addExpense_success by simp
  have 1: "length (expenses st') = length ?opt" unfolding es by simp
  have 2: "expenses st' ! 0 = expense\<lparr>expense_id := data_id\<rparr>" unfolding es by simp
  have 3: "map (\<lambda>e. e\<lparr>expense_id := []\<rparr>) (expenses st') = map (\<lambda>e. e\<lparr>expense_id := []\<rparr>) ?opt"
    unfolding es by (rule erase_id_reconcile)
  have 4: "\<forall>k < length ?opt. expense_id (?opt ! k) \<noteq> tempId \<longrightarrow> expenses st' ! k = ?opt ! k"
    unfolding es by (simp del: list.map)
  have 5: "\<forall>k < length ?opt. expense_id (?opt ! k) = tempId \<longrightarrow>
          expenses st' ! k = (?opt ! k)\<lparr>expense_id := data_id\<rparr>"
    unfolding es by (simp del: list.map)
  have 6: "\<forall>limit. getRecentExpenses limit (expenses st') = map ?g (getRecentExpenses limit ?opt)"
    unfolding es by (simp only: getRecentExpenses_reconcile) simp
  show ?thesis
    unfolding Let_def res prod.case using 1 2 3 4 5 6 by simp
qed

lemma list_of_two: "length xs = 2 \<Longrightarrow> xs = [xs ! 0, xs ! 1]"
  by (cases xs; cases "tl xs") auto

theorem reconcile_changes_id_only_witness:
  "addExpense ''1000'' (Some ''u1'') (Some ''e7'') masala (empty_ledger\<lparr>expenses := [idli]\<rparr>)
     = (masala\<lparr>expense_id := ''e7''\<rparr>,
        \<lparr>expenses = [masala\<lparr>expense_id := ''e7''\<rparr>, idli],
         remote_inserts = [insert_row ''u1'' masala],
         toasts = [(''success'', ''Expense saved!'')]\<rparr>)
   \<and> getRecentExpenses 5 [masala\<lparr>expense_id := ''e7''\<rparr>, idli]
     = [masala\<lparr>expense_id := ''e7''\<rparr>, idli]"
proof -
  let ?st = "empty_ledger\<lparr>expenses := [idli]\<rparr>"
  let ?opt = "masala\<lparr>expense_id := ''1000''\<rparr> # expenses ?st"
  obtain saved st' where
    r: "addExpense ''1000'' (Some ''u1'') (Some ''e7'') masala ?st = (saved, st')"
    by (cases "addExpense ''1000'' (Some ''u1'') (Some ''e7'') masala ?st")
  note t = reconcile_changes_id_only [where expense = masala and tempId = "''1000''"
      and st = ?st and uid = "''u1''" and data_id = "''e7''", unfolded Let_def r prod.case]
  have o: "?opt = [masala\<lparr>expense_id := ''1000''\<rparr>, idli]"
    by (simp add: empty_ledger_def)
  have saved: "saved = masala\<lparr>expense_id := ''e7''\<rparr>" using t by blast
  have len: "length (expenses st') = 2" using t unfolding o by simp
  have e0: "expenses st' ! 0 = masala\<lparr>expense_id := ''e7''\<rparr>" using t by blast
  have "expense_id (?opt ! 1) \<noteq> ''1000''" unfolding o by (simp add: idli_def)
  moreover have "1 < length ?opt" unfolding o by simp
  ultimately have "expenses st' ! 1 = ?opt ! 1" using t by blast
  then have e1: "expenses st' ! 1 = idli" unfolding o by simp
  have es: "expenses st' = [masala\<lparr>expense_id := ''e7''\<rparr>, idli]"
    using list_of_two [OF len] e0 e1 by simp
  have tt: "transactionType masala = ''expense''" "\<not> isSplit masala"
    by (simp_all add: masala_def idli_def)
  have el: "remote_inserts ?st = []" "toasts ?st = []"
    by (simp_all add: empty_ledger_def)
  have "st' = snd (addExpense ''1000'' (Some ''u1'') (Some ''e7'') masala ?st)"
    unfolding r by simp
  then have rest: "remote_inserts st' = [insert_row ''u1'' masala]"
      "toasts st' = [(''success'', ''Expense saved!'')]"
    unfolding addExpense_success snd_conv using tt el by simp_all
  have st': "st' = \<lparr>expenses = [masala\<lparr>expense_id := ''e7''\<rparr>, idli],
         remote_inserts = [insert_row ''u1'' masala],
         toasts = [(''success'', ''Expense saved!'')]\<rparr>"
    using es rest by (cases st') simp
  have "getRecentExpenses 5 (expenses st') =
      map (\<lambda>e. if expense_id e = ''1000'' then e\<lparr>expense_id := ''e7''\<rparr> else e)
        (getRecentExpenses 5 ?opt)"
    using t by blast
  also have "getRecentExpenses 5 ?opt = [masala\<lparr>expense_id := ''1000''\<rparr>, idli]"
    unfolding o by (simp add: getRecentExpenses_def masala_def idli_def)
  finally have rec: "getRecentExpenses 5 [masala\<lparr>expense_id := ''e7''\<rparr>, idli]
     = [masala\<lparr>expense_id := ''e7''\<rparr>, idli]"
    unfolding es by (simp add: idli_def)
  show ?thesis using r saved st' rec by simp
qed

subsection \<open>Period totals and budget spending\<close>

lemma window_pairs:
  "map expense_amount (filter (\<lambda>e. P (date e)) es) =
     map snd (filter (\<lambda>p. P (fst p)) (map (\<lambda>e. (date e, expense_amount e)) es))"
  by (induction es) simp_all

lemma getTodayTotal_fold:
  "getTodayTotal d es =
     foldl js_add (Num 0) (map expense_amount
       (filter (\<lambda>e. toDateString d (date e) = toDateString d (js_now d)) es))"
  by (simp add: getTodayTotal_def getTodayExpenses_def foldl_map)

lemma getWeekTotal_fold:
  "getWeekTotal d es =
     foldl js_add (Num 0) (map expense_amount (filter (\<lambda>e. weekStart d \<le> date e) es))"
  by (simp add: getWeekTotal_def getWeekExpenses_def foldl_map)

lemma getMonthTotal_fold:
  "getMonthTotal d es =
     foldl js_add (Num 0) (map expense_amount (filter (\<lambda>e. monthStart d \<le> date e) es))"
  by (simp add: getMonthTotal_def getMonthExpenses_def foldl_map)

lemma spent_where_filter:
  "filter (spent_where d u p)
       (filter (\<lambda>fo. fo_status fo = Some ''completed''
                    \<and> fo_transaction_type fo = Some ''expense'') fos) =
     filter (spent_where d u p) fos"
  unfolding filter_filter by (rule filter_cong [OF refl]) (auto simp: spent_where_def)

lemma total_spent_filtered:
  "total_spent (get_budget_usage sd ubs fos u p) =
     total_spent (get_budget_usage sd ubs
       (filter (\<lambda>fo. fo_status fo = Some ''completed''
                    \<and> fo_transaction_type fo = Some ''expense'') fos) u p)"
proof -
  obtain b t where sb: "select_budget u p ubs = (b, t)" by (cases "select_budget u p ubs")
  show ?thesis
    unfolding get_budget_usage_def Let_def sb prod.case usage_row_fields spent_where_filter ..
qed

lemma total_spent_get_budget_usage_fix:
  "val (total_spent (get_budget_usage_fix d ubs fos u p)) =
     sum_list (map (\<lambda>fo. val (fo_amount fo)) (filter (spent_where_fix d u p) fos))"
proof -
  obtain b t where sb: "select_budget u p ubs = (b, t)" by (cases "select_budget u p ubs")
  show ?thesis
    unfolding get_budget_usage_fix_def Let_def sb prod.case usage_row_fields sum_numeric_val
    by (simp add: comp_def)
qed

lemma spent_where_fix_iff:
  "spent_where_fix d u p fo \<longleftrightarrow>
     user_matches u (fo_user_id fo)
     \<and> (fo_status fo = None \<or> fo_status fo = Some ''completed'')
     \<and> (fo_transaction_type fo = None \<or> fo_transaction_type fo = Some ''expense'')
     \<and> (if p = ''daily'' then current_date d \<le> fo_order_date fo
        else if p = ''weekly'' then week_trunc d \<le> fo_order_date fo
        else month_trunc d \<le> fo_order_date fo)"
  by (cases "fo_status fo"; cases "fo_transaction_type fo") (simp_all add: spent_where_fix_def)

lemma mixed_amounts:
  "map (\<lambda>e. (date e, expense_amount e)) (map mapOrderToExpense mixed_rows)
     = [(100, Num 120), (100, Num 80), (100, Num 500)]"
  by (simp add: mixed_rows_def dosa_def mapOrderToExpense_def Number_of_def dec_def
      double_round_numeral)

lemma sum_mixed: "foldl js_add (Num 0) [Num 120, Num 80, Num 500] = Num 700"
  by (simp add: double_round_numeral)

text \<open>
  Claim C10. Each of \<^verbatim>\<open>getTodayTotal\<close>, \<^verbatim>\<open>getWeekTotal\<close> and \<^verbatim>\<open>getMonthTotal\<close> adds,
  from the left and in doubles, the amounts of all the entries whose date falls in its
  window (the current day, from the start of the week, from the start of the month).
  The totals depend on nothing but the dates and amounts of the entries: changing the
  status or the transaction type of any entry leaves them as they were. The
  \<^verbatim>\<open>total_spent\<close> of \<^verbatim>\<open>get_budget_usage\<close> is the sum of the amounts of the rows of
  the user in the period that have status \<^verbatim>\<open>completed\<close> and transaction type
  \<^verbatim>\<open>expense\<close>, the same as on the table restricted to such rows (the script that
  recreates the function also counts the rows where one of the two columns is
  \<^verbatim>\<open>NULL\<close>). So the two can disagree on the same data: for a completed expense of 120, a pending one of 80 and an
  income of 500, all of today, the three totals are 700 and the budget spending is 120.
\<close>

theorem totals_ignore_status:
  "getTodayTotal d es =
     foldl js_add (Num 0) (map expense_amount
       (filter (\<lambda>e. toDateString d (date e) = toDateString d (js_now d)) es))
   \<and> getWeekTotal d es =
       foldl js_add (Num 0) (map expense_amount (filter (\<lambda>e. weekStart d \<le> date e) es))
   \<and> getMonthTotal d es =
       foldl js_add (Num 0) (map expense_amount (filter (\<lambda>e. monthStart d \<le> date e) es))
   \<and> (map (\<lambda>e. (date e, expense_amount e)) es = map (\<lambda>e. (date e, expense_amount e)) es' \<longrightarrow>
       getTodayTotal d es = getTodayTotal d es'
     \<and> getWeekTotal d es = getWeekTotal d es'
     \<and> getMonthTotal d es = getMonthTotal d es')
   \<and> val (total_spent (get_budget_usage sd ubs fos u p)) =
       sum_list (map (\<lambda>fo. val (fo_amount fo))
         (filter (\<lambda>fo. user_matches u (fo_user_id fo)
                      \<and> fo_status fo = Some ''completed''
                      \<and> fo_transaction_type fo = Some ''expense''
                      \<and> (if p = ''daily'' then current_date sd \<le> fo_order_date fo
                         else if p = ''weekly'' then week_trunc sd \<le> fo_order_date fo
                         else month_trunc sd \<le> fo_order_date fo)) fos))
   \<and> total_spent (get_budget_usage sd ubs fos u p) =
       total_spent (get_budget_usage sd ubs
         (filter (\<lambda>fo. fo_status fo = Some ''completed''
                      \<and> fo_transaction_type fo = Some ''expense'') fos) u p)
   \<and> val (total_spent (get_budget_usage_fix sd ubs fos u p)) =
       sum_list (map (\<lambda>fo. val (fo_amount fo))
         (filter (\<lambda>fo. user_matches u (fo_user_id fo)
                      \<and> (fo_status fo = None \<or> fo_status fo = Some ''completed'')
                      \<and> (fo_transaction_type fo = None
                         \<or> fo_transaction_type fo = Some ''expense'')
                      \<and> (if p = ''daily'' then current_date sd \<le> fo_order_date fo
                         else if p = ''weekly'' then week_trunc sd \<le> fo_order_date fo
                         else month_trunc sd \<le> fo_order_date fo)) fos))
   \<and> getTodayTotal sample_js_dates (map mapOrderToExpense mixed_rows) = Num 700
   \<and> getWeekTotal sample_js_dates (map mapOrderToExpense mixed_rows) = Num 700
   \<and> getMonthTotal sample_js_dates (map mapOrderToExpense mixed_rows) = Num 700
   \<and> val (total_spent (get_budget_usage sample_dates [] mixed_rows None ''monthly'')) = 120
   \<and> val (total_spent (get_budget_usage_fix sample_dates [] mixed_rows None ''monthly'')) = 120"
proof -
  have 1: "getTodayTotal d es = getTodayTotal d es'
     \<and> getWeekTotal d es = getWeekTotal d es'
     \<and> getMonthTotal d es = getMonthTotal d es'"
    if "map (\<lambda>e. (date e, expense_amount e)) es = map (\<lambda>e. (date e, expense_amount e)) es'"
    unfolding getTodayTotal_fold getWeekTotal_fold getMonthTotal_fold
      window_pairs [of "\<lambda>t. toDateString d t = toDateString d (js_now d)"]
      window_pairs [of "\<lambda>t. weekStart d \<le> t"]
      window_pairs [of "\<lambda>t. monthStart d \<le> t"]
      that by simp
  have 2: "val (total_spent (get_budget_usage sd ubs fos u p)) =
       sum_list (map (\<lambda>fo. val (fo_amount fo))
         (filter (\<lambda>fo. user_matches u (fo_user_id fo)
                      \<and> fo_status fo = Some ''completed''
                      \<and> fo_transaction_type fo = Some ''expense''
                      \<and> (if p = ''daily'' then current_date sd \<le> fo_order_date fo
                         else if p = ''weekly'' then week_trunc sd \<le> fo_order_date fo
                         else month_trunc sd \<le> fo_order_date fo)) fos))"
    unfolding total_spent_get_budget_usage spent_where_def ..
  have 3: "getTodayTotal sample_js_dates (map mapOrderToExpense mixed_rows) = Num 700"
    unfolding getTodayTotal_fold
      window_pairs [of "\<lambda>t. toDateString sample_js_dates t
          = toDateString sample_js_dates (js_now sample_js_dates)"] mixed_amounts
    using sum_mixed by (simp add: sample_js_dates_def)
  have 4: "getWeekTotal sample_js_dates (map mapOrderToExpense mixed_rows) = Num 700"
    unfolding getWeekTotal_fold window_pairs [of "\<lambda>t. weekStart sample_js_dates \<le> t"]
      mixed_amounts
    using sum_mixed by (simp add: sample_js_dates_def)
  have 5: "getMonthTotal sample_js_dates (map mapOrderToExpense mixed_rows) = Num 700"
    unfolding getMonthTotal_fold window_pairs [of "\<lambda>t. monthStart sample_js_dates \<le> t"]
      mixed_amounts
    using sum_mixed by (simp add: sample_js_dates_def)
  have 6: "val (total_spent (get_budget_usage sample_dates [] mixed_rows None ''monthly'')) = 120"
    by (simp add: total_spent_get_budget_usage spent_where_def user_matches_def
        sample_dates_def mixed_rows_def dosa_def dec_def)
  have 7: "val (total_spent (get_budget_usage_fix sd ubs fos u p)) =
       sum_list (map (\<lambda>fo. val (fo_amount fo))
         (filter (\<lambda>fo. user_matches u (fo_user_id fo)
                      \<and> (fo_status fo = None \<or> fo_status fo = Some ''completed'')
                      \<and> (fo_transaction_type fo = None
                         \<or> fo_transaction_type fo = Some ''expense'')
                      \<and> (if p = ''daily'' then current_date sd \<le> fo_order_date fo
                         else if p = ''weekly'' then week_trunc sd \<le> fo_order_date fo
                         else month_trunc sd \<le> fo_order_date fo)) fos))"
    unfolding total_spent_get_budget_usage_fix spent_where_fix_iff ..
  have 8: "val (total_spent (get_budget_usage_fix sample_dates [] mixed_rows None ''monthly''))
      = 120"
    by (simp add: total_spent_get_budget_usage_fix spent_where_fix_def user_matches_def
        sample_dates_def mixed_rows_def dosa_def dec_def)
  show ?thesis
    using getTodayTotal_fold [of d es] getWeekTotal_fold [of d es] getMonthTotal_fold [of d es]
      1 2 total_spent_filtered [of sd ubs fos u p] 7 3 4 5 6 8
    by (intro conjI impI) blast+
qed

theorem totals_ignore_status_witness:
  "map (\<lambda>e. (date e, expense_amount e)) (map mapOrderToExpense mixed_rows) =
     map (\<lambda>e. (date e, expense_amount e))
       (map (\<lambda>e. e\<lparr>status := ''cancelled'', transactionType := ''income''\<rparr>)
          (map mapOrderToExpense mixed_rows))
   \<and> getTodayTotal sample_js_dates
       (map (\<lambda>e. e\<lparr>status := ''cancelled'', transactionType := ''income''\<rparr>)
          (map mapOrderToExpense mixed_rows)) = Num 700
   \<and> getMonthTotal sample_js_dates
       (map (\<lambda>e. e\<lparr>status := ''cancelled'', transactionType := ''income''\<rparr>)
          (map mapOrderToExpense mixed_rows)) = Num 700"
proof -
  let ?es = "map mapOrderToExpense mixed_rows"
  let ?es' = "map (\<lambda>e. e\<lparr>status := ''cancelled'', transactionType := ''income''\<rparr>) ?es"
  have a: "map (\<lambda>e. (date e, expense_amount e)) ?es = map (\<lambda>e. (date e, expense_amount e)) ?es'"
    by (simp add: comp_def)
  note t = totals_ignore_status [of sample_js_dates ?es ?es']
  have "getTodayTotal sample_js_dates ?es = getTodayTotal sample_js_dates ?es'"
    and "getMonthTotal sample_js_dates ?es = getMonthTotal sample_js_dates ?es'"
    using t a by blast+
  moreover have "getTodayTotal sample_js_dates ?es = Num 700"
    and "getMonthTotal sample_js_dates ?es = Num 700"
    using t by blast+
  ultimately have "getTodayTotal sample_js_dates ?es' = Num 700"
    and "getMonthTotal sample_js_dates ?es' = Num 700" by simp_all
  then show ?thesis using a by blast
qed

text \<open>
  The totals are sums of doubles: two entries of 0.1 and 0.2 add up to
  0.30000000000000004, which is not the double nearest to 0.3.
\<close>

lemma fifth: "double_round (1 / 5) = Num (3602879701896397 / 18014398509481984)"
  by (rule double_round_eqI [where e = "- 3" and m = 7205759403792794]) simp_all

lemma tenth: "double_round (1 / 10) = Num (3602879701896397 / 36028797018963968)"
  by (rule double_round_eqI [where e = "- 4" and m = 7205759403792794]) simp_all

lemma zero_plus_tenth: "js_add (Num 0) (Num (3602879701896397 / 36028797018963968)) = Num (3602879701896397 / 36028797018963968)"
proof -
  have "double_round (0 + (3602879701896397 / 36028797018963968)) = Num (3602879701896397 / 36028797018963968)"
    by (rule double_round_eqI [where e = "- 4" and m = 7205759403792794]) simp_all
  then show ?thesis by (simp add: js_sub_def)
qed

lemma tenth_plus_fifth: "js_add (Num (3602879701896397 / 36028797018963968)) (Num (3602879701896397 / 18014398509481984)) = Num (1351079888211149 / 4503599627370496)"
proof -
  have "double_round ((3602879701896397 / 36028797018963968) + (3602879701896397 / 18014398509481984)) = Num (1351079888211149 / 4503599627370496)"
    by (rule double_round_tieI [where e = "- 2" and f = 5404319552844595]) simp_all
  then show ?thesis by (simp add: js_sub_def)
qed

lemma totals_are_rounded:
  "getMonthTotal sample_js_dates
       [idli\<lparr>expense_amount := double_round (1 / 10)\<rparr>,
        idli\<lparr>expense_amount := double_round (1 / 5)\<rparr>]
     = Num (1351079888211149 / 4503599627370496)"
  "double_round (3 / 10) = Num (5404319552844595 / 18014398509481984)"
  unfolding getMonthTotal_fold tenth fifth
  by (simp_all add: sample_js_dates_def idli_def zero_plus_tenth tenth_plus_fifth split_step0
      del: js_add.simps)

text \<open>
  The recreated function agrees with the first one on tables without \<^verbatim>\<open>NULL\<close> in
  the two columns; a row with a \<^verbatim>\<open>NULL\<close> status counts for it alone.
\<close>

lemma get_budget_usage_fix_same:
  assumes "\<forall>fo\<in>set fos. fo_status fo \<noteq> None \<and> fo_transaction_type fo \<noteq> None"
  shows "get_budget_usage_fix d ubs fos u p = get_budget_usage d ubs fos u p"
proof -
  have "filter (spent_where_fix d u p) fos = filter (spent_where d u p) fos"
    by (rule filter_cong [OF refl]) (use assms in \<open>auto simp: spent_where_fix_def spent_where_def\<close>)
  then show ?thesis
    by (simp add: get_budget_usage_fix_def get_budget_usage_def)
qed

lemma get_budget_usage_fix_null:
  "val (total_spent (get_budget_usage_fix sample_dates [] [dosa\<lparr>fo_status := None\<rparr>] None
          ''monthly'')) = 120"
  "val (total_spent (get_budget_usage sample_dates [] [dosa\<lparr>fo_status := None\<rparr>] None
          ''monthly'')) = 0"
  by (simp_all add: get_budget_usage_fix_def get_budget_usage_def select_budget_def
      usage_row_fields spent_where_fix_def spent_where_def user_matches_def sum_numeric_def
      dosa_def sample_dates_def dec_def num_of_int_def)

subsection \<open>Tracking state\<close>

lemma indexOf_statusOrder:
  "indexOf statusOrder s =
     (if s = ''placed'' then 0 else if s = ''confirmed'' then 1
      else if s = ''preparing'' then 2 else if s = ''ready'' then 3
      else if s = ''picked_up'' then 4 else if s = ''on_the_way'' then 5
      else if s = ''nearby'' then 6 else if s = ''delivered'' then 7 else - 1)"
  unfolding indexOf_def statusOrder_def indexOf_from.simps
  by (simp add: eq_commute [of _ s])


lemma indexOf_from_spec:
  "indexOf_from i xs x =
     (if x \<in> set xs then i + int (length (takeWhile (\<lambda>y. y \<noteq> x) xs)) else - 1)"
  by (induction xs arbitrary: i) auto

lemma ceiling_minutes:
  fixes r :: int
  shows "\<lceil>(of_int r :: rat) / 60000\<rceil> = m \<longleftrightarrow> 60000 * (m - 1) < r \<and> r \<le> 60000 * m"
proof -
  have "\<lceil>(of_int r :: rat) / 60000\<rceil> = m \<longleftrightarrow>
        of_int m - 1 < (of_int r :: rat) / 60000 \<and> (of_int r :: rat) / 60000 \<le> of_int m"
    by (rule ceiling_eq_iff)
  also have "of_int m - 1 < (of_int r :: rat) / 60000 \<longleftrightarrow> 60000 * (m - 1) < r"
  proof -
    have "of_int m - 1 < (of_int r :: rat) / 60000 \<longleftrightarrow>
          (of_int (60000 * (m - 1)) :: rat) < of_int r"
      by (simp add: pos_less_divide_eq algebra_simps)
    then show ?thesis by (simp only: of_int_less_iff)
  qed
  also have "(of_int r :: rat) / 60000 \<le> of_int m \<longleftrightarrow> r \<le> 60000 * m"
  proof -
    have "(of_int r :: rat) / 60000 \<le> of_int m \<longleftrightarrow>
          (of_int r :: rat) \<le> of_int (60000 * m)"
      by (simp add: pos_divide_le_eq algebra_simps)
    then show ?thesis by (simp only: of_int_le_iff)
  qed
  finally show ?thesis .
qed

text \<open>
  Claim C6. For every order whose rating, when set, lies between 1 and 5 (the table's
  constraint), \<^verbatim>\<open>getOrderTrackingState\<close> is a function of the order, the loaded
  history and the current time that returns: the progress percentage
  \<open>(indexOf(status) + 1) / 8 * 100\<close> over the eight-element sequence, the index being
  the position of the status or \<open>-1\<close> (so 12.5 for \<^verbatim>\<open>placed\<close> up to 100 for
  \<^verbatim>\<open>delivered\<close>, and 0 for \<^verbatim>\<open>cancelled\<close> and \<^verbatim>\<open>failed\<close>); \<open>canCancel\<close>, true
  exactly for \<^verbatim>\<open>placed\<close> and \<^verbatim>\<open>confirmed\<close>; \<open>canRate\<close>, true exactly for a delivered
  order without rating; and the estimated time, undefined when no delivery time is set or
  the order is delivered, otherwise \<open>max(0, ceil((estimatedDeliveryTime - now) / 60000))\<close>
  minutes: zero once the time has passed, else the least number of whole minutes that
  covers the remaining time.
\<close>

theorem tracking_state:
  "let state = getOrderTrackingState orderHistory now order;
       s = order_status order
   in progressPercentage state = (of_int (indexOf statusOrder s) + 1) / 8 * 100
    \<and> indexOf statusOrder s =
        (if s \<in> set statusOrder
         then int (length (takeWhile (\<lambda>y. y \<noteq> s) statusOrder)) else - 1)
    \<and> progressPercentage state =
        (if s = ''placed'' then 25 / 2 else if s = ''confirmed'' then 25
         else if s = ''preparing'' then 75 / 2 else if s = ''ready'' then 50
         else if s = ''picked_up'' then 125 / 2 else if s = ''on_the_way'' then 75
         else if s = ''nearby'' then 175 / 2 else if s = ''delivered'' then 100 else 0)
    \<and> canCancel state = (s = ''placed'' \<or> s = ''confirmed'')
    \<and> ((\<forall>n. rating order = Some n \<longrightarrow> 1 \<le> n \<and> n \<le> 5) \<longrightarrow>
         canRate state = (s = ''delivered'' \<and> rating order = None))
    \<and> (estimatedDeliveryTime order = None \<or> s = ''delivered'' \<longrightarrow>
         estimatedTime state = None)
    \<and> (\<forall>t. estimatedDeliveryTime order = Some t \<and> s \<noteq> ''delivered'' \<longrightarrow>
         estimatedTime state = Some (max 0 \<lceil>(of_int (t - now) :: rat) / 60000\<rceil>)
       \<and> (\<exists>m. estimatedTime state = Some m \<and> 0 \<le> m
              \<and> (t \<le> now \<longrightarrow> m = 0)
              \<and> (now < t \<longrightarrow> 60000 * (m - 1) < t - now \<and> t - now \<le> 60000 * m)))
    \<and> currentStatus state = s \<and> statusHistory state = orderHistory
    \<and> isDelivered state = (s = ''delivered'') \<and> isCancelled state = (s = ''cancelled'')"
proof -
  define s where "s = order_status order"
  define state where "state = getOrderTrackingState orderHistory now order"
  have len: "length statusOrder = 8" by (simp add: statusOrder_def)
  have 1: "progressPercentage state = (of_int (indexOf statusOrder s) + 1) / 8 * 100"
    unfolding state_def s_def getOrderTrackingState_def Let_def by (simp add: len)
  have 2: "indexOf statusOrder s =
        (if s \<in> set statusOrder
         then int (length (takeWhile (\<lambda>y. y \<noteq> s) statusOrder)) else - 1)"
    unfolding indexOf_def indexOf_from_spec by simp
  have 3: "progressPercentage state =
        (if s = ''placed'' then 25 / 2 else if s = ''confirmed'' then 25
         else if s = ''preparing'' then 75 / 2 else if s = ''ready'' then 50
         else if s = ''picked_up'' then 125 / 2 else if s = ''on_the_way'' then 75
         else if s = ''nearby'' then 175 / 2 else if s = ''delivered'' then 100 else 0)"
    unfolding 1 indexOf_statusOrder by simp
  have 4: "canCancel state = (s = ''placed'' \<or> s = ''confirmed'')"
    unfolding state_def s_def getOrderTrackingState_def Let_def by simp
  have cr: "canRate state =
      (s = ''delivered'' \<and> (case rating order of None \<Rightarrow> True | Some n \<Rightarrow> n = 0))"
    unfolding state_def s_def getOrderTrackingState_def Let_def by simp
  have et: "estimatedTime state =
      (case estimatedDeliveryTime order of None \<Rightarrow> None
       | Some t \<Rightarrow> if s \<noteq> ''delivered''
           then Some (max 0 \<lceil>(of_int (t - now) :: rat) / 60000\<rceil>) else None)"
    unfolding state_def s_def getOrderTrackingState_def Let_def by simp
  have 5: "(\<forall>n. rating order = Some n \<longrightarrow> 1 \<le> n \<and> n \<le> 5) \<longrightarrow>
      canRate state = (s = ''delivered'' \<and> rating order = None)"
    unfolding cr by (cases "rating order") auto
  have 6: "estimatedDeliveryTime order = None \<or> s = ''delivered'' \<longrightarrow>
      estimatedTime state = None"
    unfolding et by (cases "estimatedDeliveryTime order") auto
  have 7: "estimatedTime state = Some (max 0 \<lceil>(of_int (t - now) :: rat) / 60000\<rceil>)
       \<and> (\<exists>m. estimatedTime state = Some m \<and> 0 \<le> m
              \<and> (t \<le> now \<longrightarrow> m = 0)
              \<and> (now < t \<longrightarrow> 60000 * (m - 1) < t - now \<and> t - now \<le> 60000 * m))"
    if a: "estimatedDeliveryTime order = Some t \<and> s \<noteq> ''delivered''" for t
  proof -
    define c where "c = \<lceil>(of_int (t - now) :: rat) / 60000\<rceil>"
    have e: "estimatedTime state = Some (max 0 c)"
      using a unfolding et c_def by simp
    have c: "60000 * (c - 1) < t - now \<and> t - now \<le> 60000 * c"
      using ceiling_minutes [of "t - now" c] c_def by simp
    have past: "max 0 c = 0" if "t \<le> now" using c that by (simp add: max_def; linarith)
    have future: "max 0 c = c" if "now < t" using c that by (simp add: max_def; linarith)
    have "0 \<le> max 0 c
        \<and> (t \<le> now \<longrightarrow> max 0 c = 0)
        \<and> (now < t \<longrightarrow> 60000 * (max 0 c - 1) < t - now \<and> t - now \<le> 60000 * max 0 c)"
      using past future c by simp
    then have "\<exists>m. estimatedTime state = Some m \<and> 0 \<le> m
              \<and> (t \<le> now \<longrightarrow> m = 0)
              \<and> (now < t \<longrightarrow> 60000 * (m - 1) < t - now \<and> t - now \<le> 60000 * m)"
      using e by (intro exI [of _ "max 0 c"]) simp
    then show ?thesis using e unfolding c_def by simp
  qed
  have q7: "\<forall>t. estimatedDeliveryTime order = Some t \<and> s \<noteq> ''delivered'' \<longrightarrow>
         estimatedTime state = Some (max 0 \<lceil>(of_int (t - now) :: rat) / 60000\<rceil>)
       \<and> (\<exists>m. estimatedTime state = Some m \<and> 0 \<le> m
              \<and> (t \<le> now \<longrightarrow> m = 0)
              \<and> (now < t \<longrightarrow> 60000 * (m - 1) < t - now \<and> t - now \<le> 60000 * m))"
  proof (intro allI impI)
    fix t assume "estimatedDeliveryTime order = Some t \<and> s \<noteq> ''delivered''"
    then show "estimatedTime state = Some (max 0 \<lceil>(of_int (t - now) :: rat) / 60000\<rceil>)
       \<and> (\<exists>m. estimatedTime state = Some m \<and> 0 \<le> m
              \<and> (t \<le> now \<longrightarrow> m = 0)
              \<and> (now < t \<longrightarrow> 60000 * (m - 1) < t - now \<and> t - now \<le> 60000 * m))"
      by (rule 7)
  qed
  have 8: "currentStatus state = s" "statusHistory state = orderHistory"
      "isDelivered state = (s = ''delivered'')" "isCancelled state = (s = ''cancelled'')"
    unfolding state_def s_def getOrderTrackingState_def Let_def by simp_all
  have "progressPercentage state = (of_int (indexOf statusOrder s) + 1) / 8 * 100
    \<and> indexOf statusOrder s =
        (if s \<in> set statusOrder
         then int (length (takeWhile (\<lambda>y. y \<noteq> s) statusOrder)) else - 1)
    \<and> progressPercentage state =
        (if s = ''placed'' then 25 / 2 else if s = ''confirmed'' then 25
         else if s = ''preparing'' then 75 / 2 else if s = ''ready'' then 50
         else if s = ''picked_up'' then 125 / 2 else if s = ''on_the_way'' then 75
         else if s = ''nearby'' then 175 / 2 else if s = ''delivered'' then 100 else 0)
    \<and> canCancel state = (s = ''placed'' \<or> s = ''confirmed'')
    \<and> ((\<forall>n. rating order = Some n \<longrightarrow> 1 \<le> n \<and> n \<le> 5) \<longrightarrow>
         canRate state = (s = ''delivered'' \<and> rating order = None))
    \<and> (estimatedDeliveryTime order = None \<or> s = ''delivered'' \<longrightarrow>
         estimatedTime state = None)
    \<and> (\<forall>t. estimatedDeliveryTime order = Some t \<and> s \<noteq> ''delivered'' \<longrightarrow>
         estimatedTime state = Some (max 0 \<lceil>(of_int (t - now) :: rat) / 60000\<rceil>)
       \<and> (\<exists>m. estimatedTime state = Some m \<and> 0 \<le> m
              \<and> (t \<le> now \<longrightarrow> m = 0)
              \<and> (now < t \<longrightarrow> 60000 * (m - 1) < t - now \<and> t - now \<le> 60000 * m)))
    \<and> currentStatus state = s \<and> statusHistory state = orderHistory
    \<and> isDelivered state = (s = ''delivered'') \<and> isCancelled state = (s = ''cancelled'')"
    by (intro conjI) (rule 1 2 3 4 5 6 q7 8)+
  then show ?thesis unfolding Let_def state_def s_def .
qed


theorem tracking_state_witness:
  "rating order_on_the_way = None
   \<and> estimatedDeliveryTime order_on_the_way = Some 600000
   \<and> order_status order_on_the_way = ''on_the_way''
   \<and> progressPercentage (getOrderTrackingState [] 100000 order_on_the_way) = 75
   \<and> estimatedTime (getOrderTrackingState [] 100000 order_on_the_way) = Some 9
   \<and> estimatedTime (getOrderTrackingState [] 700000 order_on_the_way) = Some 0
   \<and> canCancel (getOrderTrackingState [] 100000 order_on_the_way) = False
   \<and> rating order_delivered = None
   \<and> canRate (getOrderTrackingState [] 100000 order_delivered) = True
   \<and> estimatedTime (getOrderTrackingState [] 100000 order_delivered) = None
   \<and> progressPercentage (getOrderTrackingState [] 100000 order_delivered) = 100"
proof -
  have w: "rating order_on_the_way = None"
      "estimatedDeliveryTime order_on_the_way = Some 600000"
      "order_status order_on_the_way = ''on_the_way''"
    by (simp_all add: order_on_the_way_def)
  have d: "rating order_delivered = None" "order_status order_delivered = ''delivered''"
    by (simp_all add: order_delivered_def order_on_the_way_def)
  have c9: "\<lceil>(of_int (600000 - 100000) :: rat) / 60000\<rceil> = 9"
    unfolding ceiling_minutes by simp
  have c0: "\<lceil>(of_int (600000 - 700000) :: rat) / 60000\<rceil> = - 1"
    unfolding ceiling_minutes by simp
  note a = tracking_state [of "[]" 100000 order_on_the_way, unfolded Let_def w]
  note b = tracking_state [of "[]" 700000 order_on_the_way, unfolded Let_def w]
  note c = tracking_state [of "[]" 100000 order_delivered, unfolded Let_def d]
  have a1: "progressPercentage (getOrderTrackingState [] 100000 order_on_the_way) = 75"
    using a by simp
  have a2: "estimatedTime (getOrderTrackingState [] 100000 order_on_the_way) = Some 9"
    using a c9 by simp
  have a3: "canCancel (getOrderTrackingState [] 100000 order_on_the_way) = False"
    using a by simp
  have b1: "estimatedTime (getOrderTrackingState [] 700000 order_on_the_way) = Some 0"
    using b c0 by simp
  have c1: "canRate (getOrderTrackingState [] 100000 order_delivered) = True"
    using c by simp
  have c2: "estimatedTime (getOrderTrackingState [] 100000 order_delivered) = None"
    using c by simp
  have c3: "progressPercentage (getOrderTrackingState [] 100000 order_delivered) = 100"
    using c by simp
  show ?thesis using w d a1 a2 a3 b1 c1 c2 c3 by simp
qed


end
